(* ===== verification/Rs_Prelude.thy ===== *)
theory Rs_Prelude
  imports Main "HOL-Library.Word" "HOL-Library.Monad_Syntax"
begin

text \<open>
  Shared vocabulary of the development: the machine integer types, the convention for
  undefined behaviour, the proof-rule collections, and the generic lemmas on words, lists
  and options that the component theories use.

  Conventions. A C++ expression whose evaluation is undefined (a null dereference, a read or
  write outside a buffer, an over-wide shift) makes the modelled operation return \<open>None\<close>;
  an operation that the source lets fail in an orderly way returns a value that says so.
  \<open>rsAssert\<close> only logs, so it never changes a result and does not appear in the model.
\<close>

unbundle bit_operations_syntax

type_synonym u8 = "8 word"
type_synonym u16 = "16 word"
type_synonym u32 = "32 word"
type_synonym u64 = "64 word"

section \<open>Rule collections\<close>

named_theorems blas_enum "values of the enumeration constants of BLAS commands"
named_theorems blas_method "definitions of the public BLAS methods"

section \<open>Options\<close>

lemma bind_eq_SomeE [elim!]:
  assumes "Option.bind m f = Some y"
  obtains x where "m = Some x" and "f x = Some y"
  using assms by (cases m) auto

lemma bind_neq_None_iff: "Option.bind m f \<noteq> None \<longleftrightarrow> (\<exists>x. m = Some x \<and> f x \<noteq> None)"
  by (cases m) auto

lemma if_Some_eq_Some [simp]: "(if c then Some x else None) = Some y \<longleftrightarrow> c \<and> x = y"
  by auto

section \<open>Numbers and words\<close>

lemma pow2_lessD: "(2::nat) ^ a < 2 ^ b \<Longrightarrow> a < b"
  by (rule power_less_imp_less_exp [of 2]) simp

lemma unat_add_bounded:
  fixes a b :: "'a::len word"
  assumes "unat a + unat b < 2 ^ LENGTH('a)"
  shows "unat (a + b) = unat a + unat b"
  using assms by (simp add: unat_word_ariths)

lemma unat_add_numeral_bounded:
  fixes a :: "'a::len word"
  assumes "unat a + n < 2 ^ LENGTH('a)"
  shows "unat (a + of_nat n) = unat a + n"
  using assms by (simp add: unat_word_ariths unat_of_nat)

text \<open>
  Clearing the low \<open>n\<close> bits rounds down to a multiple of \<open>2 ^ n\<close>; this is what every
  \<open>& ~(align - 1)\<close> of the sources computes.
\<close>

lemma and_not_mask_eq_shift:
  fixes x :: "'a::len word"
  shows "x AND NOT (mask n) = push_bit n (drop_bit n x)"
  by (rule bit_word_eqI) (auto simp: bit_simps)

lemma int_and_not_mask: "(k::int) AND NOT (mask n) = k div 2 ^ n * 2 ^ n"
proof -
  have "k AND NOT (mask n) = push_bit n (drop_bit n k)"
    by (rule bit_eqI) (auto simp: bit_simps)
  then show ?thesis
    by (simp add: push_bit_eq_mult drop_bit_eq_div)
qed

lemma unat_and_not_mask:
  fixes x :: "'a::len word"
  shows "unat (x AND NOT (mask n)) = unat x div 2 ^ n * 2 ^ n"
proof -
  have "uint (x AND NOT (mask n)) = uint x AND NOT (mask n)"
    by (rule bit_eqI) (auto simp: bit_simps bit_uint_iff dest: bit_imp_le_length)
  then have "int (unat (x AND NOT (mask n))) = int (unat x div 2 ^ n * 2 ^ n)"
    by (simp add: int_and_not_mask zdiv_int)
  then show ?thesis
    by (simp only: of_nat_eq_iff)
qed

section \<open>Lists and sums\<close>

lemma set_update_except:
  assumes "x \<in> set xs" and "xs ! i \<noteq> x"
  shows "x \<in> set (xs[i := y])"
proof -
  obtain j where "j < length xs" "xs ! j = x"
    using assms(1) by (auto simp: in_set_conv_nth)
  then show ?thesis
    using assms(2) by (metis length_list_update nth_list_update_neq nth_mem)
qed

lemma sum_change:
  fixes f g :: "nat \<Rightarrow> 'a::comm_monoid_add"
  assumes "i < n" and "\<And>j. j < n \<Longrightarrow> j \<noteq> i \<Longrightarrow> f j = g j"
  shows "(\<Sum>j<n. f j) + g i = (\<Sum>j<n. g j) + f i"
proof -
  have "(\<Sum>j\<in>{..<n} - {i}. f j) = (\<Sum>j\<in>{..<n} - {i}. g j)"
    using assms(2) by (intro sum.cong) auto
  then show ?thesis
    using assms(1) by (simp add: sum.remove [of "{..<n}" i] ac_simps)
qed

end
