(* ===== verification/Rs_Utils.thy ===== *)
theory Rs_Utils
  imports Rs_Prelude
begin

text \<open>
  The arithmetic helpers of \<^verbatim>\<open>rsCppUtils.h\<close> at the type they are used at (\<open>uint32_t\<close>; the
  rounding helper at \<open>size_t\<close>, 64 bits): logarithm and power-of-two search, rounding up to an
  alignment, packing of RGB colours and the two box filters behind mipmap generation.
\<close>

definition rsMin :: "'a::linorder \<Rightarrow> 'a \<Rightarrow> 'a" where
  "rsMin in1 in2 = (if in1 > in2 then in2 else in1)"

definition rsMax :: "'a::linorder \<Rightarrow> 'a \<Rightarrow> 'a" where
  "rsMax in1 in2 = (if in1 < in2 then in2 else in1)"

text \<open>The loop \<^verbatim>\<open>while (val > 1) { bit++; val >>= 1; }\<close>.\<close>

function rsFindHighBit_loop :: "u32 \<Rightarrow> u32 \<Rightarrow> u32" where
  "rsFindHighBit_loop b val =
     (if val > 1 then rsFindHighBit_loop (b + 1) (drop_bit 1 val) else b)"
  by pat_completeness auto
termination
proof (relation "measure (\<lambda>(b, val). unat val)")
  fix b val :: u32
  assume "1 < val"
  then have "1 < unat val"
    by (simp add: word_less_nat_alt)
  then show "((b + 1, drop_bit 1 val), b, val) \<in> measure (\<lambda>(b, val). unat val)"
    by (simp add: unsigned_drop_bit_eq drop_bit_eq_div unat_div)
qed simp

declare rsFindHighBit_loop.simps [simp del]

definition rsFindHighBit :: "u32 \<Rightarrow> u32" where
  "rsFindHighBit val = rsFindHighBit_loop 0 val"

definition rsIsPow2 :: "u32 \<Rightarrow> bool" where
  "rsIsPow2 val = ((val AND (val - 1)) = 0)"

text \<open>\<^verbatim>\<open>1 << n\<close> on \<open>int\<close> is undefined once the amount reaches the width.\<close>

definition shl1 :: "u32 \<Rightarrow> u32 option" where
  "shl1 n = (if n < 32 then Some (push_bit (unat n) 1) else None)"

definition rsHigherPow2 :: "u32 \<Rightarrow> u32 option" where
  "rsHigherPow2 v = (if rsIsPow2 v then Some v else shl1 (rsFindHighBit v + 1))"

definition rsLowerPow2 :: "u32 \<Rightarrow> u32 option" where
  "rsLowerPow2 v = (if rsIsPow2 v then Some v else shl1 (rsFindHighBit v))"

text \<open>
  \<^verbatim>\<open>rsRound<size_t>(v, unsigned int r)\<close>. The complement \<^verbatim>\<open>~(r - 1)\<close> is formed at 32 bits and then
  zero-extended, so the mask keeps only the low word of the sum.
\<close>

definition rsRound :: "u64 \<Rightarrow> u32 \<Rightarrow> u64" where
  "rsRound v r =
     (if (r AND (r - 1)) \<noteq> 0 then v
      else let res = v + ucast (r - 1) in
        if res < v then v else res AND ucast (NOT (r - 1)))"

definition rs888to565 :: "u32 \<Rightarrow> u32 \<Rightarrow> u32 \<Rightarrow> u16" where
  "rs888to565 r g b =
     (let t = 0 :: u16;
          t = ucast (ucast t OR drop_bit 3 b) :: u16;
          t = ucast (ucast t OR push_bit 5 (drop_bit 2 g)) :: u16;
          t = ucast (ucast t OR push_bit 11 (drop_bit 3 r)) :: u16
      in t)"

definition rsBoxFilter565 :: "u16 \<Rightarrow> u16 \<Rightarrow> u16 \<Rightarrow> u16 \<Rightarrow> u16" where
  "rsBoxFilter565 i1 i2 i3 i4 =
     (let i1 = ucast i1 :: u32; i2 = ucast i2 :: u32; i3 = ucast i3 :: u32; i4 = ucast i4 :: u32;
          r = (i1 AND 0x1f) + (i2 AND 0x1f) + (i3 AND 0x1f) + (i4 AND 0x1f);
          g = (drop_bit 5 i1 AND 0x3f) + (drop_bit 5 i2 AND 0x3f)
            + (drop_bit 5 i3 AND 0x3f) + (drop_bit 5 i4 AND 0x3f);
          b = drop_bit 11 i1 + drop_bit 11 i2 + drop_bit 11 i3 + drop_bit 11 i4
      in ucast (drop_bit 2 r OR push_bit 5 (drop_bit 2 g) OR push_bit 11 (drop_bit 2 b)))"

definition rsBoxFilter8888 :: "u32 \<Rightarrow> u32 \<Rightarrow> u32 \<Rightarrow> u32 \<Rightarrow> u32" where
  "rsBoxFilter8888 i1 i2 i3 i4 =
     (let r = (i1 AND 0xff) + (i2 AND 0xff) + (i3 AND 0xff) + (i4 AND 0xff);
          g = (drop_bit 8 i1 AND 0xff) + (drop_bit 8 i2 AND 0xff)
            + (drop_bit 8 i3 AND 0xff) + (drop_bit 8 i4 AND 0xff);
          b = (drop_bit 16 i1 AND 0xff) + (drop_bit 16 i2 AND 0xff)
            + (drop_bit 16 i3 AND 0xff) + (drop_bit 16 i4 AND 0xff);
          a = (drop_bit 24 i1 AND 0xff) + (drop_bit 24 i2 AND 0xff)
            + (drop_bit 24 i3 AND 0xff) + (drop_bit 24 i4 AND 0xff)
      in drop_bit 2 r OR push_bit 8 (drop_bit 2 g) OR push_bit 16 (drop_bit 2 b)
           OR push_bit 24 (drop_bit 2 a))"

section \<open>Logarithm and powers of two\<close>

lemma rsMin_eq_min [simp]: "rsMin = min"
  by (intro ext) (auto simp: rsMin_def)

lemma rsMax_eq_max [simp]: "rsMax = max"
  by (intro ext) (auto simp: rsMax_def)

lemma unat_drop_bit_1: "unat (drop_bit (Suc 0) (v :: u32)) = unat v div 2"
  by (simp add: unat_div drop_bit_Suc)

text \<open>The loop adds the binary logarithm to its counter.\<close>

lemma rsFindHighBit_loop_spec:
  "v \<noteq> 0 \<Longrightarrow> \<exists>k. rsFindHighBit_loop b v = b + of_nat k \<and> 2 ^ k \<le> unat v \<and> unat v < 2 ^ Suc k"
proof (induction b v rule: rsFindHighBit_loop.induct)
  case (1 b v)
  show ?case
  proof (cases "v > 1")
    case True
    then have "1 < unat v"
      by (simp add: word_less_nat_alt)
    then have half: "drop_bit 1 v \<noteq> 0"
      by (auto simp: unat_drop_bit_1 simp flip: unat_gt_0)
    obtain k where k: "rsFindHighBit_loop (b + 1) (drop_bit 1 v) = b + 1 + of_nat k"
        "2 ^ k \<le> unat v div 2" "unat v div 2 < 2 ^ Suc k"
      using 1(1)[OF True half] by (auto simp: unat_drop_bit_1)
    have "2 ^ Suc k \<le> unat v" "unat v < 2 ^ Suc (Suc k)"
      using k(2,3) by auto
    moreover have "rsFindHighBit_loop b v = b + of_nat (Suc k)"
      using True k(1) by (simp add: rsFindHighBit_loop.simps [of b v])
    ultimately show ?thesis
      by blast
  next
    case False
    then have "v = 1"
      using 1(2) by (metis word_less_1 linorder_neqE)
    then show ?thesis
      by (intro exI [of _ 0]) (simp add: rsFindHighBit_loop.simps [of b 1])
  qed
qed

lemma rsFindHighBit_0 [simp]: "rsFindHighBit 0 = 0"
  by (simp add: rsFindHighBit_def rsFindHighBit_loop.simps)

lemma rsFindHighBit_log:
  assumes "v \<noteq> 0"
  shows "2 ^ unat (rsFindHighBit v) \<le> unat v" and "unat v < 2 ^ Suc (unat (rsFindHighBit v))"
    and "unat (rsFindHighBit v) < 32"
proof -
  obtain k where k: "rsFindHighBit v = of_nat k" "2 ^ k \<le> unat v" "unat v < 2 ^ Suc k"
    using rsFindHighBit_loop_spec [OF assms, of 0] by (auto simp: rsFindHighBit_def)
  have "(2::nat) ^ k < 2 ^ 32"
    using k(2) unsigned_less [of v, where ?'a = nat] by (simp del: unsigned_less)
  then have "k < 32"
    by (rule power_less_imp_less_exp [of 2, rotated]) simp
  then have "unat (rsFindHighBit v) = k"
    by (simp add: k(1) unat_of_nat)
  then show "2 ^ unat (rsFindHighBit v) \<le> unat v" and "unat v < 2 ^ Suc (unat (rsFindHighBit v))"
    and "unat (rsFindHighBit v) < 32"
    using k \<open>k < 32\<close> by simp_all
qed

lemma of_nat_unat_eq_self: "of_nat (unat (v :: 'a::len word)) = v"
  by simp

lemma bit_of_range:
  fixes x :: "'a::len word"
  assumes "2 ^ h \<le> unat x" and "unat x < 2 ^ Suc h"
  shows "bit x h"
proof -
  have "unat x div 2 ^ h = 1"
    using assms by (simp add: div_nat_eqI)
  then have "odd (unat x div 2 ^ h)"
    by simp
  then have "bit (unat x) h"
    by (simp add: bit_iff_odd)
  then show ?thesis
    by (simp add: bit_unsigned_iff)
qed

lemma push_bit_1_and_mask: "push_bit k 1 AND mask k = (0 :: 'a::len word)"
  by (rule bit_word_eqI) (auto simp: bit_simps simp del: push_bit_of_1)

lemma rsIsPow2_iff:
  assumes "v \<noteq> 0"
  shows "rsIsPow2 v \<longleftrightarrow> (\<exists>k < 32. unat v = 2 ^ k)"
proof
  assume p: "rsIsPow2 v"
  let ?h = "unat (rsFindHighBit v)"
  note h = rsFindHighBit_log [OF assms]
  show "\<exists>k < 32. unat v = 2 ^ k"
  proof (cases "unat v = 2 ^ ?h")
    case False
    with h have "2 ^ ?h \<le> unat v - 1" "unat v - 1 < 2 ^ Suc ?h"
      by simp_all
    moreover have "unat (v - 1) = unat v - 1"
      using assms by (simp add: unat_minus_one)
    ultimately have "bit v ?h" "bit (v - 1) ?h"
      using h by (metis bit_of_range)+
    then have "bit (v AND (v - 1)) ?h"
      by (simp add: bit_and_iff)
    with p show ?thesis
      by (simp add: rsIsPow2_def)
  qed (use h in auto)
next
  assume "\<exists>k < 32. unat v = 2 ^ k"
  then obtain k where k: "k < 32" "unat v = 2 ^ k"
    by blast
  then have v: "v = push_bit k 1"
    using of_nat_unat_eq_self [of v] by (simp add: push_bit_eq_mult)
  have "v - 1 = mask k"
    by (simp add: v mask_eq_exp_minus_1)
  then have "v AND (v - 1) = 0"
    unfolding v by (simp only: push_bit_1_and_mask)
  then show "rsIsPow2 v"
    by (simp add: rsIsPow2_def)
qed

lemma unat_2p [simp]: "k < LENGTH('a) \<Longrightarrow> unat (2 ^ k :: 'a::len word) = 2 ^ k"
  using unat_of_nat [of "2 ^ k", where ?'a = 'a] by simp

lemma shl1_value:
  assumes "unat n < 32"
  shows "\<exists>p. shl1 n = Some p \<and> unat p = 2 ^ unat n"
  using assms by (simp add: shl1_def word_less_nat_alt)

text \<open>
  \<^verbatim>\<open>rsHigherPow2\<close> is defined exactly up to \<open>2 ^ 31\<close>, and gives the least power of two that is
  not below its argument.
\<close>

lemma rsHigherPow2_least:
  assumes "v \<noteq> 0" and "unat v \<le> 2 ^ 31"
  shows "\<exists>p k. rsHigherPow2 v = Some p \<and> unat p = 2 ^ k \<and> unat v \<le> 2 ^ k \<and>
           (\<forall>j. unat v \<le> 2 ^ j \<longrightarrow> k \<le> j)"
proof (cases "rsIsPow2 v")
  case True
  then obtain k where "unat v = 2 ^ k"
    using rsIsPow2_iff [OF assms(1)] by blast
  then show ?thesis
    using True by (auto simp: rsHigherPow2_def)
next
  case False
  let ?h = "unat (rsFindHighBit v)"
  note h = rsFindHighBit_log [OF assms(1)]
  have "unat v \<noteq> 2 ^ ?h"
    using False rsIsPow2_iff [OF assms(1)] h(3) by blast
  then have gt: "2 ^ ?h < unat v"
    using h(1) by simp
  then have "(2::nat) ^ ?h < 2 ^ 31"
    using assms(2) by (rule less_le_trans)
  then have "?h < 31"
    by (rule power_less_imp_less_exp [of 2, rotated]) simp
  moreover from this have n: "unat (rsFindHighBit v + 1) = Suc ?h"
    by (simp add: unat_add_bounded)
  ultimately obtain p where p: "rsHigherPow2 v = Some p" "unat p = 2 ^ Suc ?h"
    using shl1_value [of "rsFindHighBit v + 1"] False by (auto simp: rsHigherPow2_def)
  have "Suc ?h \<le> j" if "unat v \<le> 2 ^ j" for j
  proof -
    have "(2::nat) ^ ?h < 2 ^ j"
      using gt that by (rule less_le_trans)
    then have "?h < j"
      by (rule power_less_imp_less_exp [of 2, rotated]) simp
    then show ?thesis
      by simp
  qed
  then show ?thesis
    using p h(2) by (intro exI [of _ p] exI [of _ "Suc ?h"]) simp
qed

lemma rsHigherPow2_small [simp]:
  "rsHigherPow2 0 = Some 0" "rsHigherPow2 1 = Some 1" "rsHigherPow2 2 = Some 2"
  "rsHigherPow2 3 = Some 4" "rsHigherPow2 4 = Some 4"
  by (simp_all add: rsHigherPow2_def rsIsPow2_def shl1_def rsFindHighBit_def
      rsFindHighBit_loop.simps)

lemma rsHigherPow2_ub:
  assumes v: "2 ^ 31 < unat v"
  shows "rsHigherPow2 v = None"
proof -
  have nz: "v \<noteq> 0"
    using v by auto
  note h = rsFindHighBit_log [OF nz]
  have "(2::nat) ^ 31 < 2 ^ Suc (unat (rsFindHighBit v))"
    using v h(2) by (rule less_trans)
  then have "31 < Suc (unat (rsFindHighBit v))"
    by (rule power_less_imp_less_exp [of 2, rotated]) simp
  with h(3) have "unat (rsFindHighBit v) = unat (31 :: u32)"
    by simp
  then have hb: "rsFindHighBit v = 31"
    by (simp only: word_unat_eq_iff)
  have "unat v \<noteq> 2 ^ k" if "k < 32" for k
  proof
    assume "unat v = 2 ^ k"
    with v have "(2::nat) ^ 31 < 2 ^ k"
      by (simp only:)
    then have "31 < k"
      by (rule power_less_imp_less_exp [of 2, rotated]) simp
    with that show False
      by simp
  qed
  then have "\<not> rsIsPow2 v"
    using rsIsPow2_iff [OF nz] by blast
  then show ?thesis
    by (simp add: rsHigherPow2_def shl1_def hb)
qed

section \<open>Rounding up to an alignment\<close>

lemma bit_below:
  fixes x :: "'a::len word"
  assumes "unat x < 2 ^ m" and "bit x n"
  shows "n < m"
proof (rule ccontr)
  assume "\<not> n < m"
  then have "(2::nat) ^ m \<le> 2 ^ n"
    by (intro power_increasing) simp_all
  with assms(1) have "unat x < 2 ^ n"
    by (rule less_le_trans)
  then have "\<not> bit (unat x) n"
    by (simp add: bit_iff_odd)
  with assms(2) show False
    by (simp add: bit_unsigned_iff bit_imp_le_length)
qed

lemma and_ucast_not_mask:
  fixes x :: u64
  assumes "unat x < 2 ^ 32"
  shows "x AND ucast (NOT (mask k) :: u32) = x AND NOT (mask k)"
  by (rule bit_word_eqI) (auto simp: bit_simps dest: bit_below [OF assms])

lemma unat_mask_u32: "k < 32 \<Longrightarrow> unat (mask k :: u32) = 2 ^ k - 1"
  by (subst mask_eq_exp_minus_1, subst unat_minus_one) simp_all

lemma unat_ucast_u32_u64 [simp]: "unat (ucast (x :: u32) :: u64) = unat x"
proof -
  have "unat x < 2 ^ 64"
    by (rule less_trans [OF unsigned_less]) simp
  then show ?thesis
    by (simp add: unsigned_ucast_eq take_bit_eq_mod)
qed

lemma rsRound_value:
  assumes r: "r = push_bit k 1" and k: "k < 32" and small: "unat v + 2 ^ k \<le> 2 ^ 32"
  shows "unat (rsRound v r) = (unat v + (2 ^ k - 1)) div 2 ^ k * 2 ^ k"
proof -
  have m: "r - 1 = mask k"
    by (simp add: r mask_eq_exp_minus_1)
  have p2: "r AND (r - 1) = 0"
    unfolding m unfolding r by (rule push_bit_1_and_mask)
  have uk: "unat (r - 1) = 2 ^ k - 1"
    unfolding m using k by (simp add: unat_mask_u32)
  have sum: "unat (v + ucast (r - 1)) = unat v + (2 ^ k - 1)"
    using small k by (subst unat_add_bounded) (simp_all add: uk)
  moreover have "(1::nat) \<le> 2 ^ k"
    by simp
  ultimately have "\<not> v + ucast (r - 1) < v"
    unfolding word_less_nat_alt by linarith
  then have "rsRound v r = (v + ucast (r - 1)) AND ucast (NOT (r - 1))"
    using p2 by (simp add: rsRound_def Let_def)
  also have "\<dots> = (v + ucast (r - 1)) AND NOT (mask k)"
    unfolding m by (rule and_ucast_not_mask) (use sum small in \<open>simp_all add: m\<close>)
  finally show ?thesis
    by (simp add: unat_and_not_mask sum)
qed

section \<open>Box filters\<close>

text \<open>Channel \<open>c\<close> of a packed 8888 pixel.\<close>

definition chan8888 :: "nat \<Rightarrow> u32 \<Rightarrow> u32" where
  "chan8888 c p = drop_bit (8 * c) p AND 0xff"

lemma and_ff: "(x :: u32) AND 0xff = take_bit 8 x"
  by (simp add: take_bit_eq_mask mask_eq_exp_minus_1)

lemma unat_take_bit_8: "unat (take_bit 8 (x :: u32)) < 256"
  by (simp add: take_bit_eq_mod unat_mod)

lemma quarter_sum:
  fixes a b c d :: u32
  assumes "unat a < 256" "unat b < 256" "unat c < 256" "unat d < 256"
  shows "unat (drop_bit 2 (a + b + c + d)) = (unat a + unat b + unat c + unat d) div 4"
proof -
  have "unat (a + b) = unat a + unat b"
    using assms by (simp add: unat_add_bounded)
  moreover from this have "unat (a + b + c) = unat a + unat b + unat c"
    using assms by (simp add: unat_add_bounded)
  moreover from this have "unat (a + b + c + d) = unat a + unat b + unat c + unat d"
    using assms by (simp add: unat_add_bounded)
  ultimately show ?thesis
    by (simp add: drop_bit_eq_div unat_div)
qed

lemma chan8888_pack:
  fixes r g b a :: u32
  assumes "unat r < 2 ^ 8" "unat g < 2 ^ 8" "unat b < 2 ^ 8" "unat a < 2 ^ 8"
  defines "p \<equiv> r OR push_bit 8 g OR push_bit 16 b OR push_bit 24 a"
  shows "chan8888 0 p = r" "chan8888 1 p = g" "chan8888 2 p = b" "chan8888 3 p = a"
  unfolding chan8888_def and_ff p_def
  by (rule bit_word_eqI,
      use bit_below [OF assms(1)] bit_below [OF assms(2)] bit_below [OF assms(3)]
        bit_below [OF assms(4)] in \<open>fastforce simp: bit_simps\<close>)+

lemma rsBoxFilter8888_chan:
  assumes "c < 4"
  shows "unat (chan8888 c (rsBoxFilter8888 i1 i2 i3 i4)) =
    (unat (chan8888 c i1) + unat (chan8888 c i2) + unat (chan8888 c i3) + unat (chan8888 c i4)) div 4"
proof -
  let ?q = "\<lambda>c. drop_bit 2 (chan8888 c i1 + chan8888 c i2 + chan8888 c i3 + chan8888 c i4)"
  have ch: "unat (chan8888 c x) < 256" for c x
    by (simp add: chan8888_def and_ff unat_take_bit_8)
  have q: "unat (?q c) = (unat (chan8888 c i1) + unat (chan8888 c i2) + unat (chan8888 c i3)
      + unat (chan8888 c i4)) div 4" for c
    by (rule quarter_sum) (rule ch)+
  have lt: "unat (?q c) < 2 ^ 8" for c
    using ch [of c i1] ch [of c i2] ch [of c i3] ch [of c i4] unfolding q by simp
  have eq: "rsBoxFilter8888 i1 i2 i3 i4 =
      ?q 0 OR push_bit 8 (?q 1) OR push_bit 16 (?q 2) OR push_bit 24 (?q 3)"
    by (simp add: rsBoxFilter8888_def chan8888_def Let_def or.assoc)
  from assms consider "c = 0" | "c = 1" | "c = 2" | "c = 3"
    by linarith
  then have "chan8888 c (rsBoxFilter8888 i1 i2 i3 i4) = ?q c"
    unfolding eq by cases (simp_all only: chan8888_pack [OF lt lt lt lt])
  then show ?thesis
    by (simp only: q)
qed

section \<open>Properties\<close>

text \<open>
  C38. \<open>rsHigherPow2\<close> returns the least power of two that is not below its argument, for every
  argument from 1 up to \<open>2 ^ 31\<close>; above that the shift of the source is too wide, which is
  undefined.
\<close>

theorem rsHigherPow2_correct:
  assumes "v \<noteq> 0"
  shows "(unat v \<le> 2 ^ 31 \<longrightarrow> (\<exists>p k. rsHigherPow2 v = Some p \<and> unat p = 2 ^ k \<and> unat v \<le> 2 ^ k \<and>
           (\<forall>j. unat v \<le> 2 ^ j \<longrightarrow> k \<le> j))) \<and>
         (2 ^ 31 < unat v \<longrightarrow> rsHigherPow2 v = None)"
  using rsHigherPow2_least [OF assms] rsHigherPow2_ub [of v] by blast

theorem rsHigherPow2_correct_witness:
  "(5 :: u32) \<noteq> 0 \<and> (\<exists>p k. rsHigherPow2 5 = Some p \<and> unat p = 2 ^ k \<and> (5 :: nat) \<le> 2 ^ k)"
  using rsHigherPow2_correct [of 5] by fastforce

text \<open>
  C39. \<open>rsRound\<close> with a power of two as the unit rounds up to the next multiple, as long as the
  sum stays below 4 GiB. Above that the 32-bit complement of the unit clears the upper half of a
  64-bit size: 4 GiB rounded up to a multiple of 16 gives 0.
\<close>

theorem rsRound_correct:
  "(\<forall>v r k. r = push_bit k 1 \<and> k < 32 \<and> unat v + 2 ^ k \<le> 2 ^ 32 \<longrightarrow>
     unat (rsRound v r) = (unat v + (2 ^ k - 1)) div 2 ^ k * 2 ^ k) \<and>
   rsRound (2 ^ 32) 16 = 0"
proof
  show "\<forall>v r k. r = push_bit k 1 \<and> k < 32 \<and> unat v + 2 ^ k \<le> 2 ^ 32 \<longrightarrow>
      unat (rsRound v r) = (unat v + (2 ^ k - 1)) div 2 ^ k * 2 ^ k"
    using rsRound_value by blast
  show "rsRound (2 ^ 32) 16 = 0"
    by (simp add: rsRound_def)
qed

theorem rsRound_correct_witness:
  "(16 :: u32) = push_bit 4 1 \<and> unat (rsRound 17 16) = 32"
  using conjunct1 [OF rsRound_correct, rule_format, of 16 4 17] by simp

text \<open>
  C40. The mipmap filter for 32-bit pixels averages every 8-bit channel on its own, rounding down:
  no carry leaks from one channel into another.
\<close>

theorem rsBoxFilter8888_averages:
  assumes "c < 4"
  shows "unat (chan8888 c (rsBoxFilter8888 i1 i2 i3 i4)) =
    (unat (chan8888 c i1) + unat (chan8888 c i2) + unat (chan8888 c i3) + unat (chan8888 c i4)) div 4"
  by (rule rsBoxFilter8888_chan [OF assms])

theorem rsBoxFilter8888_averages_witness:
  "(1 :: nat) < 4 \<and> unat (chan8888 1 (rsBoxFilter8888 0xff00 0xff00 0xff00 0x0300)) = 192"
  using rsBoxFilter8888_averages [of 1 "0xff00" "0xff00" "0xff00" "0x0300"] by (simp add: chan8888_def)

end
