(* ===== verification/Rs_Stream.thy ===== *)
theory Rs_Stream
  imports Rs_Utils
begin

text \<open>
  The byte streams of \<^verbatim>\<open>rsStream.h\<close> and \<^verbatim>\<open>rsStream.cpp\<close>: \<open>OStream\<close>, a growing write buffer, and
  \<open>IStream\<close>, a cursor over constant bytes. A byte of a \<open>malloc\<close>'ed buffer that nothing has
  written yet is \<open>None\<close>. Writes outside the buffer and reads past the end of the data are
  undefined in the source and make the operation return \<open>None\<close>.

  The second half states what a serialiser promises its clients as the locale
  \<open>stream_codec\<close> and interprets it for each primitive of the two classes.
\<close>

section \<open>The two stream classes\<close>

record OStream =
  oData :: "u8 option list"
  oLength :: u64
  oPos :: u64
  oUse64 :: bool

record IStream =
  iData :: "u8 list"
  iPos :: u64
  iUse64 :: bool

text \<open>An object of half the address space or more cannot be allocated.\<close>

definition malloc :: "u64 \<Rightarrow> u8 option list option" where
  "malloc n = (if unat n < 2 ^ 63 then Some (replicate (unat n) None) else None)"

definition memcpy :: "'a list \<Rightarrow> nat \<Rightarrow> 'a list \<Rightarrow> 'a list option" where
  "memcpy dst off src =
     (if off + length src \<le> length dst
      then Some (take off dst @ src @ drop (off + length src) dst) else None)"

subsection \<open>Output\<close>

definition OStream_new :: "u64 \<Rightarrow> bool \<Rightarrow> OStream option" where
  "OStream_new len use64 = do {
     d \<leftarrow> malloc len;
     Some \<lparr>oData = d, oLength = len, oPos = 0, oUse64 = use64\<rparr> }"

definition growSize :: "OStream \<Rightarrow> OStream option" where
  "growSize s = do {
     newData \<leftarrow> malloc (oLength s * 2);
     newData \<leftarrow> memcpy newData 0 (take (unat (oLength s)) (oData s));
     Some (s\<lparr>oData := newData, oLength := oLength s * 2\<rparr>) }"

text \<open>\<^verbatim>\<open>mData[mPos++] = b\<close>\<close>

definition put_byte :: "OStream \<Rightarrow> u8 \<Rightarrow> OStream option" where
  "put_byte s b =
     (if unat (oPos s) < length (oData s)
      then Some (s\<lparr>oData := (oData s)[unat (oPos s) := Some b], oPos := oPos s + 1\<rparr>)
      else None)"

definition OStream_align :: "OStream \<Rightarrow> u32 \<Rightarrow> OStream option" where
  "OStream_align s bytes =
     (let s = s\<lparr>oPos := (oPos s + ucast (bytes - 1)) AND ucast (NOT (bytes - 1))\<rparr> in
      if oPos s \<ge> oLength s then growSize s else Some s)"

definition addU32 :: "OStream \<Rightarrow> u32 \<Rightarrow> OStream option" where
  "addU32 s v = do {
     let s = s\<lparr>oPos := (oPos s + 3) AND NOT 3\<rparr>;
     s \<leftarrow> (if oPos s + 4 \<ge> oLength s then growSize s else Some s);
     s \<leftarrow> put_byte s (ucast (v AND 0xff));
     s \<leftarrow> put_byte s (ucast (drop_bit 8 v AND 0xff));
     s \<leftarrow> put_byte s (ucast (drop_bit 16 v AND 0xff));
     put_byte s (ucast (drop_bit 24 v AND 0xff)) }"

text \<open>A \<open>float\<close> is its 32-bit pattern; \<open>int32_t\<close> shifts right arithmetically.\<close>

definition addF :: "OStream \<Rightarrow> u32 \<Rightarrow> OStream option" where
  "addF s v = addU32 s v"

definition addI32 :: "OStream \<Rightarrow> u32 \<Rightarrow> OStream option" where
  "addI32 s v = do {
     let s = s\<lparr>oPos := (oPos s + 3) AND NOT 3\<rparr>;
     s \<leftarrow> (if oPos s + 4 \<ge> oLength s then growSize s else Some s);
     s \<leftarrow> put_byte s (ucast (v AND 0xff));
     s \<leftarrow> put_byte s (ucast (signed_drop_bit 8 v AND 0xff));
     s \<leftarrow> put_byte s (ucast (signed_drop_bit 16 v AND 0xff));
     put_byte s (ucast (signed_drop_bit 24 v AND 0xff)) }"

definition addU16 :: "OStream \<Rightarrow> u16 \<Rightarrow> OStream option" where
  "addU16 s v = do {
     let s = s\<lparr>oPos := (oPos s + 1) AND NOT 1\<rparr>;
     s \<leftarrow> (if oPos s + 2 \<ge> oLength s then growSize s else Some s);
     s \<leftarrow> put_byte s (ucast (v AND 0xff));
     put_byte s (ucast (drop_bit 8 v)) }"

definition addU8 :: "OStream \<Rightarrow> u8 \<Rightarrow> OStream option" where
  "addU8 s v = do {
     s \<leftarrow> (if oPos s + 1 \<ge> oLength s then growSize s else Some s);
     put_byte s v }"

text \<open>
  The loop \<^verbatim>\<open>while (mPos + numBytes >= mLength) growSize();\<close> does not end on an empty buffer,
  which doubling leaves empty; \<open>None\<close> is also the value of a loop that never returns.
\<close>

partial_function (option) grow_until :: "u64 \<Rightarrow> OStream \<Rightarrow> OStream option" where
  "grow_until numBytes s =
     (if oPos s + numBytes \<ge> oLength s
      then Option.bind (growSize s) (\<lambda>s. grow_until numBytes s)
      else Some s)"

definition addByteArray :: "OStream \<Rightarrow> u8 list \<Rightarrow> OStream option" where
  "addByteArray s src = do {
     s \<leftarrow> grow_until (of_nat (length src)) s;
     d \<leftarrow> memcpy (oData s) (unat (oPos s)) (map Some src);
     Some (s\<lparr>oData := d, oPos := oPos s + of_nat (length src)\<rparr>) }"

definition addOffset :: "OStream \<Rightarrow> u64 \<Rightarrow> OStream option" where
  "addOffset s v =
     (if oUse64 s then do {
        let s = s\<lparr>oPos := (oPos s + 7) AND NOT 7\<rparr>;
        s \<leftarrow> (if oPos s + 8 \<ge> oLength s then growSize s else Some s);
        s \<leftarrow> put_byte s (ucast (v AND 0xff));
        s \<leftarrow> put_byte s (ucast (drop_bit 8 v AND 0xff));
        s \<leftarrow> put_byte s (ucast (drop_bit 16 v AND 0xff));
        s \<leftarrow> put_byte s (ucast (drop_bit 24 v AND 0xff));
        s \<leftarrow> put_byte s (ucast (drop_bit 32 v AND 0xff));
        s \<leftarrow> put_byte s (ucast (drop_bit 40 v AND 0xff));
        s \<leftarrow> put_byte s (ucast (drop_bit 48 v AND 0xff));
        put_byte s (ucast (drop_bit 56 v AND 0xff)) }
      else addU32 s (ucast v))"

text \<open>
  A C string is the list of its bytes; \<open>strlen\<close> stops at the first zero. \<open>addString\<close> grows
  the buffer at most once before it copies.
\<close>

definition c_str :: "u8 list \<Rightarrow> u8 list" where
  "c_str s = takeWhile (\<lambda>c. c \<noteq> 0) s"

definition addString_len :: "OStream \<Rightarrow> u8 list \<Rightarrow> OStream option" where
  "addString_len s str = do {
     s \<leftarrow> addU32 s (of_nat (length str));
     s \<leftarrow> (if oPos s + of_nat (length str) \<ge> oLength s then growSize s else Some s);
     d \<leftarrow> memcpy (oData s) (unat (oPos s)) (map Some str);
     Some (s\<lparr>oData := d, oPos := oPos s + of_nat (length str)\<rparr>) }"

definition addString :: "OStream \<Rightarrow> u8 list \<Rightarrow> OStream option" where
  "addString s str = addString_len s (c_str str)"

subsection \<open>Input\<close>

definition IStream_new :: "u8 list \<Rightarrow> bool \<Rightarrow> IStream" where
  "IStream_new buf use64 = \<lparr>iData = buf, iPos = 0, iUse64 = use64\<rparr>"

definition IStream_reset :: "IStream \<Rightarrow> u64 \<Rightarrow> IStream" where
  "IStream_reset s pos = s\<lparr>iPos := pos\<rparr>"

definition peek :: "IStream \<Rightarrow> nat \<Rightarrow> u8 list option" where
  "peek s n = (if unat (iPos s) + n \<le> length (iData s)
               then Some (take n (drop (unat (iPos s)) (iData s))) else None)"

text \<open>The little-endian value of a byte list.\<close>

fun le_value :: "u8 list \<Rightarrow> 'a::len word" where
  "le_value [] = 0"
| "le_value (b # bs) = ucast b OR push_bit 8 (le_value bs)"

definition loadU32 :: "IStream \<Rightarrow> (u32 \<times> IStream) option" where
  "loadU32 s = do {
     let s = s\<lparr>iPos := (iPos s + 3) AND NOT 3\<rparr>;
     bs \<leftarrow> peek s 4;
     Some (le_value bs, s\<lparr>iPos := iPos s + 4\<rparr>) }"

definition loadF :: "IStream \<Rightarrow> (u32 \<times> IStream) option" where
  "loadF s = do {
     let s = s\<lparr>iPos := (iPos s + 3) AND NOT 3\<rparr>;
     bs \<leftarrow> peek s 4;
     Some (le_value bs, s\<lparr>iPos := iPos s + 4\<rparr>) }"

definition loadI32 :: "IStream \<Rightarrow> (u32 \<times> IStream) option" where
  "loadI32 s = do {
     let s = s\<lparr>iPos := (iPos s + 3) AND NOT 3\<rparr>;
     bs \<leftarrow> peek s 4;
     Some (le_value bs, s\<lparr>iPos := iPos s + 4\<rparr>) }"

definition loadU16 :: "IStream \<Rightarrow> (u16 \<times> IStream) option" where
  "loadU16 s = do {
     let s = s\<lparr>iPos := (iPos s + 1) AND NOT 1\<rparr>;
     bs \<leftarrow> peek s 2;
     Some (le_value bs, s\<lparr>iPos := iPos s + 2\<rparr>) }"

definition loadU8 :: "IStream \<Rightarrow> (u8 \<times> IStream) option" where
  "loadU8 s = do {
     bs \<leftarrow> peek s 1;
     Some (le_value bs, s\<lparr>iPos := iPos s + 1\<rparr>) }"

definition loadByteArray :: "IStream \<Rightarrow> u64 \<Rightarrow> (u8 list \<times> IStream) option" where
  "loadByteArray s numBytes = do {
     bs \<leftarrow> peek s (unat numBytes);
     Some (bs, s\<lparr>iPos := iPos s + numBytes\<rparr>) }"

definition loadOffset :: "IStream \<Rightarrow> (u64 \<times> IStream) option" where
  "loadOffset s =
     (if iUse64 s then do {
        let s = s\<lparr>iPos := (iPos s + 7) AND NOT 7\<rparr>;
        bs \<leftarrow> peek s 8;
        Some (le_value bs, s\<lparr>iPos := iPos s + 8\<rparr>) }
      else do {
        (v, s) \<leftarrow> loadU32 s;
        Some (ucast v, s) })"

definition loadString :: "IStream \<Rightarrow> (u8 list \<times> IStream) option" where
  "loadString s = do {
     (len, s) \<leftarrow> loadU32 s;
     str \<leftarrow> peek s (unat len);
     Some (str, s\<lparr>iPos := iPos s + ucast len\<rparr>) }"

section \<open>Buffers\<close>

definition buf_ok :: "OStream \<Rightarrow> bool" where
  "buf_ok s \<longleftrightarrow> length (oData s) = unat (oLength s) \<and> unat (oLength s) < 2 ^ 63"

definition ostream_inv :: "OStream \<Rightarrow> bool" where
  "ostream_inv s \<longleftrightarrow> buf_ok s \<and> unat (oPos s) \<le> length (oData s)"

text \<open>What a later stream state keeps of an earlier one: everything below the earlier position.\<close>

definition extends :: "OStream \<Rightarrow> OStream \<Rightarrow> bool" where
  "extends s s' \<longleftrightarrow> ostream_inv s' \<and> unat (oPos s) \<le> unat (oPos s') \<and> oUse64 s' = oUse64 s \<and>
     unat (oLength s) \<le> unat (oLength s') \<and>
     (\<forall>i < unat (oPos s). oData s' ! i = oData s ! i)"

lemma extends_refl: "ostream_inv s \<Longrightarrow> extends s s"
  by (simp add: extends_def)

lemma extends_trans: "extends s s' \<Longrightarrow> extends s' s'' \<Longrightarrow> extends s s''"
  by (simp add: extends_def)

lemma extends_inv: "extends s s' \<Longrightarrow> ostream_inv s'"
  by (simp add: extends_def)

definition overlay :: "'a list \<Rightarrow> nat \<Rightarrow> 'a list \<Rightarrow> 'a list" where
  "overlay d off src = take off d @ src @ drop (off + length src) d"

lemma length_overlay [simp]: "off + length src \<le> length d \<Longrightarrow> length (overlay d off src) = length d"
  by (simp add: overlay_def)

lemma overlay_below: "i < off \<Longrightarrow> off + length src \<le> length d \<Longrightarrow> overlay d off src ! i = d ! i"
  by (simp add: overlay_def nth_append)

lemma overlay_at: "j < length src \<Longrightarrow> off + length src \<le> length d \<Longrightarrow>
    overlay d off src ! (off + j) = src ! j"
  by (simp add: overlay_def nth_append)

lemma overlay_Nil [simp]: "overlay d off [] = d"
  by (simp add: overlay_def)

lemma overlay_Cons:
  "off + Suc (length src) \<le> length d \<Longrightarrow>
   overlay (d[off := x]) (Suc off) src = overlay d off (x # src)"
  by (simp add: overlay_def take_Suc_conv_app_nth)

lemma memcpy_eq: "memcpy dst off src = (if off + length src \<le> length dst then Some (overlay dst off src) else None)"
  by (simp add: memcpy_def overlay_def)

fun put_bytes :: "OStream \<Rightarrow> u8 list \<Rightarrow> OStream option" where
  "put_bytes s [] = Some s"
| "put_bytes s (b # bs) = Option.bind (put_byte s b) (\<lambda>s. put_bytes s bs)"

lemma put_bytes_eq:
  assumes "length (oData s) < 2 ^ 63" and "bs \<noteq> [] \<or> unat (oPos s) \<le> length (oData s)"
  shows "put_bytes s bs =
    (if unat (oPos s) + length bs \<le> length (oData s)
     then Some (s\<lparr>oData := overlay (oData s) (unat (oPos s)) (map Some bs),
                  oPos := oPos s + of_nat (length bs)\<rparr>)
     else None)"
  using assms
proof (induction bs arbitrary: s)
  case (Cons b bs)
  show ?case
  proof (cases "unat (oPos s) < length (oData s)")
    case True
    let ?s = "s\<lparr>oData := (oData s)[unat (oPos s) := Some b], oPos := oPos s + 1\<rparr>"
    have pos: "unat (oPos ?s) = Suc (unat (oPos s))"
      using True Cons.prems(1) by (simp add: unat_word_ariths)
    show ?thesis
      using True Cons.prems(1) Cons.IH [of ?s] pos
      by (simp add: put_byte_def overlay_Cons add.assoc)
  qed (simp add: put_byte_def)
qed simp

lemma growSize_Some:
  assumes "buf_ok s" and "growSize s = Some s'"
  shows "buf_ok s'" "oPos s' = oPos s" "oUse64 s' = oUse64 s"
    "unat (oLength s') = 2 * unat (oLength s)"
    "i < length (oData s) \<Longrightarrow> oData s' ! i = oData s ! i"
proof -
  have two: "unat (oLength s * 2) = 2 * unat (oLength s)"
    using assms(1) by (simp add: buf_ok_def unat_word_ariths)
  show "buf_ok s'" "oPos s' = oPos s" "oUse64 s' = oUse64 s"
    "unat (oLength s') = 2 * unat (oLength s)"
    "i < length (oData s) \<Longrightarrow> oData s' ! i = oData s ! i"
    using assms two
    by (auto simp: growSize_def malloc_def buf_ok_def memcpy_eq overlay_def nth_append
        split: if_splits)
qed

text \<open>The common shape of the aligned writers: align, make room once, write the bytes.\<close>

definition reserve :: "nat \<Rightarrow> u64 \<Rightarrow> OStream \<Rightarrow> OStream option" where
  "reserve k n s =
     (let s = s\<lparr>oPos := (oPos s + mask k) AND NOT (mask k)\<rparr> in
      if oPos s + n \<ge> oLength s then growSize s else Some s)"

definition align_up :: "nat \<Rightarrow> nat \<Rightarrow> nat" where
  "align_up k p = (p + (2 ^ k - 1)) div 2 ^ k * 2 ^ k"

lemma align_up_ge: "p \<le> align_up k p"
proof -
  let ?q = "p + (2 ^ k - 1)"
  have "?q = ?q div 2 ^ k * 2 ^ k + ?q mod 2 ^ k"
    by (rule div_mult_mod_eq [symmetric])
  moreover have "?q mod 2 ^ k \<le> 2 ^ k - 1"
    by (simp add: less_Suc_eq_le [symmetric])
  ultimately show ?thesis
    unfolding align_up_def by linarith
qed

lemma align_up_less: "align_up k p < p + 2 ^ k"
proof -
  have "align_up k p \<le> p + (2 ^ k - 1)"
    by (simp add: align_up_def)
  moreover have "(1::nat) \<le> 2 ^ k"
    by simp
  ultimately show ?thesis
    by linarith
qed

lemma align_up_0 [simp]: "align_up 0 p = p"
  by (simp add: align_up_def)

lemma unat_mask_u64: "k < 64 \<Longrightarrow> unat (mask k :: u64) = 2 ^ k - 1"
  by (subst mask_eq_exp_minus_1, subst unat_minus_one) simp_all

lemma unat_align:
  assumes "unat p \<le> 2 ^ 63" and "k \<le> 3"
  shows "unat ((p + mask k :: u64) AND NOT (mask k)) = align_up k (unat p)"
proof -
  have "(2::nat) ^ k \<le> 2 ^ 3"
    using assms(2) by (rule power_increasing) simp
  then have "unat (p + mask k) = unat p + (2 ^ k - 1)"
    using assms by (subst unat_add_bounded) (simp_all add: unat_mask_u64)
  then show ?thesis
    by (simp add: unat_and_not_mask align_up_def)
qed

lemma reserve_Some:
  assumes inv: "ostream_inv s" and k: "k \<le> 3" and r: "reserve k n s = Some s1"
  shows "buf_ok s1" "unat (oPos s1) = align_up k (unat (oPos s))" "oUse64 s1 = oUse64 s"
    "unat (oLength s) \<le> unat (oLength s1)"
    "i < unat (oPos s) \<Longrightarrow> oData s1 ! i = oData s ! i"
proof -
  let ?a = "s\<lparr>oPos := (oPos s + mask k) AND NOT (mask k)\<rparr>"
  have ok: "buf_ok ?a"
    using inv by (simp add: ostream_inv_def buf_ok_def)
  have pos: "unat (oPos ?a) = align_up k (unat (oPos s))"
    using inv k by (simp add: unat_align ostream_inv_def buf_ok_def)
  have below: "i < length (oData s)" if "i < unat (oPos s)" for i
    using that inv by (simp add: ostream_inv_def)
  show "buf_ok s1" "unat (oPos s1) = align_up k (unat (oPos s))" "oUse64 s1 = oUse64 s"
    "unat (oLength s) \<le> unat (oLength s1)"
    "i < unat (oPos s) \<Longrightarrow> oData s1 ! i = oData s ! i"
    using r ok pos growSize_Some [OF ok, of s1] below
    by (auto simp: reserve_def Let_def split: if_splits)
qed

definition aligned_write :: "nat \<Rightarrow> OStream \<Rightarrow> u8 list \<Rightarrow> OStream option" where
  "aligned_write k s bs =
     Option.bind (reserve k (of_nat (length bs)) s) (\<lambda>s. put_bytes s bs)"

lemma aligned_write_Some:
  assumes inv: "ostream_inv s" and k: "k \<le> 3" and bs: "bs \<noteq> []"
    and w: "aligned_write k s bs = Some s'"
  shows "extends s s'"
    and "unat (oPos s') = align_up k (unat (oPos s)) + length bs"
    and "j < length bs \<Longrightarrow> oData s' ! (align_up k (unat (oPos s)) + j) = Some (bs ! j)"
proof -
  obtain s1 where r: "reserve k (of_nat (length bs)) s = Some s1" and p: "put_bytes s1 bs = Some s'"
    using w by (auto simp: aligned_write_def)
  note s1 = reserve_Some [OF inv k r]
  let ?p = "align_up k (unat (oPos s))"
  have len: "length (oData s1) < 2 ^ 63" "length (oData s1) = unat (oLength s1)"
    using s1(1) by (simp_all add: buf_ok_def)
  have fits: "?p + length bs \<le> length (oData s1)"
    and s': "s' = s1\<lparr>oData := overlay (oData s1) ?p (map Some bs),
                    oPos := oPos s1 + of_nat (length bs)\<rparr>"
    using p put_bytes_eq [OF len(1), of bs] bs s1(2) by (auto split: if_splits)
  have small: "length bs < 2 ^ 63"
    using fits len(1) by linarith
  show pos: "unat (oPos s') = ?p + length bs"
    using s' s1(2) fits len small by (simp add: unat_word_ariths unat_of_nat)
  show "j < length bs \<Longrightarrow> oData s' ! (?p + j) = Some (bs ! j)"
    using s' fits by (simp add: overlay_at)
  show "extends s s'"
    unfolding extends_def ostream_inv_def
    using s' s1 fits pos len align_up_ge [of "unat (oPos s)" k]
    by (simp add: buf_ok_def overlay_below)
qed

text \<open>
  Every aligned writer succeeds on a buffer of at least 32 bytes that can still double: one
  doubling makes room for any primitive value.
\<close>

lemma growSize_succeeds:
  "buf_ok s \<Longrightarrow> unat (oLength s) < 2 ^ 62 \<Longrightarrow> \<exists>s'. growSize s = Some s'"
  by (auto simp: growSize_def malloc_def buf_ok_def memcpy_eq unat_word_ariths)

lemma aligned_write_succeeds:
  assumes inv: "ostream_inv s" and k: "k \<le> 3" and bs: "bs \<noteq> []" "length bs \<le> 8"
    and big: "32 \<le> unat (oLength s)" "unat (oLength s) < 2 ^ 62"
  shows "\<exists>s'. aligned_write k s bs = Some s'"
proof -
  let ?a = "s\<lparr>oPos := (oPos s + mask k) AND NOT (mask k)\<rparr>"
  have ok: "buf_ok ?a" "oLength ?a = oLength s"
    using inv by (simp_all add: ostream_inv_def buf_ok_def)
  have k8: "(2::nat) ^ k \<le> 2 ^ 3"
    using k by (rule power_increasing) simp
  have pos: "unat (oPos ?a) = align_up k (unat (oPos s))"
    using inv k by (simp add: unat_align ostream_inv_def buf_ok_def)
  have le: "unat (oPos ?a) < unat (oLength s) + 8"
    using align_up_less [of k "unat (oPos s)"] k8 inv pos
    by (simp add: ostream_inv_def buf_ok_def)
  have sum: "unat (oPos ?a + of_nat (length bs)) = unat (oPos ?a) + length bs"
    using le bs(2) big(2) by (simp add: unat_word_ariths unat_of_nat del: OStream.simps)
  obtain s1 where s1: "reserve k (of_nat (length bs)) s = Some s1"
    and room: "unat (oPos s1) + length bs \<le> length (oData s1)"
  proof (cases "oPos ?a + of_nat (length bs) \<ge> oLength ?a")
    case True
    obtain s1 where g: "growSize ?a = Some s1"
      using growSize_succeeds [OF ok(1)] big(2) ok(2) by auto
    note s1 = growSize_Some [OF ok(1) g]
    have "reserve k (of_nat (length bs)) s = Some s1"
      using True g by (simp add: reserve_def Let_def)
    moreover have "unat (oPos s1) + length bs \<le> length (oData s1)"
      using s1(1,4) le bs(2) big(1) by (simp add: s1(2) buf_ok_def)
    ultimately show ?thesis
      by (rule that)
  next
    case False
    then have "reserve k (of_nat (length bs)) s = Some ?a"
      by (simp add: reserve_def Let_def)
    moreover have "unat (oPos ?a) + length bs \<le> length (oData ?a)"
      using False sum ok by (simp add: word_le_nat_alt buf_ok_def)
    ultimately show ?thesis
      by (rule that)
  qed
  have "length (oData s1) < 2 ^ 63"
    using reserve_Some(1) [OF inv k s1] by (simp add: buf_ok_def)
  then show ?thesis
    using s1 room put_bytes_eq [of s1 bs] bs(1) by (auto simp: aligned_write_def)
qed

section \<open>What a serialiser promises\<close>

text \<open>
  The bytes \<open>t\<close> reads from agree with everything that has been written to \<open>s\<close>; bytes skipped
  for alignment are arbitrary.
\<close>

definition holds :: "OStream \<Rightarrow> IStream \<Rightarrow> bool" where
  "holds s t \<longleftrightarrow> iUse64 t = oUse64 s \<and> unat (oPos s) \<le> length (iData t) \<and>
     (\<forall>i < unat (oPos s). \<forall>b. oData s ! i = Some b \<longrightarrow> iData t ! i = b)"

lemma holds_extends: "extends s s' \<Longrightarrow> holds s' t \<Longrightarrow> holds s t"
  by (auto simp: holds_def extends_def)

lemma holds_pos [simp]: "holds s (t\<lparr>iPos := p\<rparr>) = holds s t"
  by (simp add: holds_def)

text \<open>Serialising a sequence: one \<open>put\<close> after another, and a counted loop of \<open>get\<close>s.\<close>

fun put_list :: "(OStream \<Rightarrow> 'a \<Rightarrow> OStream option) \<Rightarrow> OStream \<Rightarrow> 'a list \<Rightarrow> OStream option" where
  "put_list put s [] = Some s"
| "put_list put s (x # xs) = Option.bind (put s x) (\<lambda>s. put_list put s xs)"

fun get_list :: "(IStream \<Rightarrow> ('a \<times> IStream) option) \<Rightarrow> nat \<Rightarrow> IStream \<Rightarrow>
    ('a list \<times> IStream) option" where
  "get_list get 0 t = Some ([], t)"
| "get_list get (Suc n) t = do {
     (x, t) \<leftarrow> get t;
     (xs, t) \<leftarrow> get_list get n t;
     Some (x # xs, t) }"

locale stream_codec =
  fixes put :: "OStream \<Rightarrow> 'a \<Rightarrow> OStream option"
    and get :: "IStream \<Rightarrow> ('a \<times> IStream) option"
    and valid :: "'a \<Rightarrow> bool"
  assumes put_extends: "ostream_inv s \<Longrightarrow> put s v = Some s' \<Longrightarrow> extends s s'"
    and get_put: "ostream_inv s \<Longrightarrow> put s v = Some s' \<Longrightarrow> valid v \<Longrightarrow> holds s' t \<Longrightarrow>
      iPos t = oPos s \<Longrightarrow> get t = Some (v, t\<lparr>iPos := oPos s'\<rparr>)"
begin

lemma put_list_extends: "ostream_inv s \<Longrightarrow> put_list put s xs = Some s' \<Longrightarrow> extends s s'"
proof (induction xs arbitrary: s)
  case (Cons x xs)
  then obtain s1 where "put s x = Some s1" "put_list put s1 xs = Some s'"
    by auto
  then show ?case
    using Cons.IH [of s1] Cons.prems(1) by (blast intro: extends_trans put_extends extends_inv)
qed (simp add: extends_refl)

lemma get_put_list:
  "ostream_inv s \<Longrightarrow> put_list put s xs = Some s' \<Longrightarrow> list_all valid xs \<Longrightarrow> holds s' t \<Longrightarrow>
   iPos t = oPos s \<Longrightarrow> get_list get (length xs) t = Some (xs, t\<lparr>iPos := oPos s'\<rparr>)"
proof (induction xs arbitrary: s t)
  case (Cons x xs)
  then obtain s1 where p: "put s x = Some s1" and ps: "put_list put s1 xs = Some s'"
    by auto
  have e: "extends s s1"
    using Cons.prems(1) p by (rule put_extends)
  then have inv: "ostream_inv s1"
    by (rule extends_inv)
  have "get t = Some (x, t\<lparr>iPos := oPos s1\<rparr>)"
    using Cons.prems p by (intro get_put) (auto intro: holds_extends [OF put_list_extends [OF inv ps]])
  moreover have "get_list get (length xs) (t\<lparr>iPos := oPos s1\<rparr>) = Some (xs, t\<lparr>iPos := oPos s'\<rparr>)"
    using Cons.IH [OF inv ps, of "t\<lparr>iPos := oPos s1\<rparr>"] Cons.prems by simp
  ultimately show ?case
    by simp
qed simp

end

section \<open>The primitives are serialisers\<close>

definition le_bytes :: "nat \<Rightarrow> 'a::len word \<Rightarrow> u8 list" where
  "le_bytes n v = map (\<lambda>i. ucast (drop_bit (8 * i) v)) [0..<n]"

lemma length_le_bytes [simp]: "length (le_bytes n v) = n"
  by (simp add: le_bytes_def)

lemma bit_le_value:
  "bit (le_value bs :: 'a::len word) n \<longleftrightarrow>
     n < LENGTH('a) \<and> n div 8 < length bs \<and> bit (bs ! (n div 8)) (n mod 8)"
proof (induction bs arbitrary: n)
  case (Cons b bs)
  show ?case
  proof (cases "n < 8")
    case False
    then obtain m where m: "n = m + 8"
      by (metis add.commute le_Suc_ex not_less)
    moreover have "(m + 8) div 8 = Suc (m div 8)" "(m + 8) mod 8 = m mod 8"
      by simp_all
    ultimately show ?thesis
      using bit_imp_le_length [of b n] False by (auto simp: bit_simps Cons.IH)
  qed (auto simp: bit_simps)
qed simp

lemma le_value_bytes:
  assumes "LENGTH('a) \<le> 8 * n"
  shows "le_value (le_bytes n (v :: 'a::len word)) = v"
proof (rule bit_word_eqI)
  fix m assume m: "m < LENGTH('a)"
  then have "m div 8 < n"
    using assms by (simp add: div_less_iff_less_mult mult.commute)
  then show "bit (le_value (le_bytes n v) :: 'a word) m = bit v m"
    using m by (simp add: bit_le_value le_bytes_def bit_simps)
qed

lemma peek_written:
  assumes h: "holds s' t" and pos: "unat (iPos t) = p" and end': "unat (oPos s') = p + length bs"
    and wr: "\<And>j. j < length bs \<Longrightarrow> oData s' ! (p + j) = Some (bs ! j)"
  shows "peek t (length bs) = Some bs"
proof -
  have "p + length bs \<le> length (iData t)"
    using h end' by (simp add: holds_def)
  moreover have "take (length bs) (drop p (iData t)) = bs"
    using h end' wr calculation by (intro nth_equalityI) (auto simp: holds_def)
  ultimately show ?thesis
    by (simp add: peek_def pos)
qed

text \<open>A writer and a reader that agree on alignment and byte order form a codec.\<close>

definition aligned_read :: "nat \<Rightarrow> nat \<Rightarrow> IStream \<Rightarrow> ('a::len word \<times> IStream) option" where
  "aligned_read k n t = do {
     let t = t\<lparr>iPos := (iPos t + mask k) AND NOT (mask k)\<rparr>;
     bs \<leftarrow> peek t n;
     Some (le_value bs, t\<lparr>iPos := iPos t + of_nat n\<rparr>) }"

lemma aligned_codec:
  assumes "k \<le> 3" and "0 < n" and "n \<le> 8" and "LENGTH('a) \<le> 8 * n"
  shows "stream_codec (\<lambda>s (v :: 'a::len word). aligned_write k s (le_bytes n v))
           (aligned_read k n) (\<lambda>_. True)"
proof
  have ne: "le_bytes n v \<noteq> []" for v :: "'a word"
    using assms(2) by (simp add: le_bytes_def)
  fix s s' and v :: "'a word"
  assume inv: "ostream_inv s" and w: "aligned_write k s (le_bytes n v) = Some s'"
  note facts = aligned_write_Some [OF inv assms(1) ne w]
  show "extends s s'"
    by (rule facts)
  fix t
  assume h: "holds s' t" and pos: "iPos t = oPos s"
  let ?t = "t\<lparr>iPos := (iPos t + mask k) AND NOT (mask k)\<rparr>"
  have p: "unat (iPos ?t) = align_up k (unat (oPos s))"
    using inv assms(1) by (simp add: pos unat_align ostream_inv_def buf_ok_def)
  have "peek ?t n = Some (le_bytes n v)"
    using peek_written [of s' ?t _ "le_bytes n v", OF _ p] facts h by simp
  moreover have "iPos ?t + of_nat n = oPos s'"
  proof -
    have "oPos s' = of_nat (unat (oPos s'))"
      by simp
    also have "\<dots> = of_nat (unat (iPos ?t) + n)"
      by (simp only: facts(2) p length_le_bytes)
    also have "\<dots> = iPos ?t + of_nat n"
      by simp
    finally show ?thesis
      by simp
  qed
  ultimately show "aligned_read k n t = Some (v, t\<lparr>iPos := oPos s'\<rparr>)"
    using assms(4) by (simp add: aligned_read_def Let_def le_value_bytes)
qed

lemma ucast_and_ff:
  fixes x :: "'a::len word"
  assumes "8 \<le> LENGTH('a)"
  shows "ucast (x AND 0xff) = (ucast x :: u8)"
proof -
  have "x AND 0xff = take_bit 8 x"
    by (simp add: take_bit_eq_mask mask_eq_exp_minus_1)
  then show ?thesis
    by (intro bit_word_eqI) (auto simp: bit_simps)
qed

lemma upt_bytes:
  "[0..<Suc 0] = [0]" "[0..<2] = [0, 1]" "[0..<4] = [0, 1, 2, 3]"
  "[0..<8] = [0, 1, 2, 3, 4, 5, 6, 7 :: nat]"
  by (simp_all add: upt_rec)

lemma masks_u64: "mask 2 = (3 :: u64)" "mask 3 = (7 :: u64)" "mask (Suc 0) = (1 :: u64)"
  by (simp_all add: mask_eq_exp_minus_1)

lemmas writer_eqs = aligned_write_def reserve_def le_bytes_def upt_bytes ucast_and_ff masks_u64 Let_def

lemma addU32_eq: "addU32 s v = aligned_write 2 s (le_bytes 4 v)"
  by (simp add: addU32_def writer_eqs)

lemma addI32_eq: "addI32 s v = addU32 s v"
proof -
  have "ucast (signed_drop_bit n v) = (ucast (drop_bit n v) :: u8)" if "n \<le> 24" for n
    using that by (intro bit_word_eqI) (auto simp: bit_simps)
  then show ?thesis
    by (simp add: addI32_def addU32_def ucast_and_ff)
qed

lemma addU16_eq: "addU16 s v = aligned_write 1 s (le_bytes 2 v)"
  by (simp add: addU16_def writer_eqs)

lemma addU8_eq: "addU8 s v = aligned_write 0 s (le_bytes 1 v)"
  by (simp add: addU8_def writer_eqs)

lemma addOffset_eq:
  "addOffset s v = (if oUse64 s then aligned_write 3 s (le_bytes 8 v) else addU32 s (ucast v))"
  by (simp add: addOffset_def writer_eqs)

lemma loadU32_eq: "loadU32 t = aligned_read 2 4 t"
  by (simp add: loadU32_def aligned_read_def masks_u64)

lemma loadI32_eq: "loadI32 t = loadU32 t"
  by (simp add: loadI32_def loadU32_def)

lemma loadF_eq: "loadF t = loadU32 t"
  by (simp add: loadF_def loadU32_def)

lemma loadU16_eq: "loadU16 t = aligned_read 1 2 t"
  by (simp add: loadU16_def aligned_read_def masks_u64)

lemma loadU8_eq: "loadU8 t = aligned_read 0 1 t"
  by (simp add: loadU8_def aligned_read_def)

lemma loadOffset_eq:
  "loadOffset t = (if iUse64 t then aligned_read 3 8 t
     else map_option (\<lambda>(v, t). (ucast v, t)) (aligned_read 2 4 t :: (u32 \<times> IStream) option))"
  by (auto simp: loadOffset_def loadU32_eq aligned_read_def masks_u64 Let_def map_option_case
      split: option.splits bind_splits)

interpretation cU32: stream_codec addU32 loadU32 "\<lambda>_. True"
  unfolding addU32_eq [abs_def] loadU32_eq [abs_def] by (rule aligned_codec) simp_all

interpretation cI32: stream_codec addI32 loadI32 "\<lambda>_. True"
  unfolding addI32_eq [abs_def] loadI32_eq [abs_def] by (rule cU32.stream_codec_axioms)

interpretation cF: stream_codec addF loadF "\<lambda>_. True"
  unfolding addF_def [abs_def] loadF_eq [abs_def] by (rule cU32.stream_codec_axioms)

interpretation cU16: stream_codec addU16 loadU16 "\<lambda>_. True"
  unfolding addU16_eq [abs_def] loadU16_eq [abs_def] by (rule aligned_codec) simp_all

interpretation cU8: stream_codec addU8 loadU8 "\<lambda>_. True"
  unfolding addU8_eq [abs_def] loadU8_eq [abs_def] by (rule aligned_codec) simp_all

text \<open>Offsets are cut to 32 bits by a stream that was not opened for 64-bit offsets.\<close>

lemma cWide: "stream_codec (\<lambda>s (v :: u64). aligned_write 3 s (le_bytes 8 v)) (aligned_read 3 8) (\<lambda>_. True)"
  by (rule aligned_codec) simp_all

lemma ucast_ucast_small: "unat (v :: u64) < 2 ^ 32 \<Longrightarrow> ucast (ucast v :: u32) = v"
  by (rule bit_word_eqI) (auto simp: bit_simps dest: bit_below [where m = 32, simplified])

lemma addOffset_extends: "ostream_inv s \<Longrightarrow> addOffset s v = Some s' \<Longrightarrow> extends s s'"
  using stream_codec.put_extends [OF cWide] cU32.put_extends
  by (auto simp: addOffset_eq split: if_splits)

lemma loadOffset_addOffset:
  assumes "ostream_inv s" "addOffset s v = Some s'" "oUse64 s \<or> unat v < 2 ^ 32" "holds s' t"
    "iPos t = oPos s"
  shows "loadOffset t = Some (v, t\<lparr>iPos := oPos s'\<rparr>)"
proof (cases "oUse64 s")
  case True
  then have w: "aligned_write 3 s (le_bytes 8 v) = Some s'"
    using assms(2) by (simp add: addOffset_eq)
  have "iUse64 t"
    using addOffset_extends [OF assms(1,2)] assms(4) True by (simp add: extends_def holds_def)
  then show ?thesis
    using stream_codec.get_put [OF cWide assms(1) w _ assms(4,5)] by (simp add: loadOffset_eq)
next
  case False
  then have w: "addU32 s (ucast v) = Some s'"
    using assms(2) by (simp add: addOffset_eq)
  have "\<not> iUse64 t"
    using addOffset_extends [OF assms(1,2)] assms(4) False by (simp add: extends_def holds_def)
  then show ?thesis
    using cU32.get_put [OF assms(1) w _ assms(4,5)] assms(3) False
    by (simp add: loadOffset_def ucast_ucast_small)
qed

interpretation cOffset: stream_codec addOffset loadOffset "\<lambda>v. unat v < 2 ^ 32"
  by unfold_locales (auto intro: addOffset_extends loadOffset_addOffset)

subsection \<open>Strings and byte arrays\<close>

text \<open>Copying a block at the cursor, once room has been made.\<close>

lemma block_write:
  assumes ok: "buf_ok s1" and pos: "unat (oPos s1) \<le> length (oData s1)"
    and cp: "memcpy (oData s1) (unat (oPos s1)) (map Some str) = Some d"
  defines "s' \<equiv> s1\<lparr>oData := d, oPos := oPos s1 + of_nat (length str)\<rparr>"
  shows "extends s1 s'" "unat (oPos s') = unat (oPos s1) + length str"
    "j < length str \<Longrightarrow> oData s' ! (unat (oPos s1) + j) = Some (str ! j)"
proof -
  have fits: "unat (oPos s1) + length str \<le> length (oData s1)"
    and d: "d = overlay (oData s1) (unat (oPos s1)) (map Some str)"
    using cp by (auto simp: memcpy_eq split: if_splits)
  have len: "length (oData s1) = unat (oLength s1)" "unat (oLength s1) < 2 ^ 63"
    using ok by (simp_all add: buf_ok_def)
  show p: "unat (oPos s') = unat (oPos s1) + length str"
    using fits len by (simp add: s'_def unat_word_ariths unat_of_nat)
  show "j < length str \<Longrightarrow> oData s' ! (unat (oPos s1) + j) = Some (str ! j)"
    using fits by (simp add: s'_def d overlay_at)
  have "ostream_inv s'"
    unfolding ostream_inv_def p using fits len by (simp add: s'_def buf_ok_def d)
  then show "extends s1 s'"
    unfolding extends_def p using fits by (simp add: s'_def d overlay_below)
qed

lemma growSize_extends:
  assumes inv: "ostream_inv s" and g: "growSize s = Some s1"
  shows "extends s s1"
proof -
  have ok: "buf_ok s"
    using inv by (simp add: ostream_inv_def)
  note g' = growSize_Some [OF ok g]
  have len: "length (oData s1) = 2 * length (oData s)"
    using ok g'(1,4) by (simp add: buf_ok_def)
  have "i < length (oData s)" if "i < unat (oPos s)" for i
    using inv that unfolding ostream_inv_def by linarith
  then show ?thesis
    unfolding extends_def ostream_inv_def using g' len inv by (simp add: ostream_inv_def)
qed

lemma grow_step_extends:
  assumes "ostream_inv s" and "(if c then growSize s else Some s) = Some s1"
  shows "extends s s1" "oPos s1 = oPos s" "ostream_inv s1"
proof -
  show "extends s s1"
    using assms by (cases c) (simp_all add: growSize_extends extends_refl)
  then show "ostream_inv s1"
    by (rule extends_inv)
  show "oPos s1 = oPos s"
    using assms growSize_Some(2) [of s s1] by (cases c) (simp_all add: ostream_inv_def)
qed

lemma addString_len_Some:
  assumes inv: "ostream_inv s" and w: "addString_len s str = Some s'"
  shows "\<exists>s0. addU32 s (of_nat (length str)) = Some s0 \<and> extends s s0 \<and> extends s0 s' \<and>
    unat (oPos s') = unat (oPos s0) + length str \<and>
    (\<forall>j < length str. oData s' ! (unat (oPos s0) + j) = Some (str ! j))"
proof -
  obtain s0 s1 d where s0: "addU32 s (of_nat (length str)) = Some s0"
    and s1: "(if oPos s0 + of_nat (length str) \<ge> oLength s0 then growSize s0 else Some s0) = Some s1"
    and cp: "memcpy (oData s1) (unat (oPos s1)) (map Some str) = Some d"
    and s': "s' = s1\<lparr>oData := d, oPos := oPos s1 + of_nat (length str)\<rparr>"
    using w unfolding addString_len_def by (elim bind_eq_SomeE) (rule that, assumption+, simp only: option.inject)
  have e0: "extends s s0"
    by (rule cU32.put_extends [OF inv s0])
  note g = grow_step_extends [OF extends_inv [OF e0] s1]
  have ok1: "buf_ok s1" "unat (oPos s1) \<le> length (oData s1)"
    using g(3) by (simp_all add: ostream_inv_def)
  note b = block_write [OF ok1 cp, folded s']
  show ?thesis
    using s0 e0 extends_trans [OF g(1) b(1)] b(2,3) unfolding g(2) by blast
qed

lemma unat_of_nat_small: "n < 2 ^ LENGTH('a) \<Longrightarrow> unat (of_nat n :: 'a::len word) = n"
  by (simp add: unat_of_nat)

lemma c_str_id: "0 \<notin> set str \<Longrightarrow> c_str str = str"
  by (auto simp: c_str_def)

interpretation cString: stream_codec addString loadString "\<lambda>str. 0 \<notin> set str \<and> length str < 2 ^ 32"
proof
  fix s v s' assume inv: "ostream_inv s" and w: "addString s v = Some s'"
  then have w': "addString_len s (c_str v) = Some s'"
    by (simp add: addString_def)
  obtain s0 where s0: "addU32 s (of_nat (length (c_str v))) = Some s0" "extends s s0" "extends s0 s'"
    and pos: "unat (oPos s') = unat (oPos s0) + length (c_str v)"
    and wr: "\<And>j. j < length (c_str v) \<Longrightarrow> oData s' ! (unat (oPos s0) + j) = Some (c_str v ! j)"
    using addString_len_Some [OF inv w'] by auto
  show "extends s s'"
    using s0(2,3) by (rule extends_trans)
  fix t assume valid: "0 \<notin> set v \<and> length v < 2 ^ 32" and h: "holds s' t" and p: "iPos t = oPos s"
  have v: "c_str v = v" and len: "unat (of_nat (length v) :: u32) = length v"
    using valid by (simp_all add: c_str_id unat_of_nat_small)
  let ?t = "t\<lparr>iPos := oPos s0\<rparr>"
  have "loadU32 t = Some (of_nat (length v), ?t)"
    using cU32.get_put [OF inv s0(1) _ holds_extends [OF s0(3) h] p] by (simp add: v)
  moreover have "peek ?t (length v) = Some v"
    using peek_written [of s' ?t "unat (oPos s0)" v] h pos wr by (simp add: v)
  moreover have "oPos s0 + ucast (of_nat (length v) :: u32) = oPos s'"
  proof -
    have "oPos s' = of_nat (unat (oPos s'))"
      by simp
    also have "\<dots> = oPos s0 + of_nat (unat (of_nat (length v) :: u32))"
      by (simp only: pos v len of_nat_add of_nat_unat_eq_self)
    finally show ?thesis
      by (simp add: unsigned_of_nat)
  qed
  ultimately show "loadString t = Some (v, t\<lparr>iPos := oPos s'\<rparr>)"
    by (simp add: loadString_def len)
qed

text \<open>The growing loop keeps the stream, and it ends on any non-empty buffer.\<close>

lemma grow_until_Some:
  assumes "grow_until n s = Some s'" and "ostream_inv s"
  shows "extends s s' \<and> oPos s' = oPos s"
proof -
  have "ostream_inv s \<longrightarrow> extends s s' \<and> oPos s' = oPos s"
  proof (rule grow_until.raw_induct [where P = "\<lambda>n s s'. ostream_inv s \<longrightarrow> extends s s' \<and> oPos s' = oPos s",
        OF _ assms(1)])
    fix f n s s'
    assume IH: "\<And>n s s'. f n s = Some s' \<Longrightarrow> ostream_inv s \<longrightarrow> extends s s' \<and> oPos s' = oPos s"
      and eq: "(if oLength s \<le> oPos s + n then growSize s \<bind> f n else Some s) = Some s'"
    show "ostream_inv s \<longrightarrow> extends s s' \<and> oPos s' = oPos s"
    proof
      assume inv: "ostream_inv s"
      show "extends s s' \<and> oPos s' = oPos s"
      proof (cases "oLength s \<le> oPos s + n")
        case True
        then obtain s1 where g: "growSize s = Some s1" and f: "f n s1 = Some s'"
          using eq by auto
        have e: "extends s s1" "oPos s1 = oPos s"
          using growSize_extends [OF inv g] growSize_Some(2) [OF _ g] inv
          by (simp_all add: ostream_inv_def)
        then show ?thesis
          using IH [OF f] extends_inv extends_trans by metis
      next
        case False
        then show ?thesis
          using eq inv by (simp add: extends_refl)
      qed
    qed
  qed
  then show ?thesis
    using assms(2) by blast
qed

lemma grow_until_ends:
  assumes "ostream_inv s" and "0 < unat (oLength s)" and "unat (oPos s) + unat n < 2 ^ 62"
  shows "\<exists>s'. grow_until n s = Some s' \<and> unat (oPos s) + unat n < length (oData s')"
  using assms
proof (induction "unat (oPos s) + unat n + 1 - unat (oLength s)" arbitrary: s rule: less_induct)
  case less
  have sum: "unat (oPos s + n) = unat (oPos s) + unat n"
    using less.prems(3) by (intro unat_add_bounded) simp
  have ok: "buf_ok s"
    using less.prems(1) by (simp add: ostream_inv_def)
  show ?case
  proof (cases "oLength s \<le> oPos s + n")
    case True
    then have le: "unat (oLength s) \<le> unat (oPos s) + unat n"
      by (simp add: word_le_nat_alt sum)
    then obtain s1 where g: "growSize s = Some s1"
      using growSize_succeeds [OF ok] less.prems(3) by (meson le_less_trans)
    note s1 = growSize_Some [OF ok g]
    have "\<exists>s'. grow_until n s1 = Some s' \<and> unat (oPos s1) + unat n < length (oData s')"
      using le less.prems s1(2,4) extends_inv [OF growSize_extends [OF less.prems(1) g]]
      by (intro less.hyps) simp_all
    then show ?thesis
      using True g s1(2) by (simp add: grow_until.simps [of n s])
  next
    case False
    then show ?thesis
      using sum ok by (auto simp: grow_until.simps [of n s] word_le_nat_alt buf_ok_def)
  qed
qed

lemma addByteArray_Some:
  assumes inv: "ostream_inv s" and w: "addByteArray s src = Some s'"
  shows "extends s s'" "unat (oPos s') = unat (oPos s) + length src"
    "j < length src \<Longrightarrow> oData s' ! (unat (oPos s) + j) = Some (src ! j)"
proof -
  obtain s1 d where g: "grow_until (of_nat (length src)) s = Some s1"
    and cp: "memcpy (oData s1) (unat (oPos s1)) (map Some src) = Some d"
    and s': "s' = s1\<lparr>oData := d, oPos := oPos s1 + of_nat (length src)\<rparr>"
    using w unfolding addByteArray_def
    by (elim bind_eq_SomeE) (rule that, assumption+, simp only: option.inject)
  have e: "extends s s1" "oPos s1 = oPos s"
    using grow_until_Some [OF g inv] by simp_all
  have ok1: "buf_ok s1" "unat (oPos s1) \<le> length (oData s1)"
    using extends_inv [OF e(1)] by (simp_all add: ostream_inv_def)
  note b = block_write [OF ok1 cp, folded s']
  show "extends s s'"
    using e(1) b(1) by (rule extends_trans)
  show "unat (oPos s') = unat (oPos s) + length src"
    "j < length src \<Longrightarrow> oData s' ! (unat (oPos s) + j) = Some (src ! j)"
    using b(2,3) unfolding e(2) by simp_all
qed

lemma addByteArray_succeeds:
  assumes "ostream_inv s" and "0 < unat (oLength s)" and "unat (oPos s) + length src < 2 ^ 62"
  shows "\<exists>s'. addByteArray s src = Some s'"
proof -
  have n: "unat (of_nat (length src) :: u64) = length src"
    using assms(3) by (simp add: unat_of_nat_small)
  obtain s1 where g: "grow_until (of_nat (length src)) s = Some s1"
    and room: "unat (oPos s) + length src < length (oData s1)"
    using grow_until_ends [OF assms(1,2), of "of_nat (length src)"] assms(3) by (auto simp: n)
  have "oPos s1 = oPos s"
    using grow_until_Some [OF g assms(1)] by simp
  then show ?thesis
    using g room by (simp add: addByteArray_def memcpy_eq)
qed

interpretation cBytes: stream_codec addByteArray "\<lambda>t. loadByteArray t n"
  "\<lambda>bs. length bs = unat n" for n
proof
  fix s v s' assume inv: "ostream_inv s" and w: "addByteArray s v = Some s'"
  note b = addByteArray_Some [OF inv w]
  show "extends s s'"
    by (rule b)
  fix t assume len: "length v = unat n" and h: "holds s' t" and p: "iPos t = oPos s"
  have "peek t (length v) = Some v"
    using peek_written [of s' t "unat (oPos s)" v] h p b(2,3) by simp
  moreover have "oPos s + n = oPos s'"
  proof -
    have "oPos s' = of_nat (unat (oPos s'))"
      by simp
    then have "oPos s' = of_nat (unat (oPos s) + unat n)"
      by (simp only: len b(2))
    then show ?thesis
      by simp
  qed
  ultimately show "loadByteArray t n = Some (v, t\<lparr>iPos := oPos s'\<rparr>)"
    by (simp add: loadByteArray_def len p)
qed

subsection \<open>When a string fits\<close>

text \<open>
  \<open>addString\<close> doubles the buffer at most once after the length word, so a string fits whenever
  twice the buffer holds it, and overruns the buffer whenever twice the (possibly once doubled)
  buffer does not.
\<close>

lemma addU32_succeeds:
  assumes "ostream_inv s" "32 \<le> unat (oLength s)" "unat (oLength s) < 2 ^ 62"
  shows "\<exists>s'. addU32 s v = Some s'"
  unfolding addU32_eq using assms by (intro aligned_write_succeeds) (simp_all add: le_bytes_def)

lemma addU8_succeeds:
  assumes "ostream_inv s" "32 \<le> unat (oLength s)" "unat (oLength s) < 2 ^ 62"
  shows "\<exists>s'. addU8 s v = Some s'"
  unfolding addU8_eq using assms by (intro aligned_write_succeeds) (simp_all add: le_bytes_def)

lemma reserve_length:
  assumes "ostream_inv s" and "reserve k n s = Some s1"
  shows "unat (oLength s1) \<le> 2 * unat (oLength s)"
  using assms growSize_Some(4) [of "s\<lparr>oPos := (oPos s + mask k) AND NOT (mask k)\<rparr>" s1]
  by (auto simp: reserve_def Let_def ostream_inv_def buf_ok_def split: if_splits)

lemma put_byte_length: "put_byte s b = Some s' \<Longrightarrow> oLength s' = oLength s"
  by (auto simp: put_byte_def split: if_splits)

lemma put_bytes_length: "put_bytes s bs = Some s' \<Longrightarrow> oLength s' = oLength s"
  by (induction bs arbitrary: s) (auto dest: put_byte_length)

lemma aligned_write_length:
  "ostream_inv s \<Longrightarrow> aligned_write k s bs = Some s' \<Longrightarrow> unat (oLength s') \<le> 2 * unat (oLength s)"
  by (auto simp: aligned_write_def dest!: put_bytes_length reserve_length)

lemma addString_len_succeeds:
  assumes inv: "ostream_inv s" and len: "32 \<le> unat (oLength s)" "unat (oLength s) < 2 ^ 60"
    and fits: "align_up 2 (unat (oPos s)) + 4 + length str \<le> 2 * unat (oLength s)"
  shows "\<exists>s'. addString_len s str = Some s'"
proof -
  obtain s0 where s0: "addU32 s (of_nat (length str)) = Some s0"
    using addU32_succeeds [OF inv len(1)] len(2) by fastforce
  have a: "aligned_write 2 s (le_bytes 4 (of_nat (length str) :: u32)) = Some s0"
    using s0 by (simp add: addU32_eq)
  have "le_bytes 4 (of_nat (length str) :: u32) \<noteq> []"
    by (simp add: le_bytes_def)
  note w = aligned_write_Some [OF inv _ this a]
  have pos: "unat (oPos s0) = align_up 2 (unat (oPos s)) + 4"
    using w(2) by simp
  have inv0: "ostream_inv s0" and ok0: "buf_ok s0" and le: "unat (oLength s) \<le> unat (oLength s0)"
    using w(1) by (simp_all add: extends_def ostream_inv_def)
  have bound0: "unat (oLength s0) < 2 ^ 62"
    using aligned_write_length [OF inv a] len(2) by simp
  have n: "unat (of_nat (length str) :: u64) = length str"
    using fits len(2) by (intro unat_of_nat_small) simp
  have sum: "unat (oPos s0 + of_nat (length str)) = unat (oPos s0) + length str"
    using fits len(2) pos n by (subst unat_add_bounded) simp_all
  show ?thesis
  proof (cases "oLength s0 \<le> oPos s0 + of_nat (length str)")
    case True
    obtain s1 where g: "growSize s0 = Some s1"
      using growSize_succeeds [OF ok0 bound0] by blast
    note s1 = growSize_Some [OF ok0 g]
    have "unat (oPos s1) + length str \<le> length (oData s1)"
      using s1(1,2,4) le fits pos by (simp add: buf_ok_def)
    then show ?thesis
      using s0 True g by (simp add: addString_len_def memcpy_eq)
  next
    case False
    then have "unat (oPos s0) + length str \<le> length (oData s0)"
      using ok0 by (simp add: word_le_nat_alt sum buf_ok_def)
    then show ?thesis
      using s0 False by (simp add: addString_len_def memcpy_eq)
  qed
qed

lemma addString_len_length:
  assumes inv: "ostream_inv s" and w: "addString_len s str = Some s'"
  shows "unat (oLength s') \<le> 4 * unat (oLength s)"
proof -
  obtain s0 s1 d where s0: "addU32 s (of_nat (length str)) = Some s0"
    and s1: "(if oPos s0 + of_nat (length str) \<ge> oLength s0 then growSize s0 else Some s0) = Some s1"
    and cp: "memcpy (oData s1) (unat (oPos s1)) (map Some str) = Some d"
    and s': "s' = s1\<lparr>oData := d, oPos := oPos s1 + of_nat (length str)\<rparr>"
    using w unfolding addString_len_def
    by (elim bind_eq_SomeE) (rule that, assumption+, simp only: option.inject)
  have "unat (oLength s0) \<le> 2 * unat (oLength s)"
    using aligned_write_length [OF inv] s0 by (simp add: addU32_eq)
  moreover have "buf_ok s0"
    using extends_inv [OF cU32.put_extends [OF inv s0]] by (simp add: ostream_inv_def)
  then have "unat (oLength s1) \<le> 2 * unat (oLength s0)"
    using s1 growSize_Some(4) [of s0 s1] by (auto split: if_splits)
  ultimately show ?thesis
    by (simp add: s')
qed

lemma addString_len_overrun:
  assumes inv: "ostream_inv s" and big: "4 * unat (oLength s) < length str"
  shows "addString_len s str = None"
proof (rule ccontr)
  assume "addString_len s str \<noteq> None"
  then obtain s' where w: "addString_len s str = Some s'"
    by blast
  obtain s0 where e: "extends s0 s'" and pos: "unat (oPos s') = unat (oPos s0) + length str"
    using addString_len_Some [OF inv w] by blast
  have "unat (oPos s') \<le> unat (oLength s')"
    using extends_inv [OF e] by (simp add: ostream_inv_def buf_ok_def)
  with addString_len_length [OF inv w] pos big show False
    by linarith
qed

text \<open>The explicit \<open>align\<close> also masks with a zero-extended 32-bit complement.\<close>

lemma OStream_align_pos:
  assumes inv: "ostream_inv s" and k: "k < 32" and small: "unat (oPos s) + 2 ^ k \<le> 2 ^ 32"
    and a: "OStream_align s (push_bit k 1) = Some s'"
  shows "unat (oPos s') = align_up k (unat (oPos s))"
proof -
  let ?b = "push_bit k 1 :: u32"
  have m: "?b - 1 = mask k"
    by (simp add: mask_eq_exp_minus_1)
  have sum: "unat (oPos s + ucast (mask k :: u32)) = unat (oPos s) + (2 ^ k - 1)"
    using small k by (subst unat_add_bounded) (simp_all add: unat_mask_u32)
  have "unat ((oPos s + ucast (?b - 1)) AND ucast (NOT (?b - 1))) = align_up k (unat (oPos s))"
    unfolding m by (subst and_ucast_not_mask)
      (use sum small in \<open>simp_all add: unat_and_not_mask align_up_def\<close>)
  then show ?thesis
    using a inv growSize_Some(2)
      [of "s\<lparr>oPos := (oPos s + ucast (?b - 1)) AND ucast (NOT (?b - 1))\<rparr>" s']
    by (auto simp: OStream_align_def Let_def ostream_inv_def buf_ok_def split: if_splits)
qed

section \<open>Properties\<close>

text \<open>A written stream as a file, and a small stream for the examples.\<close>

definition as_file :: "OStream \<Rightarrow> u64 \<Rightarrow> IStream" where
  "as_file s p = \<lparr>iData = map (case_option 0 id) (oData s), iPos = p, iUse64 = oUse64 s\<rparr>"

definition demo_out :: OStream where
  "demo_out = \<lparr>oData = replicate 16 None, oLength = 16, oPos = 0, oUse64 = False\<rparr>"

lemma holds_as_file: "ostream_inv s \<Longrightarrow> holds s (as_file s p)"
  by (auto simp: holds_def as_file_def ostream_inv_def)

lemma as_file_pos [simp]: "iPos (as_file s p) = p"
  by (simp add: as_file_def)

lemma demo_out_inv: "ostream_inv demo_out"
  by (simp add: demo_out_def ostream_inv_def buf_ok_def)

text \<open>
  C33. Strings written one after the other with \<open>addString\<close> are read back by \<open>loadString\<close>, in
  order, by every reader whose buffer agrees with the bytes written; padding bytes do not matter.
\<close>

theorem strings_roundtrip:
  assumes "ostream_inv s" and "put_list addString s strs = Some s'"
    and "\<forall>str \<in> set strs. 0 \<notin> set str \<and> length str < 2 ^ 32" and "holds s' t" and "iPos t = oPos s"
  shows "get_list loadString (length strs) t = Some (strs, t\<lparr>iPos := oPos s'\<rparr>)"
  using assms by (intro cString.get_put_list) (simp_all add: list_all_iff)

theorem strings_roundtrip_witness:
  "\<exists>s'. put_list addString demo_out [[97]] = Some s' \<and>
     get_list loadString 1 (as_file s' 0) = Some ([[97]], (as_file s' 0)\<lparr>iPos := oPos s'\<rparr>)"
proof -
  have "put_list addString demo_out [[97]] \<noteq> None"
    by (simp add: demo_out_def addString_def c_str_def addString_len_def addU32_def put_byte_def
        memcpy_def Let_def word_le_nat_alt)
  then obtain s' where s': "put_list addString demo_out [[97]] = Some s'"
    by blast
  then have "holds s' (as_file s' 0)"
    using cString.put_list_extends [OF demo_out_inv s'] by (intro holds_as_file extends_inv)
  then show ?thesis
    using strings_roundtrip [OF demo_out_inv s', of "as_file s' 0"] s' by (simp add: demo_out_def)
qed

text \<open>
  C34. \<open>addByteArray\<close> returns: its growing loop ends on every buffer that is not empty, for up to
  \<open>2 ^ 62\<close> bytes, and what it wrote is what \<open>loadByteArray\<close> reads.
\<close>

theorem addByteArray_returns:
  assumes "ostream_inv s" and "0 < unat (oLength s)" and "unat (oPos s) + length src < 2 ^ 62"
  shows "\<exists>s'. addByteArray s src = Some s' \<and> (\<forall>t. holds s' t \<longrightarrow> iPos t = oPos s \<longrightarrow>
    loadByteArray t (of_nat (length src)) = Some (src, t\<lparr>iPos := oPos s'\<rparr>))"
proof -
  obtain s' where s': "addByteArray s src = Some s'"
    using addByteArray_succeeds [OF assms] by blast
  have "length src = unat (of_nat (length src) :: u64)"
    using assms(3) by (simp add: unat_of_nat_small)
  then show ?thesis
    using s' cBytes.get_put [OF assms(1) s', where n = "of_nat (length src)"] by blast
qed

theorem addByteArray_returns_witness:
  "\<exists>s'. addByteArray demo_out [1, 2, 3] = Some s' \<and>
     (\<forall>t. holds s' t \<longrightarrow> iPos t = 0 \<longrightarrow> loadByteArray t 3 = Some ([1, 2, 3], t\<lparr>iPos := oPos s'\<rparr>))"
  using addByteArray_returns [OF demo_out_inv, of "[1, 2, 3]"] by (simp add: demo_out_def)

text \<open>
  C35. \<open>addString\<close> grows the buffer at most twice, once for the length and once for the
  characters. A string that fits after one doubling is written; one of more than four times the
  buffer is copied past its end.
\<close>

theorem addString_grows_once:
  assumes "ostream_inv s"
  shows "(32 \<le> unat (oLength s) \<and> unat (oLength s) < 2 ^ 60 \<and>
      align_up 2 (unat (oPos s)) + 4 + length (c_str str) \<le> 2 * unat (oLength s) \<longrightarrow>
      (\<exists>s'. addString s str = Some s')) \<and>
    (4 * unat (oLength s) < length (c_str str) \<longrightarrow> addString s str = None)"
  unfolding addString_def using addString_len_succeeds [OF assms] addString_len_overrun [OF assms] by blast

theorem addString_grows_once_witness: "addString demo_out (replicate 65 97) = None"
  using addString_grows_once [OF demo_out_inv, of "replicate 65 97"]
  by (simp add: demo_out_def c_str_def)

text \<open>
  C36. Aligning the stream rounds the position up to the next multiple of a power of two while
  the position is below 4 GiB; the 32-bit mask of \<open>OStream::align\<close> sends position 4 GiB to 0.
\<close>

theorem OStream_align_rounds:
  assumes "ostream_inv s"
  shows "(\<forall>k s'. k < 32 \<and> unat (oPos s) + 2 ^ k \<le> 2 ^ 32 \<and> OStream_align s (push_bit k 1) = Some s' \<longrightarrow>
      unat (oPos s') = align_up k (unat (oPos s))) \<and>
    (oPos s = 2 ^ 32 \<longrightarrow> OStream_align s 16 = Some (s\<lparr>oPos := 0\<rparr>))"
proof
  show "\<forall>k s'. k < 32 \<and> unat (oPos s) + 2 ^ k \<le> 2 ^ 32 \<and> OStream_align s (push_bit k 1) = Some s' \<longrightarrow>
      unat (oPos s') = align_up k (unat (oPos s))"
    using OStream_align_pos [OF assms] by blast
  have "0 < unat (oLength s)" if "oPos s = 2 ^ 32"
    using assms that by (auto simp: ostream_inv_def buf_ok_def)
  then show "oPos s = 2 ^ 32 \<longrightarrow> OStream_align s 16 = Some (s\<lparr>oPos := 0\<rparr>)"
    by (auto simp: OStream_align_def Let_def word_le_nat_alt)
qed

theorem OStream_align_rounds_witness:
  "OStream_align (demo_out\<lparr>oPos := 5\<rparr>) (push_bit 2 1) = Some (demo_out\<lparr>oPos := 8\<rparr>) \<and>
   unat (oPos (demo_out\<lparr>oPos := 8\<rparr>)) = align_up 2 5"
proof -
  have "ostream_inv (demo_out\<lparr>oPos := 5\<rparr>)"
    by (simp add: demo_out_def ostream_inv_def buf_ok_def)
  moreover have "OStream_align (demo_out\<lparr>oPos := 5\<rparr>) (push_bit 2 1) = Some (demo_out\<lparr>oPos := 8\<rparr>)"
    by (simp add: OStream_align_def demo_out_def Let_def word_le_nat_alt)
  ultimately show ?thesis
    using conjunct1 [OF OStream_align_rounds, rule_format, of "demo_out\<lparr>oPos := 5\<rparr>" 2 "demo_out\<lparr>oPos := 8\<rparr>"]
    by simp
qed

end
