(* ===== verification/Rs_Component.thy ===== *)
theory Rs_Component
  imports Rs_Stream
begin

text \<open>
  The scalar cell descriptions of \<^verbatim>\<open>rsComponent.cpp\<close> and the two enumerations of \<^verbatim>\<open>rsDefines.h\<close>
  they are built from. A value cast from an integer that no enumerator names is kept as
  \<open>RS_TYPE_raw\<close> or \<open>RS_KIND_raw\<close>, as the C++ cast keeps it.
\<close>

section \<open>Enumerations\<close>

datatype RsDataType =
    RS_TYPE_NONE | RS_TYPE_FLOAT_16 | RS_TYPE_FLOAT_32 | RS_TYPE_FLOAT_64
  | RS_TYPE_SIGNED_8 | RS_TYPE_SIGNED_16 | RS_TYPE_SIGNED_32 | RS_TYPE_SIGNED_64
  | RS_TYPE_UNSIGNED_8 | RS_TYPE_UNSIGNED_16 | RS_TYPE_UNSIGNED_32 | RS_TYPE_UNSIGNED_64
  | RS_TYPE_BOOLEAN
  | RS_TYPE_UNSIGNED_5_6_5 | RS_TYPE_UNSIGNED_5_5_5_1 | RS_TYPE_UNSIGNED_4_4_4_4
  | RS_TYPE_MATRIX_4X4 | RS_TYPE_MATRIX_3X3 | RS_TYPE_MATRIX_2X2
  | RS_TYPE_ELEMENT | RS_TYPE_TYPE | RS_TYPE_ALLOCATION | RS_TYPE_SAMPLER | RS_TYPE_SCRIPT
  | RS_TYPE_MESH | RS_TYPE_PROGRAM_FRAGMENT | RS_TYPE_PROGRAM_VERTEX | RS_TYPE_PROGRAM_RASTER
  | RS_TYPE_PROGRAM_STORE | RS_TYPE_FONT
  | RS_TYPE_INVALID
  | RS_TYPE_raw u32

text \<open>The enumerators with their integer values, in the order of the header.\<close>

definition RsDataType_table :: "(RsDataType \<times> u32) list" where
  "RsDataType_table =
     [(RS_TYPE_NONE, 0), (RS_TYPE_FLOAT_16, 1), (RS_TYPE_FLOAT_32, 2), (RS_TYPE_FLOAT_64, 3),
      (RS_TYPE_SIGNED_8, 4), (RS_TYPE_SIGNED_16, 5), (RS_TYPE_SIGNED_32, 6), (RS_TYPE_SIGNED_64, 7),
      (RS_TYPE_UNSIGNED_8, 8), (RS_TYPE_UNSIGNED_16, 9), (RS_TYPE_UNSIGNED_32, 10),
      (RS_TYPE_UNSIGNED_64, 11), (RS_TYPE_BOOLEAN, 12), (RS_TYPE_UNSIGNED_5_6_5, 13),
      (RS_TYPE_UNSIGNED_5_5_5_1, 14), (RS_TYPE_UNSIGNED_4_4_4_4, 15), (RS_TYPE_MATRIX_4X4, 16),
      (RS_TYPE_MATRIX_3X3, 17), (RS_TYPE_MATRIX_2X2, 18),
      (RS_TYPE_ELEMENT, 1000), (RS_TYPE_TYPE, 1001), (RS_TYPE_ALLOCATION, 1002),
      (RS_TYPE_SAMPLER, 1003), (RS_TYPE_SCRIPT, 1004), (RS_TYPE_MESH, 1005),
      (RS_TYPE_PROGRAM_FRAGMENT, 1006), (RS_TYPE_PROGRAM_VERTEX, 1007),
      (RS_TYPE_PROGRAM_RASTER, 1008), (RS_TYPE_PROGRAM_STORE, 1009), (RS_TYPE_FONT, 1010),
      (RS_TYPE_INVALID, 10000)]"

definition dt_val :: "RsDataType \<Rightarrow> u32" where
  "dt_val t = (case t of RS_TYPE_raw n \<Rightarrow> n
     | _ \<Rightarrow> (case map_of RsDataType_table t of Some n \<Rightarrow> n | None \<Rightarrow> 0))"

text \<open>The cast \<^verbatim>\<open>(RsDataType) n\<close>.\<close>

definition dt_of :: "u32 \<Rightarrow> RsDataType" where
  "dt_of n = (case map_of (map (\<lambda>(t, v). (v, t)) RsDataType_table) n of
     Some t \<Rightarrow> t | None \<Rightarrow> RS_TYPE_raw n)"

datatype RsDataKind =
    RS_KIND_USER
  | RS_KIND_PIXEL_L | RS_KIND_PIXEL_A | RS_KIND_PIXEL_LA | RS_KIND_PIXEL_RGB | RS_KIND_PIXEL_RGBA
  | RS_KIND_PIXEL_DEPTH | RS_KIND_PIXEL_YUV
  | RS_KIND_INVALID
  | RS_KIND_raw u32

definition RsDataKind_table :: "(RsDataKind \<times> u32) list" where
  "RsDataKind_table =
     [(RS_KIND_USER, 0), (RS_KIND_PIXEL_L, 7), (RS_KIND_PIXEL_A, 8), (RS_KIND_PIXEL_LA, 9),
      (RS_KIND_PIXEL_RGB, 10), (RS_KIND_PIXEL_RGBA, 11), (RS_KIND_PIXEL_DEPTH, 12),
      (RS_KIND_PIXEL_YUV, 13), (RS_KIND_INVALID, 100)]"

definition dk_val :: "RsDataKind \<Rightarrow> u32" where
  "dk_val k = (case k of RS_KIND_raw n \<Rightarrow> n
     | _ \<Rightarrow> (case map_of RsDataKind_table k of Some n \<Rightarrow> n | None \<Rightarrow> 0))"

definition dk_of :: "u32 \<Rightarrow> RsDataKind" where
  "dk_of n = (case map_of (map (\<lambda>(k, v). (v, k)) RsDataKind_table) n of
     Some k \<Rightarrow> k | None \<Rightarrow> RS_KIND_raw n)"

section \<open>The component\<close>

record Component =
  cType :: RsDataType
  cKind :: RsDataKind
  cNormalized :: bool
  cVectorSize :: u32
  cBits :: u32
  cBitsUnpadded :: u32
  cTypeBits :: u32
  cIsFloat :: bool
  cIsSigned :: bool
  cIsPixel :: bool

text \<open>The first switch of \<open>Component::set\<close>, which only marks the pixel kinds.\<close>

definition set_kind :: "Component \<Rightarrow> Component" where
  "set_kind c = (case cKind c of
       RS_KIND_PIXEL_L \<Rightarrow> c\<lparr>cIsPixel := True\<rparr>
     | RS_KIND_PIXEL_A \<Rightarrow> c\<lparr>cIsPixel := True\<rparr>
     | RS_KIND_PIXEL_LA \<Rightarrow> c\<lparr>cIsPixel := True\<rparr>
     | RS_KIND_PIXEL_RGB \<Rightarrow> c\<lparr>cIsPixel := True\<rparr>
     | RS_KIND_PIXEL_RGBA \<Rightarrow> c\<lparr>cIsPixel := True\<rparr>
     | RS_KIND_PIXEL_YUV \<Rightarrow> c\<lparr>cIsPixel := True\<rparr>
     | _ \<Rightarrow> c)"

text \<open>The last two statements of \<open>Component::set\<close>, which the early returns skip.\<close>

definition set_bits :: "Component \<Rightarrow> Component option" where
  "set_bits c = do {
     p \<leftarrow> rsHigherPow2 (cVectorSize c);
     Some (c\<lparr>cBitsUnpadded := cTypeBits c * cVectorSize c, cBits := cTypeBits c * p\<rparr>) }"

text \<open>
  \<open>Component::set\<close> on an existing object: the early returns leave \<open>mBitsUnpadded\<close> as it was.
  The flag \<open>lp64\<close> is the \<open>__LP64__\<close> configuration of the build.
\<close>

definition Component_set ::
  "bool \<Rightarrow> Component \<Rightarrow> RsDataType \<Rightarrow> RsDataKind \<Rightarrow> bool \<Rightarrow> u32 \<Rightarrow> Component option" where
  "Component_set lp64 c dt dk norm vecSize =
     (let c = c\<lparr>cType := dt, cKind := dk, cNormalized := norm, cVectorSize := vecSize,
                cBits := 0, cTypeBits := 0, cIsFloat := False, cIsSigned := False,
                cIsPixel := False\<rparr>;
          c = set_kind c;
          obj = c\<lparr>cBits := if lp64 then 256 else 32, cTypeBits := if lp64 then 256 else 32\<rparr>
      in case dt of
        RS_TYPE_NONE \<Rightarrow> Some c
      | RS_TYPE_UNSIGNED_5_6_5 \<Rightarrow> Some (c\<lparr>cVectorSize := 3, cBits := 16, cNormalized := True\<rparr>)
      | RS_TYPE_UNSIGNED_5_5_5_1 \<Rightarrow> Some (c\<lparr>cVectorSize := 4, cBits := 16, cNormalized := True\<rparr>)
      | RS_TYPE_UNSIGNED_4_4_4_4 \<Rightarrow> Some (c\<lparr>cVectorSize := 4, cBits := 16, cNormalized := True\<rparr>)
      | RS_TYPE_MATRIX_4X4 \<Rightarrow> set_bits (c\<lparr>cTypeBits := 16 * 32\<rparr>)
      | RS_TYPE_MATRIX_3X3 \<Rightarrow> set_bits (c\<lparr>cTypeBits := 9 * 32\<rparr>)
      | RS_TYPE_MATRIX_2X2 \<Rightarrow> set_bits (c\<lparr>cTypeBits := 4 * 32\<rparr>)
      | RS_TYPE_ELEMENT \<Rightarrow> Some obj
      | RS_TYPE_TYPE \<Rightarrow> Some obj
      | RS_TYPE_ALLOCATION \<Rightarrow> Some obj
      | RS_TYPE_SAMPLER \<Rightarrow> Some obj
      | RS_TYPE_SCRIPT \<Rightarrow> Some obj
      | RS_TYPE_MESH \<Rightarrow> Some obj
      | RS_TYPE_PROGRAM_FRAGMENT \<Rightarrow> Some obj
      | RS_TYPE_PROGRAM_VERTEX \<Rightarrow> Some obj
      | RS_TYPE_PROGRAM_RASTER \<Rightarrow> Some obj
      | RS_TYPE_PROGRAM_STORE \<Rightarrow> Some obj
      | RS_TYPE_FONT \<Rightarrow> Some obj
      | RS_TYPE_FLOAT_16 \<Rightarrow> set_bits (c\<lparr>cTypeBits := 16, cIsFloat := True\<rparr>)
      | RS_TYPE_FLOAT_32 \<Rightarrow> set_bits (c\<lparr>cTypeBits := 32, cIsFloat := True\<rparr>)
      | RS_TYPE_FLOAT_64 \<Rightarrow> set_bits (c\<lparr>cTypeBits := 64, cIsFloat := True\<rparr>)
      | RS_TYPE_SIGNED_8 \<Rightarrow> set_bits (c\<lparr>cTypeBits := 8, cIsSigned := True\<rparr>)
      | RS_TYPE_SIGNED_16 \<Rightarrow> set_bits (c\<lparr>cTypeBits := 16, cIsSigned := True\<rparr>)
      | RS_TYPE_SIGNED_32 \<Rightarrow> set_bits (c\<lparr>cTypeBits := 32, cIsSigned := True\<rparr>)
      | RS_TYPE_SIGNED_64 \<Rightarrow> set_bits (c\<lparr>cTypeBits := 64, cIsSigned := True\<rparr>)
      | RS_TYPE_UNSIGNED_8 \<Rightarrow> set_bits (c\<lparr>cTypeBits := 8\<rparr>)
      | RS_TYPE_UNSIGNED_16 \<Rightarrow> set_bits (c\<lparr>cTypeBits := 16\<rparr>)
      | RS_TYPE_UNSIGNED_32 \<Rightarrow> set_bits (c\<lparr>cTypeBits := 32\<rparr>)
      | RS_TYPE_UNSIGNED_64 \<Rightarrow> set_bits (c\<lparr>cTypeBits := 64\<rparr>)
      | RS_TYPE_BOOLEAN \<Rightarrow> set_bits (c\<lparr>cTypeBits := 8\<rparr>)
      | _ \<Rightarrow> set_bits c)"

text \<open>
  The constructor sets the type \<open>NONE\<close>; \<open>junk\<close> is the indeterminate initial value of
  \<open>mBitsUnpadded\<close>, which it does not write.
\<close>

definition Component_new :: "u32 \<Rightarrow> Component" where
  "Component_new junk =
     \<lparr>cType = RS_TYPE_NONE, cKind = RS_KIND_USER, cNormalized = False, cVectorSize = 1,
      cBits = 0, cBitsUnpadded = junk, cTypeBits = 0, cIsFloat = False, cIsSigned = False,
      cIsPixel = False\<rparr>"

definition Component_isReference :: "Component \<Rightarrow> bool" where
  "Component_isReference c = (dt_val (cType c) \<ge> dt_val RS_TYPE_ELEMENT)"

definition Component_serialize :: "Component \<Rightarrow> OStream \<Rightarrow> OStream option" where
  "Component_serialize c s = do {
     s \<leftarrow> addU8 s (ucast (dt_val (cType c)));
     s \<leftarrow> addU8 s (ucast (dk_val (cKind c)));
     s \<leftarrow> addU8 s (if cNormalized c then 1 else 0);
     addU32 s (cVectorSize c) }"

definition Component_loadFromStream ::
  "bool \<Rightarrow> Component \<Rightarrow> IStream \<Rightarrow> (Component \<times> IStream) option" where
  "Component_loadFromStream lp64 c t = do {
     (ty, t) \<leftarrow> loadU8 t;
     (kd, t) \<leftarrow> loadU8 t;
     (temp, t) \<leftarrow> loadU8 t;
     (vs, t) \<leftarrow> loadU32 t;
     c \<leftarrow> Component_set lp64 c (dt_of (ucast ty)) (dk_of (ucast kd)) (temp \<noteq> 0) vs;
     Some (c, t) }"

section \<open>Enumeration values\<close>

definition dt_named :: "RsDataType \<Rightarrow> bool" where
  "dt_named t = (case t of RS_TYPE_raw _ \<Rightarrow> False | _ \<Rightarrow> True)"

definition dk_named :: "RsDataKind \<Rightarrow> bool" where
  "dk_named k = (case k of RS_KIND_raw _ \<Rightarrow> False | _ \<Rightarrow> True)"

lemmas enum_tables = dt_val_def dt_of_def RsDataType_table_def dk_val_def dk_of_def
  RsDataKind_table_def dt_named_def dk_named_def

lemma dt_of_byte:
  "dt_named t \<Longrightarrow> dt_val t < 256 \<Longrightarrow> dt_of (ucast (ucast (dt_val t) :: u8)) = t"
  by (cases t) (simp_all add: enum_tables)

lemma dk_of_byte: "dk_named k \<Longrightarrow> dk_of (ucast (ucast (dk_val k) :: u8)) = k"
  by (cases k) (simp_all add: enum_tables)

text \<open>The eleven object types have values from 1000 up, which one byte does not hold.\<close>

lemma dt_of_byte_reference:
  "dt_named t \<Longrightarrow> dt_val RS_TYPE_ELEMENT \<le> dt_val t \<Longrightarrow>
   dt_of (ucast (ucast (dt_val t) :: u8)) \<noteq> t"
  by (cases t) (simp_all add: enum_tables word_le_nat_alt)

section \<open>What \<open>set\<close> computes\<close>

lemma set_kind_eq:
  "set_kind c = c\<lparr>cIsPixel := cIsPixel c \<or> cKind c \<in> {RS_KIND_PIXEL_L, RS_KIND_PIXEL_A,
     RS_KIND_PIXEL_LA, RS_KIND_PIXEL_RGB, RS_KIND_PIXEL_RGBA, RS_KIND_PIXEL_YUV}\<rparr>"
  by (cases "cKind c") (simp_all add: set_kind_def)

text \<open>A component is well formed when it is what \<open>set\<close> makes of its own four inputs.\<close>

definition Component_ok :: "bool \<Rightarrow> Component \<Rightarrow> bool" where
  "Component_ok lp64 c \<longleftrightarrow>
     Component_set lp64 c (cType c) (cKind c) (cNormalized c) (cVectorSize c) = Some c"

lemma Component_set_ok:
  "Component_set lp64 c dt dk norm vs = Some c' \<Longrightarrow> Component_ok lp64 c'"
  by (cases dt) (auto simp: Component_ok_def Component_set_def set_kind_eq set_bits_def Let_def)

lemma Component_new_ok: "Component_ok lp64 (Component_new junk)"
  by (simp add: Component_ok_def Component_set_def Component_new_def set_kind_eq)

text \<open>The bit widths of the scalar types, as the table in the source gives them.\<close>

fun scalar_bits :: "RsDataType \<Rightarrow> nat option" where
  "scalar_bits RS_TYPE_FLOAT_16 = Some 16"
| "scalar_bits RS_TYPE_FLOAT_32 = Some 32"
| "scalar_bits RS_TYPE_FLOAT_64 = Some 64"
| "scalar_bits RS_TYPE_SIGNED_8 = Some 8"
| "scalar_bits RS_TYPE_SIGNED_16 = Some 16"
| "scalar_bits RS_TYPE_SIGNED_32 = Some 32"
| "scalar_bits RS_TYPE_SIGNED_64 = Some 64"
| "scalar_bits RS_TYPE_UNSIGNED_8 = Some 8"
| "scalar_bits RS_TYPE_UNSIGNED_16 = Some 16"
| "scalar_bits RS_TYPE_UNSIGNED_32 = Some 32"
| "scalar_bits RS_TYPE_UNSIGNED_64 = Some 64"
| "scalar_bits RS_TYPE_BOOLEAN = Some 8"
| "scalar_bits RS_TYPE_MATRIX_4X4 = Some 512"
| "scalar_bits RS_TYPE_MATRIX_3X3 = Some 288"
| "scalar_bits RS_TYPE_MATRIX_2X2 = Some 128"
| "scalar_bits _ = None"

lemma scalar_bits_le: "scalar_bits dt = Some b \<Longrightarrow> 8 \<le> b \<and> b \<le> 512 \<and> 8 dvd b"
  by (cases dt) auto

lemma Component_set_scalar:
  assumes "scalar_bits dt = Some b" and "rsHigherPow2 vs = Some p"
  shows "\<exists>c'. Component_set lp64 c dt dk norm vs = Some c' \<and> cType c' = dt \<and> cKind c' = dk \<and>
    cNormalized c' = norm \<and> cVectorSize c' = vs \<and> cTypeBits c' = of_nat b \<and>
    cBitsUnpadded c' = of_nat b * vs \<and> cBits c' = of_nat b * p"
  using assms by (cases dt) (auto simp: Component_set_def Let_def set_kind_eq set_bits_def)

lemma vec_cases:
  fixes vs :: u32
  assumes "1 \<le> vs" "vs \<le> 4"
  obtains "vs = 1" | "vs = 2" | "vs = 3" | "vs = 4"
proof -
  have "unat vs \<in> {1, 2, 3, 4}"
    using assms by (auto simp: word_le_nat_alt)
  then show thesis
    using that by (auto simp: word_unat_eq_iff)
qed

text \<open>
  For vectors of one to four lanes the padded width is the unpadded one, except that three
  lanes take the room of four.
\<close>

lemma Component_set_vector:
  assumes b: "scalar_bits dt = Some b" and vs: "1 \<le> vs" "vs \<le> 4"
  shows "\<exists>c'. Component_set lp64 c dt dk norm vs = Some c' \<and>
    unat (cBitsUnpadded c') = b * unat vs \<and>
    unat (cBits c') = b * (if vs = 3 then 4 else unat vs)"
proof -
  have small: "unat (of_nat b * n :: u32) = b * unat n" if "unat n \<le> 4" for n
  proof -
    have "b * unat n \<le> 512 * 4"
      using scalar_bits_le [OF b] that by (intro mult_le_mono) simp_all
    then show ?thesis
      using scalar_bits_le [OF b] by (simp add: unat_word_ariths unat_of_nat)
  qed
  obtain p where p: "rsHigherPow2 vs = Some p" "unat p = (if vs = 3 then 4 else unat vs)" "unat p \<le> 4"
    using vs by (rule vec_cases) simp_all
  obtain c' where "Component_set lp64 c dt dk norm vs = Some c'"
      "cBitsUnpadded c' = of_nat b * vs" "cBits c' = of_nat b * p"
    using Component_set_scalar [OF b p(1)] by blast
  then show ?thesis
    using small [of vs] small [of p] p(2,3) vs(2) by (auto simp: word_le_nat_alt)
qed

section \<open>Serialisation\<close>

text \<open>What the stream keeps of a component: its four inputs.\<close>

definition comp_storable :: "Component \<Rightarrow> bool" where
  "comp_storable c \<longleftrightarrow> dt_named (cType c) \<and> dt_val (cType c) < 256 \<and> dk_named (cKind c)"

lemma Component_serialize_extends:
  "ostream_inv s \<Longrightarrow> Component_serialize c s = Some s' \<Longrightarrow> extends s s'"
  unfolding Component_serialize_def
  by (elim bind_eq_SomeE)
    (meson cU8.put_extends cU32.put_extends extends_inv extends_trans)

lemma Component_roundtrip:
  assumes inv: "ostream_inv s" and w: "Component_serialize c s = Some s'" and st: "comp_storable c"
    and h: "holds s' t" and p: "iPos t = oPos s"
  shows "Component_loadFromStream lp64 c0 t =
    map_option (\<lambda>c'. (c', t\<lparr>iPos := oPos s'\<rparr>))
      (Component_set lp64 c0 (cType c) (cKind c) (cNormalized c) (cVectorSize c))"
proof -
  obtain s1 s2 s3 where w1: "addU8 s (ucast (dt_val (cType c))) = Some s1"
    and w2: "addU8 s1 (ucast (dk_val (cKind c))) = Some s2"
    and w3: "addU8 s2 (if cNormalized c then 1 else 0) = Some s3"
    and w4: "addU32 s3 (cVectorSize c) = Some s'"
    using w unfolding Component_serialize_def by blast
  have e1: "extends s s1"
    by (rule cU8.put_extends [OF inv w1])
  have e2: "extends s1 s2"
    by (rule cU8.put_extends [OF extends_inv [OF e1] w2])
  have e3: "extends s2 s3"
    by (rule cU8.put_extends [OF extends_inv [OF e2] w3])
  have e4: "extends s3 s'"
    by (rule cU32.put_extends [OF extends_inv [OF e3] w4])
  have h3: "holds s3 t" and h2: "holds s2 t" and h1: "holds s1 t"
    using h e2 e3 e4 by (blast intro: holds_extends)+
  have "loadU8 t = Some (ucast (dt_val (cType c)), t\<lparr>iPos := oPos s1\<rparr>)"
    using cU8.get_put [OF inv w1 _ h1 p] by simp
  moreover have "loadU8 (t\<lparr>iPos := oPos s1\<rparr>) = Some (ucast (dk_val (cKind c)), t\<lparr>iPos := oPos s2\<rparr>)"
    using cU8.get_put [OF extends_inv [OF e1] w2, of "t\<lparr>iPos := oPos s1\<rparr>"] h2 by simp
  moreover have "loadU8 (t\<lparr>iPos := oPos s2\<rparr>) = Some (if cNormalized c then 1 else 0, t\<lparr>iPos := oPos s3\<rparr>)"
    using cU8.get_put [OF extends_inv [OF e2] w3, of "t\<lparr>iPos := oPos s2\<rparr>"] h3 by simp
  moreover have "loadU32 (t\<lparr>iPos := oPos s3\<rparr>) = Some (cVectorSize c, t\<lparr>iPos := oPos s'\<rparr>)"
    using cU32.get_put [OF extends_inv [OF e3] w4, of "t\<lparr>iPos := oPos s3\<rparr>"] h by simp
  moreover have "dt_of (ucast (ucast (dt_val (cType c)) :: u8)) = cType c"
    "dk_of (ucast (ucast (dk_val (cKind c)) :: u8)) = cKind c"
    using st by (simp_all add: comp_storable_def dt_of_byte dk_of_byte)
  ultimately show ?thesis
    by (cases "Component_set lp64 c0 (cType c) (cKind c) (cNormalized c) (cVectorSize c)")
      (simp_all add: Component_loadFromStream_def split: if_splits)
qed

text \<open>A reference type is read back as the type of its low byte.\<close>

lemma Component_set_type: "Component_set lp64 c dt dk norm vs = Some c' \<Longrightarrow> cType c' = dt"
  by (cases dt) (auto simp: Component_set_def set_kind_eq set_bits_def Let_def)

lemma Component_reference_lost:
  assumes inv: "ostream_inv s" and w: "Component_serialize c s = Some s'" and h: "holds s' t"
    and p: "iPos t = oPos s" and ref: "dt_named (cType c)" "Component_isReference c"
    and ld: "Component_loadFromStream lp64 c0 t = Some (c', t')"
  shows "cType c' \<noteq> cType c"
proof -
  obtain s1 s2 s3 where w1: "addU8 s (ucast (dt_val (cType c))) = Some s1"
    and w2: "addU8 s1 (ucast (dk_val (cKind c))) = Some s2"
    and w3: "addU8 s2 (if cNormalized c then 1 else 0) = Some s3"
    and w4: "addU32 s3 (cVectorSize c) = Some s'"
    using w unfolding Component_serialize_def by blast
  have e1: "extends s s1"
    by (rule cU8.put_extends [OF inv w1])
  have e2: "extends s1 s2"
    by (rule cU8.put_extends [OF extends_inv [OF e1] w2])
  have e3: "extends s2 s3"
    by (rule cU8.put_extends [OF extends_inv [OF e2] w3])
  have e4: "extends s3 s'"
    by (rule cU32.put_extends [OF extends_inv [OF e3] w4])
  have "holds s1 t"
    using h e2 e3 e4 by (blast intro: holds_extends)
  then have "loadU8 t = Some (ucast (dt_val (cType c)), t\<lparr>iPos := oPos s1\<rparr>)"
    using cU8.get_put [OF inv w1 _ _ p] by simp
  then have "cType c' = dt_of (ucast (ucast (dt_val (cType c)) :: u8))"
    using ld by (auto simp: Component_loadFromStream_def dest: Component_set_type)
  then show ?thesis
    using dt_of_byte_reference [OF ref(1)] ref(2) by (simp add: Component_isReference_def)
qed

section \<open>Properties\<close>

text \<open>
  C37. A component of a data type below 256 survives serialization: reading the bytes back runs
  \<open>set\<close> on the same type, kind, normalization and vector size. The object types start at 1000 and
  are written as one byte, so none of them is read back as itself.
\<close>

theorem Component_serialization:
  assumes "ostream_inv s" and "Component_serialize c s = Some s'" and "holds s' t" and "iPos t = oPos s"
  shows "(comp_storable c \<longrightarrow> Component_loadFromStream lp64 c0 t =
      map_option (\<lambda>c'. (c', t\<lparr>iPos := oPos s'\<rparr>))
        (Component_set lp64 c0 (cType c) (cKind c) (cNormalized c) (cVectorSize c))) \<and>
    (dt_named (cType c) \<and> Component_isReference c \<longrightarrow>
      (\<forall>c' t'. Component_loadFromStream lp64 c0 t = Some (c', t') \<longrightarrow> cType c' \<noteq> cType c))"
  using Component_roundtrip [OF assms(1,2) _ assms(3,4)] Component_reference_lost [OF assms] by blast

theorem Component_serialization_witness:
  "\<exists>s'. Component_serialize (Component_new 0) demo_out = Some s' \<and>
    Component_loadFromStream True (Component_new 0) (as_file s' 0) =
      Some (Component_new 0, (as_file s' 0)\<lparr>iPos := oPos s'\<rparr>)"
proof -
  have "Component_serialize (Component_new 0) demo_out \<noteq> None"
    by (simp add: Component_serialize_def demo_out_def Component_new_def addU8_def addU32_def put_byte_def
        Let_def word_le_nat_alt)
  then obtain s' where s': "Component_serialize (Component_new 0) demo_out = Some s'"
    by blast
  then have "holds s' (as_file s' 0)"
    using Component_serialize_extends [OF demo_out_inv s'] by (intro holds_as_file extends_inv)
  moreover have "comp_storable (Component_new 0)"
    by (simp add: comp_storable_def Component_new_def dt_named_def dk_named_def enum_tables)
  moreover have "Component_set True (Component_new 0) RS_TYPE_NONE RS_KIND_USER False 1 = Some (Component_new 0)"
    using Component_new_ok [of True 0] by (simp add: Component_ok_def Component_new_def)
  ultimately show ?thesis
    using Component_serialization [OF demo_out_inv s', of "as_file s' 0" True "Component_new 0"] s'
    by (simp add: demo_out_def Component_new_def)
qed

end
