(* ===== verification/Rs_ObjectBase.thy ===== *)
theory Rs_ObjectBase
  imports Rs_Prelude "HOL-Library.Multiset"
begin

text \<open>
  Object lifetimes, from \<^verbatim>\<open>rsObjectBase.h\<close> and \<^verbatim>\<open>rsObjectBase.cpp\<close>: every runtime object carries two
  reference counts (one for the application, one for the system) and sits on the context's
  doubly linked list; the last reference to go deletes the object, whose destructor drops the
  references it holds and so may delete further objects.

  Objects live at addresses (natural numbers) of \<open>mObjs\<close>; reading a freed or null address is
  undefined and gives \<open>None\<close>. The two virtual functions a derived class supplies are
  parameters: \<open>refs\<close>, the references its destructor drops, in order, or \<open>None\<close> when looking for them
  reads outside its memory, and \<open>pre\<close>, its \<open>preDestroy\<close>, acting on the caches \<open>mCache\<close> of the context. Reference counts are
  integers; the 32-bit counters of the source would need \<open>2 ^ 31\<close> simultaneous references to
  differ. The global mutex makes each list update atomic and is not part of the state.
\<close>

section \<open>Objects and their list\<close>

record 'b ObjectBase =
  mName :: "u8 list option"
  mSysRefCount :: int
  mUserRefCount :: int
  mPrev :: "nat option"
  mNext :: "nat option"
  mBody :: 'b

record ('b, 'c) Context =
  mObjHead :: "nat option"
  mObjs :: "nat \<rightharpoonup> 'b ObjectBase"
  mCache :: 'c

definition upd_obj :: "('b, 'c) Context \<Rightarrow> nat \<Rightarrow> ('b ObjectBase \<Rightarrow> 'b ObjectBase) \<Rightarrow>
    ('b, 'c) Context option" where
  "upd_obj h p f = (case mObjs h p of None \<Rightarrow> None
     | Some ob \<Rightarrow> Some (h\<lparr>mObjs := (mObjs h)(p \<mapsto> f ob)\<rparr>))"

text \<open>\<open>ObjectBase::add\<close>\<close>

definition obj_add :: "('b, 'c) Context \<Rightarrow> nat \<Rightarrow> ('b, 'c) Context option" where
  "obj_add h p = do {
     h \<leftarrow> upd_obj h p (\<lambda>ob. ob\<lparr>mNext := mObjHead h\<rparr>);
     h \<leftarrow> (case mObjHead h of Some q \<Rightarrow> upd_obj h q (\<lambda>ob. ob\<lparr>mPrev := Some p\<rparr>) | None \<Rightarrow> Some h);
     Some (h\<lparr>mObjHead := Some p\<rparr>) }"

text \<open>\<open>ObjectBase::remove\<close>\<close>

definition obj_remove :: "('b, 'c) Context \<Rightarrow> nat \<Rightarrow> ('b, 'c) Context option" where
  "obj_remove h p = do {
     ob \<leftarrow> mObjs h p;
     let h = (if mObjHead h = Some p then h\<lparr>mObjHead := mNext ob\<rparr> else h);
     h \<leftarrow> (case mPrev ob of Some q \<Rightarrow> upd_obj h q (\<lambda>o'. o'\<lparr>mNext := mNext ob\<rparr>) | None \<Rightarrow> Some h);
     h \<leftarrow> (case mNext ob of Some q \<Rightarrow> upd_obj h q (\<lambda>o'. o'\<lparr>mPrev := mPrev ob\<rparr>) | None \<Rightarrow> Some h);
     upd_obj h p (\<lambda>o'. o'\<lparr>mPrev := None, mNext := None\<rparr>) }"

text \<open>The constructor, at a fresh address \<open>p\<close>.\<close>

definition ObjectBase_new :: "('b, 'c) Context \<Rightarrow> nat \<Rightarrow> 'b \<Rightarrow> ('b, 'c) Context option" where
  "ObjectBase_new h p b =
     obj_add (h\<lparr>mObjs := (mObjs h)(p \<mapsto> \<lparr>mName = None, mSysRefCount = 0, mUserRefCount = 0,
       mPrev = None, mNext = None, mBody = b\<rparr>)\<rparr>) p"

definition incUserRef :: "('b, 'c) Context \<Rightarrow> nat \<Rightarrow> ('b, 'c) Context option" where
  "incUserRef h p = upd_obj h p (\<lambda>ob. ob\<lparr>mUserRefCount := mUserRefCount ob + 1\<rparr>)"

definition incSysRef :: "('b, 'c) Context \<Rightarrow> nat \<Rightarrow> ('b, 'c) Context option" where
  "incSysRef h p = upd_obj h p (\<lambda>ob. ob\<lparr>mSysRefCount := mSysRefCount ob + 1\<rparr>)"

text \<open>Setting several reference members, one after the other.\<close>

fun incSysRefs :: "('b, 'c) Context \<Rightarrow> nat list \<Rightarrow> ('b, 'c) Context option" where
  "incSysRefs h [] = Some h"
| "incSysRefs h (p # ps) = do { h \<leftarrow> incSysRef h p; incSysRefs h ps }"

definition setName :: "('b, 'c) Context \<Rightarrow> nat \<Rightarrow> u8 list \<Rightarrow> ('b, 'c) Context option" where
  "setName h p nm = upd_obj h p (\<lambda>ob. ob\<lparr>mName := Some nm\<rparr>)"

section \<open>Dropping references\<close>

text \<open>Dropping references one after the other, with \<open>dec\<close> for \<open>decSysRef\<close>.\<close>

fun destroy_refs :: "(('b, 'c) Context \<Rightarrow> nat \<Rightarrow> (('b, 'c) Context \<times> bool) option) \<Rightarrow>
    ('b, 'c) Context \<Rightarrow> nat list \<Rightarrow> ('b, 'c) Context option" where
  "destroy_refs dec h [] = Some h"
| "destroy_refs dec h (q # qs) = do { (h, _) \<leftarrow> dec h q; destroy_refs dec h qs }"

text \<open>
  \<open>ObjectBase::checkDelete\<close>: unlink, \<open>preDestroy\<close>, run the destructor, free the memory.
\<close>

definition checkDelete_with :: "(('b, 'c) Context \<Rightarrow> nat \<Rightarrow> (('b, 'c) Context \<times> bool) option) \<Rightarrow>
    ('b \<Rightarrow> nat list option) \<Rightarrow> ('b \<Rightarrow> nat \<Rightarrow> 'c \<Rightarrow> 'c) \<Rightarrow> ('b, 'c) Context \<Rightarrow> nat option \<Rightarrow>
    (('b, 'c) Context \<times> bool) option" where
  "checkDelete_with dec refs pre h ref =
     (case ref of None \<Rightarrow> Some (h, False)
      | Some p \<Rightarrow> do {
          ob \<leftarrow> mObjs h p;
          if mUserRefCount ob \<noteq> 0 \<or> mSysRefCount ob \<noteq> 0 then Some (h, False)
          else do {
            h \<leftarrow> obj_remove h p;
            let h = h\<lparr>mCache := pre (mBody ob) p (mCache h)\<rparr>;
            qs \<leftarrow> refs (mBody ob);
            h \<leftarrow> destroy_refs dec h qs;
            Some (h\<lparr>mObjs := (mObjs h)(p := None)\<rparr>, True) } })"

text \<open>
  \<open>ObjectBase::decSysRef\<close>. The fuel bounds the depth of the cascade of destructors; one more
  than the number of live objects is enough (\<open>decSysRef_safe\<close> below).
\<close>

fun decSysRef :: "('b \<Rightarrow> nat list option) \<Rightarrow> ('b \<Rightarrow> nat \<Rightarrow> 'c \<Rightarrow> 'c) \<Rightarrow> nat \<Rightarrow> ('b, 'c) Context \<Rightarrow> nat \<Rightarrow>
    (('b, 'c) Context \<times> bool) option" where
  "decSysRef refs pre 0 h p = None"
| "decSysRef refs pre (Suc n) h p = do {
     ob \<leftarrow> mObjs h p;
     h \<leftarrow> upd_obj h p (\<lambda>ob. ob\<lparr>mSysRefCount := mSysRefCount ob - 1\<rparr>);
     if mSysRefCount ob \<le> 1 \<and> mUserRefCount ob \<le> 0
     then checkDelete_with (decSysRef refs pre n) refs pre h (Some p)
     else Some (h, False) }"

definition checkDelete :: "('b \<Rightarrow> nat list option) \<Rightarrow> ('b \<Rightarrow> nat \<Rightarrow> 'c \<Rightarrow> 'c) \<Rightarrow> nat \<Rightarrow> ('b, 'c) Context \<Rightarrow>
    nat option \<Rightarrow> (('b, 'c) Context \<times> bool) option" where
  "checkDelete refs pre n h ref = checkDelete_with (decSysRef refs pre n) refs pre h ref"

definition decUserRef :: "('b \<Rightarrow> nat list option) \<Rightarrow> ('b \<Rightarrow> nat \<Rightarrow> 'c \<Rightarrow> 'c) \<Rightarrow> nat \<Rightarrow> ('b, 'c) Context \<Rightarrow>
    nat \<Rightarrow> (('b, 'c) Context \<times> bool) option" where
  "decUserRef refs pre n h p = do {
     ob \<leftarrow> mObjs h p;
     h \<leftarrow> upd_obj h p (\<lambda>ob. ob\<lparr>mUserRefCount := mUserRefCount ob - 1\<rparr>);
     if mUserRefCount ob \<le> 1 \<and> mSysRefCount ob \<le> 0
     then checkDelete refs pre n h (Some p) else Some (h, False) }"

definition zeroUserRef :: "('b \<Rightarrow> nat list option) \<Rightarrow> ('b \<Rightarrow> nat \<Rightarrow> 'c \<Rightarrow> 'c) \<Rightarrow> nat \<Rightarrow> ('b, 'c) Context \<Rightarrow>
    nat \<Rightarrow> (('b, 'c) Context \<times> bool) option" where
  "zeroUserRef refs pre n h p = do {
     h \<leftarrow> upd_obj h p (\<lambda>ob. ob\<lparr>mUserRefCount := 0\<rparr>);
     ob \<leftarrow> mObjs h p;
     if mSysRefCount ob \<le> 0 then checkDelete refs pre n h (Some p) else Some (h, False) }"

text \<open>
  \<open>ObjectBase::zeroAllUserRef\<close>: the scan restarts from the head after every deletion. The
  first number bounds the loop iterations, the second the destructor cascades.
\<close>

fun zeroAll_loop :: "('b \<Rightarrow> nat list option) \<Rightarrow> ('b \<Rightarrow> nat \<Rightarrow> 'c \<Rightarrow> 'c) \<Rightarrow> nat \<Rightarrow> nat \<Rightarrow> ('b, 'c) Context \<Rightarrow>
    nat option \<Rightarrow> ('b, 'c) Context option" where
  "zeroAll_loop refs pre n m h None = Some h"
| "zeroAll_loop refs pre n 0 h (Some p) = None"
| "zeroAll_loop refs pre n (Suc m) h (Some p) = do {
     (h, deleted) \<leftarrow> zeroUserRef refs pre n h p;
     if deleted then zeroAll_loop refs pre n m h (mObjHead h)
     else do { ob \<leftarrow> mObjs h p; zeroAll_loop refs pre n m h (mNext ob) } }"

definition zeroAllUserRef :: "('b \<Rightarrow> nat list option) \<Rightarrow> ('b \<Rightarrow> nat \<Rightarrow> 'c \<Rightarrow> 'c) \<Rightarrow> nat \<Rightarrow> nat \<Rightarrow>
    ('b, 'c) Context \<Rightarrow> ('b, 'c) Context option" where
  "zeroAllUserRef refs pre n m h = zeroAll_loop refs pre n m h (mObjHead h)"

text \<open>\<open>ObjectBase::isValid\<close>: a walk along the list.\<close>

fun isValid_walk :: "nat \<Rightarrow> ('b, 'c) Context \<Rightarrow> nat option \<Rightarrow> nat \<Rightarrow> bool option" where
  "isValid_walk n h None obj = Some False"
| "isValid_walk 0 h (Some p) obj = None"
| "isValid_walk (Suc n) h (Some p) obj =
     (if p = obj then Some True
      else do { ob \<leftarrow> mObjs h p; isValid_walk n h (mNext ob) obj })"

definition isValid :: "nat \<Rightarrow> ('b, 'c) Context \<Rightarrow> nat \<Rightarrow> bool option" where
  "isValid n h obj = isValid_walk n h (mObjHead h) obj"

text \<open>\<open>ObjectBaseRef::set\<close> and \<open>ObjectBaseRef::clear\<close>, on a reference member holding \<open>mRef\<close>.\<close>

definition Ref_clear :: "('b \<Rightarrow> nat list option) \<Rightarrow> ('b \<Rightarrow> nat \<Rightarrow> 'c \<Rightarrow> 'c) \<Rightarrow> nat \<Rightarrow> ('b, 'c) Context \<Rightarrow>
    nat option \<Rightarrow> (('b, 'c) Context \<times> nat option) option" where
  "Ref_clear refs pre n h mRef = (case mRef of
       None \<Rightarrow> Some (h, None)
     | Some p \<Rightarrow> do { (h, _) \<leftarrow> decSysRef refs pre n h p; Some (h, None) })"

definition Ref_set :: "('b \<Rightarrow> nat list option) \<Rightarrow> ('b \<Rightarrow> nat \<Rightarrow> 'c \<Rightarrow> 'c) \<Rightarrow> nat \<Rightarrow> ('b, 'c) Context \<Rightarrow>
    nat option \<Rightarrow> nat option \<Rightarrow> (('b, 'c) Context \<times> nat option) option" where
  "Ref_set refs pre n h mRef ref =
     (if mRef \<noteq> ref then do {
        (h, _) \<leftarrow> Ref_clear refs pre n h mRef;
        h \<leftarrow> (case ref of Some p \<Rightarrow> incSysRef h p | None \<Rightarrow> Some h);
        Some (h, ref) }
      else Some (h, mRef))"

section \<open>The linked list as a list of addresses\<close>

definition lnk :: "('b, 'c) Context \<Rightarrow> nat \<rightharpoonup> nat option \<times> nat option" where
  "lnk h p = map_option (\<lambda>ob. (mPrev ob, mNext ob)) (mObjs h p)"

text \<open>Everything of an object but its links.\<close>

definition core :: "('b, 'c) Context \<Rightarrow> nat \<rightharpoonup> u8 list option \<times> int \<times> int \<times> 'b" where
  "core h p = map_option (\<lambda>ob. (mName ob, mSysRefCount ob, mUserRefCount ob, mBody ob)) (mObjs h p)"

primrec dseg :: "(nat \<rightharpoonup> nat option \<times> nat option) \<Rightarrow> nat option \<Rightarrow> nat option \<Rightarrow> nat list \<Rightarrow>
    nat option \<Rightarrow> nat option \<Rightarrow> bool" where
  "dseg L a b [] c d \<longleftrightarrow> a = c \<and> b = d"
| "dseg L a b (p # ps) c d \<longleftrightarrow> b = Some p \<and> (\<exists>n. L p = Some (a, n) \<and> dseg L (Some p) n ps c d)"

definition linked :: "('b, 'c) Context \<Rightarrow> nat list \<Rightarrow> bool" where
  "linked h xs \<longleftrightarrow> distinct xs \<and> (\<exists>l. dseg (lnk h) None (mObjHead h) xs l None)"

lemma dseg_cong: "(\<And>p. p \<in> set ps \<Longrightarrow> L' p = L p) \<Longrightarrow> dseg L' a b ps c d = dseg L a b ps c d"
  by (induction ps arbitrary: a b) auto

lemma dseg_append:
  "dseg L a b (ys @ zs) c d \<longleftrightarrow> (\<exists>m n. dseg L a b ys m n \<and> dseg L m n zs c d)"
  by (induction ys arbitrary: a b) auto

lemma dseg_last: "dseg L a b ys c d \<Longrightarrow> ys \<noteq> [] \<Longrightarrow> c = Some (last ys)"
  by (induction ys arbitrary: a b) auto

lemma dseg_in_dom: "dseg L a b ys c d \<Longrightarrow> p \<in> set ys \<Longrightarrow> p \<in> dom L"
  by (induction ys arbitrary: a b) auto

lemma dseg_set_next:
  assumes "dseg L a b ys c d" "ys \<noteq> []" "distinct ys"
  shows "dseg (L(last ys := map_option (\<lambda>(x, _). (x, e)) (L (last ys)))) a b ys c e"
  using assms
proof (induction ys arbitrary: a b)
  case (Cons y ys)
  show ?case
  proof (cases "ys = []")
    case False
    then have "last ys \<noteq> y"
      using Cons.prems(3) last_in_set by fastforce
    then show ?thesis
      using Cons False by auto
  qed (use Cons.prems in auto)
qed simp

lemma dseg_set_prev:
  assumes "dseg L a b (r # zs) c d" "r \<notin> set zs"
  shows "dseg (L(r := map_option (\<lambda>(_, y). (a', y)) (L r))) a' b (r # zs) c d"
proof -
  obtain n where n: "b = Some r" "L r = Some (a, n)" "dseg L (Some r) n zs c d"
    using assms(1) by auto
  then have "dseg (L(r \<mapsto> (a', n))) (Some r) n zs c d"
    using assms(2) by (subst dseg_cong [of _ _ L]) auto
  then show ?thesis
    using n by simp
qed

lemma upd_obj_Some: "mObjs h p = Some ob \<Longrightarrow> upd_obj h p f = Some (h\<lparr>mObjs := (mObjs h)(p \<mapsto> f ob)\<rparr>)"
  by (simp add: upd_obj_def)

lemma lnk_Some: "lnk h p = Some (a, n) \<longleftrightarrow> (\<exists>ob. mObjs h p = Some ob \<and> mPrev ob = a \<and> mNext ob = n)"
  by (auto simp: lnk_def)

text \<open>Unlinking an object removes exactly that address from the list.\<close>

lemma obj_remove_lnk:
  assumes p: "lnk h p = Some (a, n)"
    and a: "\<And>q. a = Some q \<Longrightarrow> q \<in> dom (mObjs h) \<and> q \<noteq> p"
    and n: "\<And>r. n = Some r \<Longrightarrow> r \<in> dom (mObjs h) \<and> r \<noteq> p \<and> a \<noteq> Some r"
  shows "\<exists>h'. obj_remove h p = Some h' \<and> core h' = core h \<and> mCache h' = mCache h \<and>
    mObjHead h' = (if mObjHead h = Some p then n else mObjHead h) \<and>
    lnk h' = (let L = lnk h;
                  L = (case a of Some q \<Rightarrow> L(q := map_option (\<lambda>(x, _). (x, n)) (L q)) | None \<Rightarrow> L);
                  L = (case n of Some r \<Rightarrow> L(r := map_option (\<lambda>(_, y). (a, y)) (L r)) | None \<Rightarrow> L)
              in L(p \<mapsto> (None, None)))"
proof -
  obtain ob where ob: "mObjs h p = Some ob" "mPrev ob = a" "mNext ob = n"
    using p by (auto simp: lnk_Some)
  show ?thesis
  proof (cases a; cases n)
    fix q r assume "a = Some q" "n = Some r"
    then show ?thesis
      using ob a [of q] n [of r]
      by (auto simp: obj_remove_def upd_obj_def lnk_def core_def Let_def fun_eq_iff
          split: option.splits)
  next
    fix q assume "a = Some q" "n = None"
    then show ?thesis
      using ob a [of q]
      by (auto simp: obj_remove_def upd_obj_def lnk_def core_def Let_def fun_eq_iff)
  next
    fix r assume "a = None" "n = Some r"
    then show ?thesis
      using ob n [of r]
      by (auto simp: obj_remove_def upd_obj_def lnk_def core_def Let_def fun_eq_iff)
  next
    assume "a = None" "n = None"
    then show ?thesis
      using ob by (auto simp: obj_remove_def upd_obj_def lnk_def core_def Let_def fun_eq_iff)
  qed
qed

lemma dom_lnk [simp]: "dom (lnk h) = dom (mObjs h)"
  by (auto simp: lnk_def dom_def)

lemma obj_eqI: "core h' q = core h q \<Longrightarrow> lnk h' q = lnk h q \<Longrightarrow> mObjs h' q = mObjs h q"
  by (cases "mObjs h q"; cases "mObjs h' q") (auto simp: core_def lnk_def)

lemma obj_remove_linked:
  assumes lk: "linked h (ys @ p # zs)"
  shows "\<exists>h'. obj_remove h p = Some h' \<and> linked h' (ys @ zs) \<and> core h' = core h \<and>
    mCache h' = mCache h \<and> (\<forall>q. q \<notin> set (ys @ p # zs) \<longrightarrow> mObjs h' q = mObjs h q)"
proof -
  let ?L = "lnk h"
  obtain l m n where dy: "dseg ?L None (mObjHead h) ys m (Some p)" and Lp: "?L p = Some (m, n)"
    and dz: "dseg ?L (Some p) n zs l None"
    using lk by (auto simp: linked_def dseg_append)
  have dist: "distinct (ys @ p # zs)"
    using lk by (simp add: linked_def)
  have m: "m = (if ys = [] then None else Some (last ys))"
    using dy dseg_last [OF dy] by auto
  have n: "n = (if zs = [] then None else Some (hd zs))"
    using dz by (cases zs) auto
  have hd: "mObjHead h = Some (if ys = [] then p else hd ys)"
    using dy by (cases ys) auto
  have dom: "x \<in> dom (mObjs h)" if "x \<in> set ys \<or> x \<in> set zs" for x
    using that dseg_in_dom [OF dy] dseg_in_dom [OF dz] by auto
  let ?L1 = "case m of Some q \<Rightarrow> ?L(q := map_option (\<lambda>(x, _). (x, n)) (?L q)) | None \<Rightarrow> ?L"
  let ?L2 = "case n of Some r \<Rightarrow> ?L1(r := map_option (\<lambda>(_, y). (m, y)) (?L1 r)) | None \<Rightarrow> ?L1"
  have mq: "q \<in> dom (mObjs h) \<and> q \<noteq> p" if "m = Some q" for q
    using that m dom [of q] dist last_in_set [of ys] by (auto split: if_splits)
  have hz: "hd zs \<notin> set ys" if "zs \<noteq> []"
    using dist list.set_sel(1) [OF that] by fastforce
  have ly: "last ys \<notin> set zs" if "ys \<noteq> []"
    using dist last_in_set [OF that] by fastforce
  have nr: "r \<in> dom (mObjs h) \<and> r \<noteq> p \<and> m \<noteq> Some r" if "n = Some r" for r
    using that n m dom [of r] dist ly hd_in_set [of zs] by (auto split: if_splits)
  obtain h' where h': "obj_remove h p = Some h'" "core h' = core h" "mCache h' = mCache h"
    "mObjHead h' = (if mObjHead h = Some p then n else mObjHead h)" "lnk h' = ?L2(p \<mapsto> (None, None))"
    using obj_remove_lnk [OF Lp mq nr] unfolding Let_def by blast
  have "dseg (lnk h') None (mObjHead h') ys m n"
  proof (cases "ys = []")
    case False
    have "dseg (?L(last ys := map_option (\<lambda>(x, _). (x, n)) (?L (last ys)))) None (mObjHead h) ys m n"
      using dy False dist by (intro dseg_set_next) auto
    moreover have "hd ys \<noteq> p"
      using False dist by auto
    ultimately show ?thesis
      using False dist n m hd hz unfolding h'(4,5)
      by (subst dseg_cong [of _ _ "?L(last ys := map_option (\<lambda>(x, _). (x, n)) (?L (last ys)))"])
        (auto split: option.splits)
  qed (use h'(4) hd m in simp)
  moreover have "\<exists>l. dseg (lnk h') m n zs l None"
  proof (cases zs)
    case (Cons r zs')
    have "dseg (?L(r := map_option (\<lambda>(_, y). (m, y)) (?L r))) m n zs l None"
      using dz dist Cons dseg_set_prev [of ?L "Some p" n r zs' l None m] by simp
    moreover have "?L1 r = ?L r"
      using Cons m ly by (auto split: option.splits)
    ultimately show ?thesis
      using Cons dist n m ly unfolding h'(5)
      by (subst dseg_cong [of _ _ "?L(r := map_option (\<lambda>(_, y). (m, y)) (?L r))"])
        (auto split: option.splits if_splits)
  qed (use n in simp)
  ultimately have "linked h' (ys @ zs)"
    using dist by (auto simp: linked_def dseg_append)
  moreover have "mObjs h' q = mObjs h q" if "q \<notin> set (ys @ p # zs)" for q
  proof (rule obj_eqI)
    show "core h' q = core h q"
      by (simp add: h'(2))
    have "m \<noteq> Some q" "n \<noteq> Some q" "q \<noteq> p"
      using that m n by (auto split: if_splits)
    then show "lnk h' q = lnk h q"
      unfolding h'(5) by (simp split: option.split)
  qed
  ultimately show ?thesis
    using h' by blast
qed

text \<open>A new object goes to the front of the list.\<close>

lemma ObjectBase_new_linked:
  assumes lk: "linked h xs" and fresh: "p \<notin> dom (mObjs h)"
  shows "\<exists>h'. ObjectBase_new h p b = Some h' \<and> linked h' (p # xs) \<and>
    core h' = (core h)(p \<mapsto> (None, 0, 0, b)) \<and> mCache h' = mCache h"
proof -
  obtain l where d: "dseg (lnk h) None (mObjHead h) xs l None" and dist: "distinct xs"
    using lk by (auto simp: linked_def)
  have px: "p \<notin> set xs"
    using dseg_in_dom [OF d] fresh by auto
  show ?thesis
  proof (cases xs)
    case Nil
    then show ?thesis
      using d by (auto simp: ObjectBase_new_def obj_add_def upd_obj_def linked_def lnk_def core_def
          fun_eq_iff)
  next
    case (Cons r rs)
    then obtain n ob where r: "mObjHead h = Some r" "mObjs h r = Some ob" "mNext ob = n"
        "dseg (lnk h) (Some r) n rs l None"
      using d by (auto simp: lnk_Some)
    have rp: "r \<noteq> p"
      using px Cons by auto
    let ?h' = "h\<lparr>mObjHead := Some p, mObjs := (mObjs h)(p \<mapsto> \<lparr>mName = None, mSysRefCount = 0,
        mUserRefCount = 0, mPrev = None, mNext = Some r, mBody = b\<rparr>, r \<mapsto> ob\<lparr>mPrev := Some p\<rparr>)\<rparr>"
    have eq: "ObjectBase_new h p b = Some ?h'"
      using r rp by (simp add: ObjectBase_new_def obj_add_def upd_obj_def)
    have "dseg (lnk ?h') (Some r) n rs l None"
      using r(4) px dist Cons by (subst dseg_cong [of _ _ "lnk h"]) (auto simp: lnk_def)
    then have "linked ?h' (p # xs)"
      using Cons px dist rp r(3) by (auto simp: linked_def lnk_def)
    then show ?thesis
      using eq rp r(2) by (auto simp: core_def fun_eq_iff)
  qed
qed

lemma upd_obj_linked:
  assumes "mObjs h p = Some ob" and "mPrev (f ob) = mPrev ob" "mNext (f ob) = mNext ob"
    and "linked h xs"
  shows "linked (h\<lparr>mObjs := (mObjs h)(p \<mapsto> f ob)\<rparr>) xs"
proof -
  have "lnk (h\<lparr>mObjs := (mObjs h)(p \<mapsto> f ob)\<rparr>) = lnk h"
    using assms(1-3) by (auto simp: lnk_def)
  then show ?thesis
    using assms(4) by (simp add: linked_def)
qed

text \<open>Walking the list: the successor of an object is the next address.\<close>

definition head_opt :: "nat list \<Rightarrow> nat option" where
  "head_opt xs = (case xs of [] \<Rightarrow> None | x # _ \<Rightarrow> Some x)"

lemma head_opt_simps [simp]: "head_opt [] = None" "head_opt (x # xs) = Some x"
  by (simp_all add: head_opt_def)

lemma linked_head: "linked h xs \<Longrightarrow> mObjHead h = head_opt xs"
  by (cases xs) (auto simp: linked_def)

lemma linked_next: "linked h (ys @ p # zs) \<Longrightarrow> mObjs h p = Some ob \<Longrightarrow> mNext ob = head_opt zs"
  by (cases zs) (auto simp: linked_def dseg_append lnk_def)

lemma isValid_walk_linked:
  "linked h (ys @ zs) \<Longrightarrow> length zs \<le> n \<Longrightarrow> isValid_walk n h (head_opt zs) p = Some (p \<in> set zs)"
proof (induction zs arbitrary: ys n)
  case (Cons z zs)
  obtain ob where ob: "mObjs h z = Some ob"
    using Cons.prems(1) by (auto simp: linked_def lnk_def dseg_append)
  have "mNext ob = head_opt zs"
    by (rule linked_next [OF Cons.prems(1) ob])
  moreover obtain k where "n = Suc k" "length zs \<le> k"
    using Cons.prems(2) by (cases n) auto
  ultimately show ?case
    using Cons.IH [of "ys @ [z]" k] Cons.prems(1) ob by auto
qed simp

lemma isValid_iff: "linked h xs \<Longrightarrow> length xs \<le> n \<Longrightarrow> isValid n h p = Some (p \<in> set xs)"
  using isValid_walk_linked [of h "[]" xs n p] by (simp add: isValid_def linked_head)

section \<open>Reference counts\<close>

text \<open>The references an object holds, and those held by all objects of a list together.\<close>

definition obj_refs :: "('b \<Rightarrow> nat list) \<Rightarrow> ('b, 'c) Context \<Rightarrow> nat \<Rightarrow> nat multiset" where
  "obj_refs refs h q = (case mObjs h q of None \<Rightarrow> {#} | Some ob \<Rightarrow> mset (refs (mBody ob)))"

definition held :: "('b \<Rightarrow> nat list) \<Rightarrow> ('b, 'c) Context \<Rightarrow> nat list \<Rightarrow> nat multiset" where
  "held refs h xs = (\<Sum>q\<leftarrow>xs. obj_refs refs h q)"

text \<open>
  The counts are exact: the objects on the list \<open>xs\<close> are allocated, each system count is the
  number of references to it, from objects of the list and from outside (\<open>ext\<close>), and no
  reference leads off the list.
\<close>

definition counts_ok :: "('b \<Rightarrow> nat list) \<Rightarrow> ('b, 'c) Context \<Rightarrow> nat list \<Rightarrow> nat multiset \<Rightarrow> bool" where
  "counts_ok refs h xs ext \<longleftrightarrow> linked h xs \<and> set_mset (ext + held refs h xs) \<subseteq> set xs \<and>
     (\<forall>p \<in> set xs. \<forall>ob. mObjs h p = Some ob \<longrightarrow>
        0 \<le> mUserRefCount ob \<and> mSysRefCount ob = int (count (ext + held refs h xs) p))"

lemma linked_dom: "linked h xs \<Longrightarrow> p \<in> set xs \<Longrightarrow> \<exists>ob. mObjs h p = Some ob"
  by (auto simp: linked_def lnk_def dest!: dseg_in_dom)

lemma held_Nil [simp]: "held refs h [] = {#}"
  by (simp add: held_def)

lemma held_Cons [simp]: "held refs h (x # xs) = obj_refs refs h x + held refs h xs"
  by (simp add: held_def)

lemma in_held_iff: "p \<in># held refs h xs \<longleftrightarrow> (\<exists>q \<in> set xs. p \<in># obj_refs refs h q)"
  by (induction xs) auto

lemma held_remove1:
  "p \<in> set xs \<Longrightarrow> held refs h xs = obj_refs refs h p + held refs h (remove1 p xs)"
  by (induction xs) auto

lemma held_cong: "(\<And>q. q \<in> set xs \<Longrightarrow> obj_refs refs h' q = obj_refs refs h q) \<Longrightarrow>
    held refs h' xs = held refs h xs"
  by (induction xs) auto

lemma core_eqD:
  assumes "core h' q = core h q"
  shows "obj_refs refs h' q = obj_refs refs h q"
    "mObjs h' q = Some ob' \<Longrightarrow> \<exists>ob. mObjs h q = Some ob \<and> mSysRefCount ob' = mSysRefCount ob \<and>
       mUserRefCount ob' = mUserRefCount ob \<and> mName ob' = mName ob \<and> mBody ob' = mBody ob"
  using assms by (cases "mObjs h q"; cases "mObjs h' q"; simp add: core_def obj_refs_def)+

text \<open>Changing a count through \<open>upd_obj\<close>.\<close>

lemma obj_refs_upd:
  "mObjs h p = Some ob \<Longrightarrow> mBody (f ob) = mBody ob \<Longrightarrow>
   obj_refs refs (h\<lparr>mObjs := (mObjs h)(p \<mapsto> f ob)\<rparr>) q = obj_refs refs h q"
  by (auto simp: obj_refs_def)

lemma held_upd:
  "mObjs h p = Some ob \<Longrightarrow> mBody (f ob) = mBody ob \<Longrightarrow>
   held refs (h\<lparr>mObjs := (mObjs h)(p \<mapsto> f ob)\<rparr>) xs = held refs h xs"
  by (intro held_cong obj_refs_upd)

lemma counts_okD:
  assumes "counts_ok refs h xs ext"
  shows "linked h xs" "set_mset ext \<subseteq> set xs" "set_mset (held refs h xs) \<subseteq> set xs"
    "p \<in> set xs \<Longrightarrow> mObjs h p = Some ob \<Longrightarrow> 0 \<le> mUserRefCount ob"
    "p \<in> set xs \<Longrightarrow> mObjs h p = Some ob \<Longrightarrow>
       mSysRefCount ob = int (count ext p) + int (count (held refs h xs) p)"
  using assms by (simp_all add: counts_ok_def)

lemma counts_ok_upd:
  assumes ok: "counts_ok refs h xs ext" and p: "mObjs h p = Some ob"
    and f: "mPrev (f ob) = mPrev ob" "mNext (f ob) = mNext ob" "mBody (f ob) = mBody ob"
      "0 \<le> mUserRefCount (f ob)"
    and ext': "set_mset ext' \<subseteq> set xs" "\<And>q. q \<noteq> p \<Longrightarrow> count ext' q = count ext q"
      "p \<in> set xs \<Longrightarrow> mSysRefCount (f ob) - mSysRefCount ob = int (count ext' p) - int (count ext p)"
  shows "counts_ok refs (h\<lparr>mObjs := (mObjs h)(p \<mapsto> f ob)\<rparr>) xs ext'"
  unfolding counts_ok_def
proof (intro conjI ballI allI impI)
  let ?h = "h\<lparr>mObjs := (mObjs h)(p \<mapsto> f ob)\<rparr>"
  have hd: "held refs ?h xs = held refs h xs"
    using p f(3) by (rule held_upd)
  show "linked ?h xs"
    by (rule upd_obj_linked) (rule p f counts_okD(1) [OF ok])+
  show "set_mset (ext' + held refs ?h xs) \<subseteq> set xs"
    using ext'(1) counts_okD(3) [OF ok] by (simp add: hd)
  fix q ob' assume q: "q \<in> set xs" and ob': "mObjs ?h q = Some ob'"
  show "0 \<le> mUserRefCount ob'"
    using ob' f(4) counts_okD(4) [OF ok q, of ob'] by (cases "q = p") simp_all
  show "mSysRefCount ob' = int (count (ext' + held refs ?h xs) q)"
    using ob' ext'(2) [of q] ext'(3) q p counts_okD(5) [OF ok q]
    unfolding hd by (cases "q = p") simp_all
qed

lemma counts_ok_dec:
  assumes "counts_ok refs h xs ext" "mObjs h p = Some ob" "p \<in># ext"
  shows "counts_ok refs (h\<lparr>mObjs := (mObjs h)(p \<mapsto> ob\<lparr>mSysRefCount := mSysRefCount ob - 1\<rparr>)\<rparr>) xs
    (ext - {#p#})"
proof (rule counts_ok_upd [OF assms(1,2)])
  have "p \<in> set xs" "1 \<le> count ext p" "0 \<le> mUserRefCount ob"
    using assms counts_okD(2,4) [OF assms(1)] by auto
  then show "0 \<le> mUserRefCount (ob\<lparr>mSysRefCount := mSysRefCount ob - 1\<rparr>)"
    "mSysRefCount (ob\<lparr>mSysRefCount := mSysRefCount ob - 1\<rparr>) - mSysRefCount ob =
       int (count (ext - {#p#}) p) - int (count ext p)"
    by simp_all
  show "set_mset (ext - {#p#}) \<subseteq> set xs"
    using counts_okD(2) [OF assms(1)] by (auto dest: in_diffD)
qed simp_all

lemma counts_ok_inc:
  assumes "counts_ok refs h xs ext" "mObjs h p = Some ob" "p \<in> set xs"
  shows "counts_ok refs (h\<lparr>mObjs := (mObjs h)(p \<mapsto> ob\<lparr>mSysRefCount := mSysRefCount ob + 1\<rparr>)\<rparr>) xs
    (add_mset p ext)"
  using assms(3) counts_okD(2,4) [OF assms(1)] assms(2)
  by (intro counts_ok_upd [OF assms(1,2)]) simp_all

lemma counts_ok_user:
  assumes "counts_ok refs h xs ext" "mObjs h p = Some ob" "0 \<le> n"
  shows "counts_ok refs (h\<lparr>mObjs := (mObjs h)(p \<mapsto> ob\<lparr>mUserRefCount := n\<rparr>)\<rparr>) xs ext"
  using assms(3) counts_okD(2) [OF assms(1)] by (intro counts_ok_upd [OF assms(1,2)]) simp_all

text \<open>
  An object that nobody refers to leaves the list; the references it holds become external
  until its destructor has dropped them.
\<close>

lemma counts_ok_unlink:
  assumes ok: "counts_ok refs h xs ext" and p: "p \<in> set xs" "mObjs h p = Some ob"
    "mSysRefCount ob = 0"
  shows "\<exists>h'. obj_remove h p = Some h' \<and> core h' = core h \<and> mCache h' = mCache h \<and>
    (\<forall>q. q \<notin> set xs \<longrightarrow> mObjs h' q = mObjs h q) \<and>
    counts_ok refs h' (remove1 p xs) (ext + mset (refs (mBody ob)))"
proof -
  obtain ys zs where xs: "xs = ys @ p # zs" "p \<notin> set ys"
    using p(1) by (meson split_list_first)
  have rem: "remove1 p xs = ys @ zs" and set': "set (remove1 p xs) = set xs - {p}"
    using xs counts_okD(1) [OF ok] by (auto simp: remove1_append linked_def)
  obtain h' where h': "obj_remove h p = Some h'" "linked h' (remove1 p xs)" "core h' = core h"
      "mCache h' = mCache h" "\<forall>q. q \<notin> set xs \<longrightarrow> mObjs h' q = mObjs h q"
    using obj_remove_linked [of h ys p zs] counts_okD(1) [OF ok] unfolding xs(1) rem [unfolded xs(1)]
    by blast
  have total: "ext + mset (refs (mBody ob)) + held refs h' (remove1 p xs) = ext + held refs h xs"
  proof -
    have "held refs h' (remove1 p xs) = held refs h (remove1 p xs)"
      by (intro held_cong core_eqD) (simp add: h'(3))
    moreover have "held refs h xs = mset (refs (mBody ob)) + held refs h (remove1 p xs)"
      using held_remove1 [OF p(1), of refs h] by (simp add: obj_refs_def p(2))
    ultimately show ?thesis
      by simp
  qed
  have zero: "count (ext + held refs h xs) p = 0"
    using counts_okD(5) [OF ok p(1,2)] p(3) by simp
  have "counts_ok refs h' (remove1 p xs) (ext + mset (refs (mBody ob)))"
    unfolding counts_ok_def total
  proof (intro conjI ballI allI impI)
    show "set_mset (ext + held refs h xs) \<subseteq> set (remove1 p xs)"
      using zero ok by (auto simp: set' counts_ok_def count_eq_zero_iff)
    fix q ob' assume q: "q \<in> set (remove1 p xs)" and ob': "mObjs h' q = Some ob'"
    obtain o2 where "mObjs h q = Some o2" "mSysRefCount ob' = mSysRefCount o2"
        "mUserRefCount ob' = mUserRefCount o2"
      using core_eqD(2) [OF _ ob', of h] by (auto simp: h'(3))
    then show "0 \<le> mUserRefCount ob'" "mSysRefCount ob' = int (count (ext + held refs h xs) q)"
      using counts_okD(4,5) [OF ok, of q] q set' by simp_all
  qed (rule h'(2))
  with h' show ?thesis
    by blast
qed

lemma incSysRefs_spec:
  assumes "set ps \<subseteq> dom (mObjs h)"
  shows "incSysRefs h ps = Some (h\<lparr>mObjs := \<lambda>q. map_option
    (\<lambda>ob. ob\<lparr>mSysRefCount := mSysRefCount ob + int (count (mset ps) q)\<rparr>) (mObjs h q)\<rparr>)"
  using assms
proof (induction ps arbitrary: h)
  case Nil
  then show ?case
    by (simp add: option.map_ident)
next
  case (Cons p ps)
  obtain ob where ob: "mObjs h p = Some ob"
    using Cons.prems by auto
  let ?h = "h\<lparr>mObjs := (mObjs h)(p \<mapsto> ob\<lparr>mSysRefCount := mSysRefCount ob + 1\<rparr>)\<rparr>"
  have "set ps \<subseteq> dom (mObjs ?h)"
    using Cons.prems by auto
  from Cons.IH [OF this] show ?case
    using ob by (auto simp: incSysRef_def upd_obj_def fun_eq_iff option.map_comp o_def ac_simps)
qed

text \<open>
  A new object enters the list together with the references it takes; \<open>p\<close> itself is referred to
  once, by the creator.
\<close>

lemma counts_ok_new:
  assumes ok: "counts_ok refs h xs ext" and fresh: "p \<notin> dom (mObjs h)"
    and qs: "mset qs = mset (refs b)" "set qs \<subseteq> set xs"
  shows "\<exists>h1 h2. ObjectBase_new h p b = Some h1 \<and> incSysRefs h1 (p # qs) = Some h2 \<and>
    counts_ok refs h2 (p # xs) (add_mset p ext) \<and> mCache h2 = mCache h \<and>
    core h2 = (\<lambda>q. map_option (\<lambda>(nm, s, u, b). (nm, s + int (count (mset (p # qs)) q), u, b))
      (((core h)(p \<mapsto> (None, 0, 0, b))) q))"
proof -
  have lk: "linked h xs"
    by (rule counts_okD(1) [OF ok])
  obtain h1 where h1: "ObjectBase_new h p b = Some h1" "linked h1 (p # xs)"
      "core h1 = (core h)(p \<mapsto> (None, 0, 0, b))" "mCache h1 = mCache h"
    using ObjectBase_new_linked [OF lk fresh] by blast
  let ?f = "\<lambda>q ob. ob\<lparr>mSysRefCount := mSysRefCount ob + int (count (mset (p # qs)) q)\<rparr>"
  let ?h2 = "h1\<lparr>mObjs := \<lambda>q. map_option (?f q) (mObjs h1 q)\<rparr>"
  have dom1: "set (p # qs) \<subseteq> dom (mObjs h1)"
    using linked_dom [OF h1(2)] qs(2) by fastforce
  have core2: "core ?h2 = (\<lambda>q. map_option (\<lambda>(nm, s, u, b). (nm, s + int (count (mset (p # qs)) q), u, b))
      (core h1 q))"
    by (simp add: core_def [abs_def] option.map_comp o_def)
  have px: "p \<notin> set xs"
    using linked_dom [OF lk] fresh by blast
  have "held refs ?h2 xs = held refs h xs"
  proof (rule held_cong)
    fix q assume "q \<in> set xs"
    then have "core h1 q = core h q"
      using h1(3) px by auto
    then show "obj_refs refs ?h2 q = obj_refs refs h q"
      by (auto simp: obj_refs_def core_def split: option.splits)
  qed
  moreover have "obj_refs refs ?h2 p = mset (refs b)"
    using h1(3) by (auto simp: obj_refs_def core_def fun_eq_iff split: option.splits dest!: spec [of _ p])
  ultimately have hd: "held refs ?h2 (p # xs) = mset qs + held refs h xs"
    using qs(1) by simp
  have "counts_ok refs ?h2 (p # xs) (add_mset p ext)"
    unfolding counts_ok_def
  proof (intro conjI ballI allI impI)
    show "linked ?h2 (p # xs)"
      using h1(2) by (simp add: linked_def lnk_def [abs_def] option.map_comp o_def)
    show "set_mset (add_mset p ext + held refs ?h2 (p # xs)) \<subseteq> set (p # xs)"
      unfolding hd using qs(2) counts_okD(2,3) [OF ok] by auto
    fix q ob assume q: "q \<in> set (p # xs)" and ob: "mObjs ?h2 q = Some ob"
    then obtain o1 where o1: "mObjs h1 q = Some o1" "ob = ?f q o1"
      by auto
    have "core h1 q = Some (mName o1, mSysRefCount o1, mUserRefCount o1, mBody o1)"
      using o1 by (simp add: core_def)
    then have c1: "((core h)(p \<mapsto> (None, 0, 0, b))) q = Some (mName o1, mSysRefCount o1, mUserRefCount o1, mBody o1)"
      using h1(3) by simp
    have "0 \<le> mUserRefCount o1 \<and> mSysRefCount o1 = int (count (ext + held refs h xs) q)"
    proof (cases "q = p")
      case True
      have "p \<notin># ext + held refs h xs"
        using px counts_okD(2,3) [OF ok] by auto
      then show ?thesis
        using c1 True by (simp add: not_in_iff)
    next
      case False
      then obtain o0 where "mObjs h q = Some o0" "mUserRefCount o1 = mUserRefCount o0"
          "mSysRefCount o1 = mSysRefCount o0"
        using c1 by (auto simp: core_def)
      then show ?thesis
        using counts_okD(4,5) [OF ok, of q o0] q False by simp
    qed
    then show "0 \<le> mUserRefCount ob"
      "mSysRefCount ob = int (count (add_mset p ext + held refs ?h2 (p # xs)) q)"
      unfolding hd using o1(2) by simp_all
  qed
  then show ?thesis
    using h1 core2 incSysRefs_spec [OF dom1] by simp
qed
section \<open>Destruction is safe\<close>

text \<open>
  What a cascade of destructors does to the rest of the world: objects may leave the list, never
  one the application still holds; those that leave are freed; those that stay keep their name,
  their user count and their body; memory off the list is not touched.
\<close>

definition survives :: "('b, 'c) Context \<Rightarrow> nat list \<Rightarrow> ('b, 'c) Context \<Rightarrow> nat list \<Rightarrow> bool" where
  "survives h xs h' xs' \<longleftrightarrow> set xs' \<subseteq> set xs \<and> length xs' \<le> length xs \<and>
     (\<forall>q ob. q \<in> set xs \<longrightarrow> mObjs h q = Some ob \<longrightarrow> 0 < mUserRefCount ob \<longrightarrow> q \<in> set xs') \<and>
     (\<forall>q ob. q \<in> set xs' \<longrightarrow> mObjs h q = Some ob \<longrightarrow>
        (\<exists>ob'. mObjs h' q = Some ob' \<and> mName ob' = mName ob \<and>
           mUserRefCount ob' = mUserRefCount ob \<and> mBody ob' = mBody ob)) \<and>
     (\<forall>q. q \<in> set xs \<longrightarrow> q \<notin> set xs' \<longrightarrow> mObjs h' q = None) \<and>
     (\<forall>q. q \<notin> set xs \<longrightarrow> mObjs h' q = mObjs h q)"

lemma survives_refl: "linked h xs \<Longrightarrow> survives h xs h xs"
  by (auto simp: survives_def)

lemma survivesD:
  assumes "survives h xs h' xs'"
  shows "set xs' \<subseteq> set xs" "length xs' \<le> length xs"
    "q \<in> set xs \<Longrightarrow> mObjs h q = Some ob \<Longrightarrow> 0 < mUserRefCount ob \<Longrightarrow> q \<in> set xs'"
    "q \<in> set xs' \<Longrightarrow> mObjs h q = Some ob \<Longrightarrow> \<exists>ob'. mObjs h' q = Some ob' \<and> mName ob' = mName ob \<and>
       mUserRefCount ob' = mUserRefCount ob \<and> mBody ob' = mBody ob"
    "q \<in> set xs \<Longrightarrow> q \<notin> set xs' \<Longrightarrow> mObjs h' q = None"
    "q \<notin> set xs \<Longrightarrow> mObjs h' q = mObjs h q"
  using assms unfolding survives_def by blast+

lemma survives_trans:
  assumes a: "survives h xs h1 xs1" and b: "survives h1 xs1 h2 xs2"
  shows "survives h xs h2 xs2"
  unfolding survives_def
proof (intro conjI allI impI)
  show "set xs2 \<subseteq> set xs" "length xs2 \<le> length xs"
    using survivesD(1,2) [OF a] survivesD(1,2) [OF b] by auto
  fix q
  show "mObjs h2 q = None" if "q \<in> set xs" "q \<notin> set xs2"
    using that survivesD(5) [OF a, of q] survivesD(5,6) [OF b, of q] by (cases "q \<in> set xs1") auto
  show "mObjs h2 q = mObjs h q" if "q \<notin> set xs"
    using that survivesD(1) [OF a] survivesD(6) [OF a that] survivesD(6) [OF b, of q] by auto
  fix ob assume ob: "mObjs h q = Some ob"
  show "\<exists>ob'. mObjs h2 q = Some ob' \<and> mName ob' = mName ob \<and>
      mUserRefCount ob' = mUserRefCount ob \<and> mBody ob' = mBody ob" if "q \<in> set xs2"
    using that survivesD(1) [OF b] survivesD(4) [OF a _ ob] survivesD(4) [OF b that] by fastforce
  show "q \<in> set xs2" if q: "q \<in> set xs" and u: "0 < mUserRefCount ob"
    using survivesD(4) [OF a survivesD(3) [OF a q ob u] ob] survivesD(3) [OF b survivesD(3) [OF a q ob u]] u
    by auto
qed

lemma survives_sys:
  assumes "mObjs h p = Some ob" "p \<in> set xs"
  shows "survives h xs (h\<lparr>mObjs := (mObjs h)(p \<mapsto> ob\<lparr>mSysRefCount := n\<rparr>)\<rparr>) xs"
  using assms by (auto simp: survives_def)

lemma counts_ok_free:
  assumes ok: "counts_ok refs h xs ext" and p: "p \<notin> set xs"
  shows "counts_ok refs (h\<lparr>mObjs := (mObjs h)(p := None)\<rparr>) xs ext"
proof -
  let ?h = "h\<lparr>mObjs := (mObjs h)(p := None)\<rparr>"
  have "held refs ?h xs = held refs h xs"
    using p by (intro held_cong) (auto simp: obj_refs_def)
  moreover have "dseg (lnk ?h) a b xs c d = dseg (lnk h) a b xs c d" for a b c d
    using p by (intro dseg_cong) (auto simp: lnk_def)
  ultimately show ?thesis
    using ok p by (auto simp: counts_ok_def linked_def)
qed

lemma survives_delete:
  assumes ob: "mObjs h p = Some ob" "mUserRefCount ob = 0" and p: "p \<in> set xs"
    and core: "core h1 = core h" and off: "\<forall>q. q \<notin> set xs \<longrightarrow> mObjs h1 q = mObjs h q"
    and xs1: "set xs1 = set xs - {p}" "length xs1 \<le> length xs"
    and s: "survives h1 xs1 h3 xs3"
  shows "survives h xs (h3\<lparr>mObjs := (mObjs h3)(p := None)\<rparr>) xs3"
  unfolding survives_def
proof (intro conjI allI impI)
  have p3: "p \<notin> set xs3"
    using survivesD(1) [OF s] xs1 by auto
  show "set xs3 \<subseteq> set xs" "length xs3 \<le> length xs"
    using survivesD(1,2) [OF s] xs1 by auto
  fix q
  show "mObjs (h3\<lparr>mObjs := (mObjs h3)(p := None)\<rparr>) q = None" if "q \<in> set xs" "q \<notin> set xs3"
    using survivesD(5) [OF s, of q] that xs1 by auto
  show "mObjs (h3\<lparr>mObjs := (mObjs h3)(p := None)\<rparr>) q = mObjs h q" if "q \<notin> set xs"
    using survivesD(6) [OF s, of q] that xs1 p off by auto
  fix o1 assume o1: "mObjs h q = Some o1"
  obtain o2 where o2: "mObjs h1 q = Some o2" "mName o2 = mName o1"
      "mUserRefCount o2 = mUserRefCount o1" "mBody o2 = mBody o1"
    using core_eqD(2) [OF _ o1, of h1] core by auto
  show "\<exists>ob'. mObjs (h3\<lparr>mObjs := (mObjs h3)(p := None)\<rparr>) q = Some ob' \<and> mName ob' = mName o1 \<and>
      mUserRefCount ob' = mUserRefCount o1 \<and> mBody ob' = mBody o1" if "q \<in> set xs3"
    using survivesD(4) [OF s that o2(1)] o2 that p3 by auto
  show "q \<in> set xs3" if "q \<in> set xs" "0 < mUserRefCount o1"
  proof -
    have "q \<noteq> p"
      using that ob o1 by auto
    then show ?thesis
      using survivesD(3) [OF s _ o2(1)] that o2(3) xs1 by simp
  qed
qed

text \<open>References lead to older objects, as they do when an object is built from existing ones.\<close>

abbreviation refs_of :: "('b \<Rightarrow> nat list option) \<Rightarrow> 'b \<Rightarrow> nat list" where
  "refs_of refs \<equiv> (\<lambda>b. the (refs b))"

definition older_refs :: "('b \<Rightarrow> nat list option) \<Rightarrow> ('b, 'c) Context \<Rightarrow> nat list \<Rightarrow> bool" where
  "older_refs refs h xs \<longleftrightarrow>
     (\<forall>q ob. q \<in> set xs \<longrightarrow> mObjs h q = Some ob \<longrightarrow> (\<forall>r \<in> set (refs_of refs (mBody ob)). r < q))"

lemma older_refs_survives:
  assumes "older_refs refs h xs" "survives h xs h' xs'" "linked h xs"
  shows "older_refs refs h' xs'"
  unfolding older_refs_def
proof (intro allI impI)
  fix q ob' assume q: "q \<in> set xs'" and ob': "mObjs h' q = Some ob'"
  have qx: "q \<in> set xs"
    using survivesD(1) [OF assms(2)] q by auto
  obtain ob where ob: "mObjs h q = Some ob"
    using linked_dom [OF assms(3) qx] by blast
  then have "mBody ob' = mBody ob"
    using survivesD(4) [OF assms(2) q ob] ob' by auto
  then show "\<forall>r \<in> set (refs_of refs (mBody ob')). r < q"
    using assms(1) qx ob by (simp add: older_refs_def)
qed

lemma older_refs_user:
  "older_refs refs h xs \<Longrightarrow> mObjs h p = Some ob \<Longrightarrow>
   older_refs refs (h\<lparr>mObjs := (mObjs h)(p \<mapsto> ob\<lparr>mUserRefCount := n\<rparr>)\<rparr>) xs"
  by (auto simp: older_refs_def)

text \<open>Objects the clean-up scan has passed: no user reference left, some system reference.\<close>

definition settled :: "('b, 'c) Context \<Rightarrow> nat list \<Rightarrow> bool" where
  "settled h ds \<longleftrightarrow> (\<forall>q ob. q \<in> set ds \<longrightarrow> mObjs h q = Some ob \<longrightarrow>
     mUserRefCount ob = 0 \<and> 0 < mSysRefCount ob)"

lemma settled_snoc:
  "settled h ds \<Longrightarrow> mObjs h p = Some ob \<Longrightarrow> 0 < mSysRefCount ob \<Longrightarrow>
   settled (h\<lparr>mObjs := (mObjs h)(p \<mapsto> ob\<lparr>mUserRefCount := 0\<rparr>)\<rparr>) (ds @ [p])"
  by (auto simp: settled_def)

text \<open>If every object on the list is referred to from the list, the list is empty.\<close>

lemma distinct_subset_less:
  assumes "set xs \<subseteq> set ys" "p \<in> set ys" "p \<notin> set xs" "distinct xs" "distinct ys"
  shows "length xs < length ys"
proof -
  have "card (set xs) < card (set ys)"
    using assms(1-3) by (intro psubset_card_mono) auto
  then show ?thesis
    using assms(4,5) by (simp add: distinct_card)
qed

lemma square_drop: "(k::nat) < l \<Longrightarrow> k * k + k \<le> l * l"
proof -
  assume "k < l"
  then have "k * Suc k \<le> l * l"
    by (intro mult_le_mono) simp_all
  then show ?thesis
    by simp
qed

lemma no_reference_cycle:
  assumes ok: "counts_ok (refs_of refs) h xs {#}" and old: "older_refs refs h xs"
    and settled: "settled h xs"
  shows "xs = []"
proof (rule ccontr)
  assume ne: "xs \<noteq> []"
  let ?p = "Max (set xs)"
  have p: "?p \<in> set xs"
    using ne by simp
  obtain ob where ob: "mObjs h ?p = Some ob"
    using linked_dom [OF counts_okD(1) [OF ok] p] by blast
  have "0 < count (held (refs_of refs) h xs) ?p"
  proof -
    have "0 < mSysRefCount ob"
      using settled p ob by (simp add: settled_def)
    then show ?thesis
      using counts_okD(5) [OF ok p ob] by simp
  qed
  then have "\<exists>q \<in> set xs. ?p \<in># obj_refs (refs_of refs) h q"
    by (simp add: in_held_iff)
  then obtain q oq where q: "q \<in> set xs" "mObjs h q = Some oq" "?p \<in> set (refs_of refs (mBody oq))"
    by (auto simp: obj_refs_def split: option.splits)
  then have "?p < q"
    using old by (simp add: older_refs_def)
  with q(1) show False
    by (meson Max_ge finite_set leD)
qed

text \<open>Whatever \<open>preDestroy\<close> leaves alone in the caches, a cascade leaves alone.\<close>

lemma upd_obj_cache: "upd_obj h p f = Some h' \<Longrightarrow> mCache h' = mCache h"
  by (auto simp: upd_obj_def split: option.splits)

lemma obj_remove_cache: "obj_remove h p = Some h' \<Longrightarrow> mCache h' = mCache h"
  by (auto simp: obj_remove_def Let_def dest!: upd_obj_cache split: option.splits if_splits)

lemma destroy_refs_cache:
  assumes "\<And>h p h' b. dec h p = Some (h', b) \<Longrightarrow> g (mCache h') = g (mCache h)"
    and "destroy_refs dec h qs = Some h'"
  shows "g (mCache h') = g (mCache h)"
  using assms(2) by (induction qs arbitrary: h) (auto dest: assms(1))

lemma checkDelete_with_cache:
  assumes "\<And>h p h' b. dec h p = Some (h', b) \<Longrightarrow> g (mCache h') = g (mCache h)"
    and "\<And>b p c. g (pre b p c) = g c" and "checkDelete_with dec refs pre h ref = Some (h', d)"
  shows "g (mCache h') = g (mCache h)"
proof (cases "h' = h")
  case False
  then obtain p ob h1 h2 qs where "mObjs h p = Some ob" and h1: "obj_remove h p = Some h1"
    and h2: "destroy_refs dec (h1\<lparr>mCache := pre (mBody ob) p (mCache h1)\<rparr>) qs = Some h2"
    and h': "h' = h2\<lparr>mObjs := (mObjs h2)(p := None)\<rparr>"
    using assms(3) by (auto simp: checkDelete_with_def Let_def split: option.splits if_splits)
  show ?thesis
    using destroy_refs_cache [of dec g, OF assms(1) h2] obj_remove_cache [OF h1] assms(2) h' by simp
qed simp

lemma decSysRef_cache:
  assumes "\<And>b p c. g (pre b p c) = g c" and "decSysRef refs pre n h p = Some (h', d)"
  shows "g (mCache h') = g (mCache h)"
  using assms(2)
proof (induction n arbitrary: h p h' d)
  case (Suc n)
  obtain ob h1 where "mObjs h p = Some ob"
    and h1: "upd_obj h p (\<lambda>ob. ob\<lparr>mSysRefCount := mSysRefCount ob - 1\<rparr>) = Some h1"
    and rest: "(if mSysRefCount ob \<le> 1 \<and> mUserRefCount ob \<le> 0
      then checkDelete_with (decSysRef refs pre n) refs pre h1 (Some p) else Some (h1, False)) = Some (h', d)"
    using Suc.prems by (auto simp del: if_Some_eq_Some)
  have "g (mCache h') = g (mCache h1)"
    using rest checkDelete_with_cache [where g = g and pre = pre, OF Suc.IH assms(1)]
    by (auto split: if_splits)
  then show ?case
    using upd_obj_cache [OF h1] by simp
qed simp

lemma decUserRef_cache:
  assumes "\<And>b p c. g (pre b p c) = g c" and "decUserRef refs pre n h p = Some (h', d)"
  shows "g (mCache h') = g (mCache h)"
proof -
  obtain ob h1 where "mObjs h p = Some ob"
    and h1: "upd_obj h p (\<lambda>ob. ob\<lparr>mUserRefCount := mUserRefCount ob - 1\<rparr>) = Some h1"
    and rest: "(if mUserRefCount ob \<le> 1 \<and> mSysRefCount ob \<le> 0
      then checkDelete refs pre n h1 (Some p) else Some (h1, False)) = Some (h', d)"
    using assms(2) by (auto simp: decUserRef_def simp del: if_Some_eq_Some)
  have "g (mCache h') = g (mCache h1)"
    using rest checkDelete_with_cache [of "decSysRef refs pre n" g pre] decSysRef_cache [of g pre] assms(1)
    by (auto simp: checkDelete_def split: if_splits)
  then show ?thesis
    using upd_obj_cache [OF h1] by simp
qed

text \<open>
  The contract between the object base and a derived class: \<open>preDestroy\<close> takes the dying object
  out of the context's caches and leaves them well formed. A cache entry names an object and the
  content it had when it was entered; \<open>cache_inv\<close> says that every entry still is a live object
  with that content.
\<close>

definition cache_inv :: "('c \<Rightarrow> (nat \<times> 'b) set) \<Rightarrow> ('b, 'c) Context \<Rightarrow> nat list \<Rightarrow> bool" where
  "cache_inv cached h xs \<longleftrightarrow> (\<forall>q b. (q, b) \<in> cached (mCache h) \<longrightarrow>
     q \<in> set xs \<and> (\<exists>ob. mObjs h q = Some ob \<and> mBody ob = b))"

text \<open>Every destructor finds the references it has to drop.\<close>

definition readable :: "('b \<Rightarrow> nat list option) \<Rightarrow> ('b, 'c) Context \<Rightarrow> nat list \<Rightarrow> bool" where
  "readable refs h xs \<longleftrightarrow> (\<forall>q \<in> set xs. \<forall>ob. mObjs h q = Some ob \<longrightarrow> refs (mBody ob) \<noteq> None)"

definition ref_inv :: "('b \<Rightarrow> nat list option) \<Rightarrow> ('c \<Rightarrow> bool) \<Rightarrow> ('c \<Rightarrow> (nat \<times> 'b) set) \<Rightarrow>
    ('b, 'c) Context \<Rightarrow> nat list \<Rightarrow> nat multiset \<Rightarrow> bool" where
  "ref_inv refs cache_ok cached h xs ext \<longleftrightarrow>
     counts_ok (refs_of refs) h xs ext \<and> cache_ok (mCache h) \<and> cache_inv cached h xs \<and> readable refs h xs"

lemma readable_upd [intro]:
  "readable refs h xs \<Longrightarrow> mObjs h p = Some ob \<Longrightarrow> mBody ob' = mBody ob \<Longrightarrow>
   readable refs (h\<lparr>mObjs := (mObjs h)(p \<mapsto> ob')\<rparr>) xs"
  by (auto simp: readable_def)

lemma readable_free: "readable refs h xs \<Longrightarrow> readable refs (h\<lparr>mObjs := (mObjs h)(p := None)\<rparr>) xs"
  by (auto simp: readable_def)

lemma readable_core:
  assumes "readable refs h xs" and "core h' = core h" and "set xs' \<subseteq> set xs"
  shows "readable refs (h'\<lparr>mCache := c\<rparr>) xs'"
  unfolding readable_def
proof (intro ballI allI impI)
  fix q ob' assume q: "q \<in> set xs'" and ob': "mObjs (h'\<lparr>mCache := c\<rparr>) q = Some ob'"
  then obtain ob where "mObjs h q = Some ob" "mBody ob' = mBody ob"
    using core_eqD(2) [of h' q h ob'] assms(2) by auto
  then show "refs (mBody ob') \<noteq> None"
    using assms(1,3) q by (auto simp: readable_def)
qed

lemma cache_inv_upd [intro]:
  assumes "cache_inv cached h xs" "mObjs h p = Some ob" "mBody ob' = mBody ob"
  shows "cache_inv cached (h\<lparr>mObjs := (mObjs h)(p \<mapsto> ob')\<rparr>) xs"
  using assms by (fastforce simp: cache_inv_def)

lemma cache_inv_free:
  "cache_inv cached h xs \<Longrightarrow> p \<notin> set xs \<Longrightarrow> cache_inv cached (h\<lparr>mObjs := (mObjs h)(p := None)\<rparr>) xs"
  by (auto simp: cache_inv_def)

lemma cache_inv_unlink:
  assumes inv: "cache_inv cached h xs" and ob: "mObjs h p = Some ob" and core: "core h1 = core h"
    and cache: "mCache h1 = mCache h" and sub: "cached c \<subseteq> cached (mCache h)" "(p, mBody ob) \<notin> cached c"
    and xs1: "set xs1 = set xs - {p}"
  shows "cache_inv cached (h1\<lparr>mCache := c\<rparr>) xs1"
  unfolding cache_inv_def
proof (intro allI impI)
  fix q b assume "(q, b) \<in> cached (mCache (h1\<lparr>mCache := c\<rparr>))"
  then have q: "(q, b) \<in> cached c" "q \<in> set xs" and *: "\<exists>ob. mObjs h q = Some ob \<and> mBody ob = b"
    using inv sub(1) by (auto simp: cache_inv_def)
  then obtain o1 where o1: "mObjs h q = Some o1" "mBody o1 = b"
    by blast
  then have "q \<noteq> p"
    using q(1) ob sub(2) by auto
  moreover obtain o2 where "mObjs h1 q = Some o2" "mBody o2 = mBody o1"
    using core_eqD(2) [OF _ o1(1), of h1] core by auto
  ultimately show "q \<in> set xs1 \<and> (\<exists>ob. mObjs (h1\<lparr>mCache := c\<rparr>) q = Some ob \<and> mBody ob = b)"
    using o1(2) q(2) xs1 by auto
qed

locale object_class =
  fixes refs :: "'b \<Rightarrow> nat list option"
    and pre :: "'b \<Rightarrow> nat \<Rightarrow> 'c \<Rightarrow> 'c"
    and cache_ok :: "'c \<Rightarrow> bool"
    and cached :: "'c \<Rightarrow> (nat \<times> 'b) set"
  assumes pre_ok: "cache_ok c \<Longrightarrow> cache_ok (pre b p c)"
    and pre_cached: "cached (pre b p c) \<subseteq> cached c"
    and pre_erases: "cache_ok c \<Longrightarrow> (p, b) \<notin> cached (pre b p c)"
begin

abbreviation inv where
  "inv \<equiv> ref_inv refs cache_ok cached"

abbreviation dec_spec where
  "dec_spec dec n \<equiv> \<forall>h xs ext p. inv h xs ext \<longrightarrow> p \<in># ext \<longrightarrow> length xs < n \<longrightarrow>
     (\<exists>h' xs' b. dec h p = Some (h', b) \<and> inv h' xs' (ext - {#p#}) \<and> survives h xs h' xs' \<and>
        (b \<longleftrightarrow> p \<notin> set xs'))"

lemma destroy_refs_safe:
  assumes "dec_spec dec n" "inv h xs (ext + mset qs)" "length xs < n"
  shows "\<exists>h' xs'. destroy_refs dec h qs = Some h' \<and> inv h' xs' ext \<and> survives h xs h' xs'"
  using assms(2,3)
proof (induction qs arbitrary: h xs)
  case Nil
  then show ?case
    by (auto simp: ref_inv_def counts_ok_def intro: survives_refl)
next
  case (Cons q qs)
  have "q \<in># ext + mset (q # qs)"
    by simp
  then obtain h1 xs1 b where 1: "dec h q = Some (h1, b)" "inv h1 xs1 (ext + mset qs)" "survives h xs h1 xs1"
    using assms(1) Cons.prems by fastforce
  moreover have "length xs1 < n"
    using survivesD(2) [OF 1(3)] Cons.prems(2) by simp
  ultimately obtain h2 xs2 where "destroy_refs dec h1 qs = Some h2" "inv h2 xs2 ext" "survives h1 xs1 h2 xs2"
    using Cons.IH by blast
  then show ?case
    using 1 by (auto intro: survives_trans)
qed

lemma checkDelete_with_safe:
  assumes dec: "dec_spec dec n" and inv: "inv h xs ext" and p: "p \<in> set xs" "length xs \<le> n"
    and ob: "mObjs h p = Some ob"
  shows "\<exists>h' xs' b. checkDelete_with dec refs pre h (Some p) = Some (h', b) \<and> inv h' xs' ext \<and>
    survives h xs h' xs' \<and> (b \<longleftrightarrow> p \<notin> set xs') \<and>
    (b \<longleftrightarrow> mUserRefCount ob = 0 \<and> mSysRefCount ob = 0)"
proof (cases "mUserRefCount ob = 0 \<and> mSysRefCount ob = 0")
  case False
  then show ?thesis
    using ob inv p by (auto simp: checkDelete_with_def ref_inv_def counts_ok_def intro!: survives_refl)
next
  case True
  have ok: "counts_ok (refs_of refs) h xs ext"
    using inv by (simp add: ref_inv_def)
  obtain h1 where h1: "obj_remove h p = Some h1" "core h1 = core h" "mCache h1 = mCache h"
      "\<forall>q. q \<notin> set xs \<longrightarrow> mObjs h1 q = mObjs h q"
      "counts_ok (refs_of refs) h1 (remove1 p xs) (ext + mset (refs_of refs (mBody ob)))"
    using counts_ok_unlink [OF ok p(1) ob] True by blast
  have dist: "distinct xs"
    using ok by (simp add: counts_ok_def linked_def)
  then have set1: "set (remove1 p xs) = set xs - {p}"
    by simp
  have len1: "length (remove1 p xs) < n"
    using p(2) length_pos_if_in_set [OF p(1)] by (simp only: length_remove1 p(1) if_True)
  let ?h2 = "h1\<lparr>mCache := pre (mBody ob) p (mCache h1)\<rparr>"
  have "inv ?h2 (remove1 p xs) (ext + mset (refs_of refs (mBody ob)))"
  proof -
    have "counts_ok (refs_of refs) ?h2 (remove1 p xs) (ext + mset (refs_of refs (mBody ob)))"
      using h1(5) by (simp add: counts_ok_def held_def obj_refs_def linked_def lnk_def [abs_def])
    moreover have "cache_inv cached ?h2 (remove1 p xs)"
      using inv h1(3) pre_cached pre_erases
      by (intro cache_inv_unlink [OF _ ob h1(2,3) _ _ set1]) (auto simp: ref_inv_def)
    moreover have "readable refs ?h2 (remove1 p xs)"
      using inv by (intro readable_core [OF _ h1(2)]) (auto simp: ref_inv_def set1)
    ultimately show ?thesis
      using inv h1(3) pre_ok by (simp add: ref_inv_def)
  qed
  then obtain h3 xs3 where h3: "destroy_refs dec ?h2 (refs_of refs (mBody ob)) = Some h3" "inv h3 xs3 ext"
      "survives ?h2 (remove1 p xs) h3 xs3"
    using destroy_refs_safe [OF dec _ len1] by blast
  let ?h4 = "h3\<lparr>mObjs := (mObjs h3)(p := None)\<rparr>"
  have p3: "p \<notin> set xs3"
    using survivesD(1) [OF h3(3)] set1 by auto
  have "inv ?h4 xs3 ext"
    using h3(2) counts_ok_free [OF _ p3, of "refs_of refs" h3] cache_inv_free [OF _ p3, of cached h3]
      readable_free [of refs h3 xs3 p]
    by (simp add: ref_inv_def)
  moreover have "survives h xs ?h4 xs3"
    using h1(2,4) h3(3) set1
    by (intro survives_delete [OF ob conjunct1 [OF True] p(1), where ?h1.0 = ?h2])
      (simp_all add: core_def [abs_def] length_remove1)
  moreover obtain qs where "refs (mBody ob) = Some qs"
    using inv p(1) ob by (auto simp: ref_inv_def readable_def)
  ultimately show ?thesis
    using True ob h1(1) h3(1) p3
    by (intro exI [of _ ?h4] exI [of _ xs3] exI [of _ True]) (simp add: checkDelete_with_def Let_def)
qed

text \<open>Dropping a system reference that is accounted for never touches freed memory.\<close>

lemma dec_spec_decSysRef: "dec_spec (decSysRef refs pre n) n"
proof (induction n)
  case (Suc n)
  show ?case
  proof (intro allI impI)
    fix h xs ext p assume inv: "inv h xs ext" and p: "p \<in># ext" and len: "length xs < Suc n"
    have ok: "counts_ok (refs_of refs) h xs ext"
      using inv by (simp add: ref_inv_def)
    have px: "p \<in> set xs"
      using counts_okD(2) [OF ok] p by auto
    obtain ob where ob: "mObjs h p = Some ob"
      using linked_dom [OF counts_okD(1) [OF ok] px] by blast
    let ?h = "h\<lparr>mObjs := (mObjs h)(p \<mapsto> ob\<lparr>mSysRefCount := mSysRefCount ob - 1\<rparr>)\<rparr>"
    have inv1: "inv ?h xs (ext - {#p#})"
      using counts_ok_dec [OF ok ob p] inv cache_inv_upd [OF _ ob] readable_upd [OF _ ob] by (simp add: ref_inv_def)
    have s1: "survives h xs ?h xs"
      by (rule survives_sys [OF ob px])
    show "\<exists>h' xs' b. decSysRef refs pre (Suc n) h p = Some (h', b) \<and> inv h' xs' (ext - {#p#}) \<and>
        survives h xs h' xs' \<and> (b \<longleftrightarrow> p \<notin> set xs')"
    proof (cases "mSysRefCount ob \<le> 1 \<and> mUserRefCount ob \<le> 0")
      case True
      obtain h' xs' b where "checkDelete_with (decSysRef refs pre n) refs pre ?h (Some p) = Some (h', b)"
          "inv h' xs' (ext - {#p#})" "survives ?h xs h' xs'" "b \<longleftrightarrow> p \<notin> set xs'"
        using checkDelete_with_safe [OF Suc inv1 px, of "ob\<lparr>mSysRefCount := mSysRefCount ob - 1\<rparr>"] len
        by auto
      then show ?thesis
        using True ob s1 by (auto simp: upd_obj_def intro: survives_trans)
    next
      case False
      then show ?thesis
        using ob s1 inv1 px by (auto simp: upd_obj_def)
    qed
  qed
qed simp

lemma decSysRef_safe:
  assumes "inv h xs ext" "p \<in># ext" "length xs < n"
  shows "\<exists>h' xs' b. decSysRef refs pre n h p = Some (h', b) \<and> inv h' xs' (ext - {#p#}) \<and>
    survives h xs h' xs' \<and> (b \<longleftrightarrow> p \<notin> set xs')"
  using dec_spec_decSysRef [of n] assms by blast

lemma checkDelete_safe:
  assumes "inv h xs ext" "p \<in> set xs" "mObjs h p = Some ob" "length xs \<le> n"
  shows "\<exists>h' xs' b. checkDelete refs pre n h (Some p) = Some (h', b) \<and> inv h' xs' ext \<and>
    survives h xs h' xs' \<and> (b \<longleftrightarrow> p \<notin> set xs') \<and>
    (b \<longleftrightarrow> mUserRefCount ob = 0 \<and> mSysRefCount ob = 0)"
  unfolding checkDelete_def
  by (rule checkDelete_with_safe [OF dec_spec_decSysRef assms(1,2,4,3)])

text \<open>Dropping a user reference: the object goes exactly when it was the last of either kind.\<close>

lemma decUserRef_safe:
  assumes inv: "inv h xs ext" and p: "p \<in> set xs" "mObjs h p = Some ob" "0 < mUserRefCount ob"
    and len: "length xs \<le> n"
  shows "\<exists>h' xs' b. decUserRef refs pre n h p = Some (h', b) \<and> inv h' xs' ext \<and>
    set xs' \<subseteq> set xs \<and> (b \<longleftrightarrow> p \<notin> set xs') \<and>
    (b \<longleftrightarrow> mUserRefCount ob = 1 \<and> mSysRefCount ob = 0) \<and>
    (\<not> b \<longrightarrow> xs' = xs)"
proof -
  let ?o = "ob\<lparr>mUserRefCount := mUserRefCount ob - 1\<rparr>"
  let ?h = "h\<lparr>mObjs := (mObjs h)(p \<mapsto> ?o)\<rparr>"
  have ok: "counts_ok (refs_of refs) h xs ext"
    using inv by (simp add: ref_inv_def)
  have inv1: "inv ?h xs ext"
    using counts_ok_user [OF ok p(2)] p(3) inv cache_inv_upd [OF _ p(2)] readable_upd [OF _ p(2)]
    by (simp add: ref_inv_def)
  have nn: "0 \<le> mSysRefCount ob"
    using counts_okD(5) [OF ok p(1,2)] by simp
  obtain h' xs' b where c: "checkDelete refs pre n ?h (Some p) = Some (h', b)" "inv h' xs' ext"
      "survives ?h xs h' xs'" "b \<longleftrightarrow> p \<notin> set xs'" "b \<longleftrightarrow> mUserRefCount ?o = 0 \<and> mSysRefCount ?o = 0"
    using checkDelete_safe [OF inv1 p(1), of ?o n] len by auto
  show ?thesis
  proof (cases "mUserRefCount ob = 1 \<and> mSysRefCount ob = 0")
    case True
    then show ?thesis
      using c p(2) survivesD(1) [OF c(3)] by (auto simp: decUserRef_def upd_obj_def)
  next
    case False
    then have "\<not> (mUserRefCount ob \<le> 1 \<and> mSysRefCount ob \<le> 0)"
      using p(3) nn by auto
    then show ?thesis
      using inv1 p False by (auto simp: decUserRef_def upd_obj_def)
  qed
qed

lemma zeroUserRef_safe:
  assumes inv: "inv h xs ext" and p: "p \<in> set xs" "mObjs h p = Some ob" and len: "length xs \<le> n"
  defines "h0 \<equiv> h\<lparr>mObjs := (mObjs h)(p \<mapsto> ob\<lparr>mUserRefCount := 0\<rparr>)\<rparr>"
  shows "inv h0 xs ext"
    and "mSysRefCount ob \<noteq> 0 \<Longrightarrow> zeroUserRef refs pre n h p = Some (h0, False) \<and> 0 < mSysRefCount ob"
    and "mSysRefCount ob = 0 \<Longrightarrow> \<exists>h' xs'. zeroUserRef refs pre n h p = Some (h', True) \<and>
      inv h' xs' ext \<and> survives h0 xs h' xs' \<and> p \<notin> set xs'"
proof -
  let ?o = "ob\<lparr>mUserRefCount := 0\<rparr>"
  have ok: "counts_ok (refs_of refs) h xs ext"
    using inv by (simp add: ref_inv_def)
  show inv1: "inv h0 xs ext"
    using counts_ok_user [OF ok p(2), of 0] inv cache_inv_upd [OF _ p(2)] readable_upd [OF _ p(2)]
    by (simp add: ref_inv_def h0_def)
  have nn: "0 \<le> mSysRefCount ob"
    using counts_okD(5) [OF ok p(1,2)] by simp
  show "mSysRefCount ob \<noteq> 0 \<Longrightarrow> zeroUserRef refs pre n h p = Some (h0, False) \<and> 0 < mSysRefCount ob"
    using nn p(2) by (simp add: zeroUserRef_def upd_obj_def h0_def)
  have o0: "mObjs h0 p = Some ?o"
    by (simp add: h0_def)
  show "\<exists>h' xs'. zeroUserRef refs pre n h p = Some (h', True) \<and>
      inv h' xs' ext \<and> survives h0 xs h' xs' \<and> p \<notin> set xs'" if "mSysRefCount ob = 0"
    using checkDelete_safe [OF inv1 p(1) o0 len] that p(2)
    by (auto simp: zeroUserRef_def upd_obj_def h0_def)
qed

text \<open>
  The clean-up scan at context destruction: it ends, and when no system reference is left
  outside and references are acyclic it leaves nothing behind.
\<close>

lemma zeroAll_loop_ends:
  assumes "inv h (ds @ rs) ext" "length (ds @ rs) \<le> n" "older_refs refs h (ds @ rs)" "settled h ds"
    and "length (ds @ rs) * length (ds @ rs) + length rs \<le> m"
  shows "\<exists>h' xs'. zeroAll_loop refs pre n m h (head_opt rs) = Some h' \<and> inv h' xs' ext \<and>
    older_refs refs h' xs' \<and> settled h' xs'"
  using assms
proof (induction m arbitrary: h ds rs)
  case 0
  then show ?case
    by (cases rs) auto
next
  case (Suc m)
  show ?case
  proof (cases rs)
    case Nil
    then show ?thesis
      using Suc.prems by auto
  next
    case (Cons p rest)
    let ?xs = "ds @ p # rest"
    have inv: "inv h ?xs ext" and len: "length ?xs \<le> n" and old: "older_refs refs h ?xs"
      and px: "p \<in> set ?xs"
      using Suc.prems Cons by simp_all
    have lk: "linked h ?xs"
      using inv by (simp add: ref_inv_def counts_ok_def)
    obtain ob where ob: "mObjs h p = Some ob"
      using linked_dom [OF lk px] by blast
    let ?h0 = "h\<lparr>mObjs := (mObjs h)(p \<mapsto> ob\<lparr>mUserRefCount := 0\<rparr>)\<rparr>"
    note z = zeroUserRef_safe [OF inv px ob len] and old0 = older_refs_user [OF old ob, of 0]
    show ?thesis
    proof (cases "mSysRefCount ob = 0")
      case True
      obtain h' xs' where h': "zeroUserRef refs pre n h p = Some (h', True)" "inv h' xs' ext"
          "survives ?h0 ?xs h' xs'" "p \<notin> set xs'"
        using z(3) [OF True] by blast
      have lk': "linked h' xs'" "linked ?h0 ?xs"
        using h'(2) z(1) by (simp_all add: ref_inv_def counts_ok_def)
      have "length xs' < length ?xs"
        using survivesD(1) [OF h'(3)] h'(4) lk' px
        by (intro distinct_subset_less [where p = p]) (simp_all add: linked_def)
      then have "length xs' * length xs' + length xs' \<le> m" "length xs' \<le> n"
        using Suc.prems(5) len Cons square_drop [of "length xs'" "length ?xs"] by simp_all
      then show ?thesis
        using Suc.IH [of h' "[]" xs'] h'(1,2) older_refs_survives [OF old0 h'(3) lk'(2)] Cons
        by (simp add: linked_head [OF lk'(1)] settled_def [of _ "[]"])
    next
      case False
      have "mNext (ob\<lparr>mUserRefCount := 0\<rparr>) = head_opt rest"
        using linked_next [OF lk ob] by simp
      moreover have "settled ?h0 (ds @ [p])"
        using Suc.prems(4) ob z(2) [OF False] by (intro settled_snoc) simp_all
      ultimately show ?thesis
        using Suc.IH [of ?h0 "ds @ [p]" rest] z(1) z(2) [OF False] old0 len Suc.prems(5) Cons by simp
    qed
  qed
qed

lemma zeroAllUserRef_frees_all:
  assumes inv: "inv h xs {#}" and old: "older_refs refs h xs"
    and fuel: "length xs \<le> n" "length xs * length xs + length xs \<le> m"
  shows "\<exists>h'. zeroAllUserRef refs pre n m h = Some h' \<and> inv h' [] {#}"
proof -
  have "mObjHead h = head_opt xs"
    using inv by (intro linked_head) (simp add: ref_inv_def counts_ok_def)
  then obtain h' xs' where h': "zeroAllUserRef refs pre n m h = Some h'" "inv h' xs' {#}"
      "older_refs refs h' xs'" "settled h' xs'"
    using zeroAll_loop_ends [of h "[]" xs "{#}" n m] inv old fuel
    by (auto simp: zeroAllUserRef_def settled_def)
  then have "xs' = []"
    by (intro no_reference_cycle [of refs h']) (simp_all add: ref_inv_def)
  with h' show ?thesis
    by auto
qed

end

end
