(* ===== verification/Rs_Objects.thy ===== *)
theory Rs_Objects
  imports Rs_Component Rs_ObjectBase
begin

text \<open>
  The data of the runtime's core classes (\<^verbatim>\<open>rsElement.h\<close>, \<^verbatim>\<open>rsType.h\<close>, \<^verbatim>\<open>rsAllocation.h\<close>) and
  the part of \<open>Context\<close> they share: the caches of live elements and types, the error state and
  the allocator of the driver.

  Elements and types are immutable once they are built, so the model passes them as values;
  the field \<open>eId\<close>, \<open>tId\<close> or \<open>aId\<close> is the address of the object, and comparing two pointers
  compares these. The reference counts and names live in the object heap of
  \<^verbatim>\<open>Rs_ObjectBase\<close>, under that address, with the object as the body.
\<close>

section \<open>Elements\<close>

text \<open>\<open>Element::ElementField_t\<close> and \<open>Element\<close>\<close>

datatype 'e ElementField = ElementField (fName: "u8 list") (fE: 'e) (fOffsetBits: u32)
  (fOffsetBitsUnpadded: u32) (fArraySize: u32)

datatype Element = Element (eId: nat) (eComponent: Component) (eFields: "Element ElementField list")
  (eBits: u32) (eBitsUnpadded: u32) (eHasReference: bool)

section \<open>Types\<close>

text \<open>\<open>Type::Hal::State\<close> with \<open>mDimLOD\<close> and \<open>mCellCount\<close>; \<open>None\<close> is an entry never written.\<close>

record Type =
  tId :: nat
  tElement :: Element
  tDimX :: u32
  tDimY :: u32
  tDimZ :: u32
  tLodDimX :: "u32 option list"
  tLodDimY :: "u32 option list"
  tLodDimZ :: "u32 option list"
  tArrays :: "u32 option list"
  tLodCount :: u32
  tDimYuv :: u32
  tArrayCount :: u32
  tFaces :: bool
  tDimLOD :: bool
  tCellCount :: u64

text \<open>\<open>RsTypeCreateParams\<close>; the element is passed separately by every caller.\<close>

record RsTypeCreateParams =
  pDimX :: u32
  pDimY :: u32
  pDimZ :: u32
  pMipmaps :: bool
  pFaces :: bool
  pYuv :: u32
  pArray0 :: u32
  pArray1 :: u32
  pArray2 :: u32
  pArray3 :: u32

section \<open>Allocations\<close>

text \<open>\<open>Allocation::Hal::DrvState\<close>; pointers are addresses, with 0 the null pointer.\<close>

record LodState =
  lMallocPtr :: nat
  lStride :: u64
  lDimX :: u32
  lDimY :: u32
  lDimZ :: u32

record DrvState =
  dLod :: "LodState list"
  dFaceOffset :: u64
  dLodCount :: u32
  dFaceCount :: u32
  dYuvShift :: u32
  dYuvStep :: u32

text \<open>
  \<open>Allocation::Hal\<close>, with the two fields of the CPU driver's \<open>DrvAllocation\<close> it keeps. Of the memory
  behind its pointers the model keeps what the runtime itself reads: \<open>aMem\<close> gives the object pointer
  stored at an address (0 for null), and \<open>None\<close> outside the block.
\<close>

record Allocation =
  aId :: nat
  aType :: Type
  aUsageFlags :: u32
  aMipmapControl :: u32
  aYuv :: u32
  aElementSizeBytes :: u32
  aHasMipmaps :: bool
  aHasFaces :: bool
  aHasReferences :: bool
  aUserProvidedPtr :: nat
  aBaseAlloc :: "nat option"
  aOriginX :: u32
  aOriginY :: u32
  aOriginZ :: u32
  aOriginLOD :: u32
  aOriginFace :: u32
  aOriginArray :: "u32 list"
  aDrvState :: DrvState
  aUseUserProvidedPtr :: bool
  aUploadDeferred :: bool
  aMem :: "nat \<Rightarrow> nat option"

section \<open>The context\<close>

datatype RsError = RS_ERROR_NONE | RS_ERROR_BAD_SHADER | RS_ERROR_BAD_SCRIPT | RS_ERROR_BAD_VALUE
  | RS_ERROR_OUT_OF_MEMORY | RS_ERROR_DRIVER | RS_ERROR_FATAL_DEBUG | RS_ERROR_FATAL_UNKNOWN
  | RS_ERROR_FATAL_DRIVER | RS_ERROR_FATAL_PROGRAM_LINK

definition error_val :: "RsError \<Rightarrow> u32" where
  "error_val e = (case e of RS_ERROR_NONE \<Rightarrow> 0 | RS_ERROR_BAD_SHADER \<Rightarrow> 1 | RS_ERROR_BAD_SCRIPT \<Rightarrow> 2
     | RS_ERROR_BAD_VALUE \<Rightarrow> 3 | RS_ERROR_OUT_OF_MEMORY \<Rightarrow> 4 | RS_ERROR_DRIVER \<Rightarrow> 5
     | RS_ERROR_FATAL_DEBUG \<Rightarrow> 0x0800 | RS_ERROR_FATAL_UNKNOWN \<Rightarrow> 0x1000
     | RS_ERROR_FATAL_DRIVER \<Rightarrow> 0x1001 | RS_ERROR_FATAL_PROGRAM_LINK \<Rightarrow> 0x1002)"

text \<open>
  \<open>mToClient\<close> is what \<open>sendMessageToClient\<close> has queued. \<open>mNextAddr\<close> and \<open>mAvail\<close> stand for the
  C library's allocator behind \<open>rsdAllocRuntimeMem\<close>: a request is answered with an address not
  used before, or, when the memory for \<open>mAvail\<close> further objects is used up, with null.
\<close>

record RsState =
  mElements :: "Element list"
  mTypes :: "Type list"
  mError :: RsError
  mFatalErrorOccured :: bool
  mToClient :: "RsError list"
  mNextAddr :: nat
  mAvail :: nat

datatype RsBody = BElement Element | BType Type | BAllocation Allocation

type_synonym RsContext = "(RsBody, RsState) Context"

text \<open>\<open>Context::setError\<close>\<close>

definition setError :: "RsContext \<Rightarrow> RsError \<Rightarrow> RsContext" where
  "setError h e = h\<lparr>mCache := (mCache h)\<lparr>mError := e,
     mFatalErrorOccured := (mFatalErrorOccured (mCache h) \<or> error_val e \<ge> error_val RS_ERROR_FATAL_DEBUG),
     mToClient := mToClient (mCache h) @ [e]\<rparr>\<rparr>"

text \<open>\<open>rsdAllocRuntimeMem\<close>\<close>

definition allocRuntimeMem :: "RsContext \<Rightarrow> (RsContext \<times> nat option)" where
  "allocRuntimeMem h =
     (if mAvail (mCache h) = 0 then (h, None)
      else (h\<lparr>mCache := (mCache h)\<lparr>mNextAddr := mNextAddr (mCache h) + 1,
                mAvail := mAvail (mCache h) - 1\<rparr>\<rparr>, Some (mNextAddr (mCache h))))"

section \<open>References stored in cells\<close>

definition getSizeBits :: "Element \<Rightarrow> u64" where
  "getSizeBits e = (if eFields e = [] then ucast (eBits e)
     else fold (\<lambda>f total. total + ucast (eBits (fE f) * fArraySize f)) (eFields e) 0)"

definition getSizeBytes :: "Element \<Rightarrow> u64" where
  "getSizeBytes e = drop_bit 3 (getSizeBits e + 7)"

abbreviation fields_size :: "Element ElementField list \<Rightarrow> nat" where
  "fields_size fs \<equiv> size_list (size_ElementField size) fs"

text \<open>
  \<open>Element::incRefs\<close> and \<open>Element::decRefs\<close> visit the same object pointers, those stored in a
  cell at \<open>p\<close>; \<open>rd\<close> reads a pointer from memory, with 0 for null.
\<close>

function (sequential) cell_refs :: "(nat \<Rightarrow> nat option) \<Rightarrow> Element \<Rightarrow> nat \<Rightarrow> nat list option"
  and fields_refs :: "(nat \<Rightarrow> nat option) \<Rightarrow> Element ElementField list \<Rightarrow> nat \<Rightarrow> nat list option"
  and array_refs :: "(nat \<Rightarrow> nat option) \<Rightarrow> Element \<Rightarrow> nat \<Rightarrow> nat \<Rightarrow> nat list option" where
  "cell_refs rd (Element i c fs b bu r) p =
     (if fs = [] then
        (if Component_isReference c then do { q \<leftarrow> rd p; Some (if q = 0 then [] else [q]) } else Some [])
      else fields_refs rd fs p)"
| "fields_refs rd [] p = Some []"
| "fields_refs rd (ElementField n e ob obu a # fs) p = do {
     xs \<leftarrow> (if eHasReference e then array_refs rd e (unat a) (p + unat (drop_bit 3 ob)) else Some []);
     ys \<leftarrow> fields_refs rd fs p;
     Some (xs @ ys) }"
| "array_refs rd e 0 p = Some []"
| "array_refs rd e (Suc k) p = do {
     xs \<leftarrow> cell_refs rd e p;
     ys \<leftarrow> array_refs rd e k (p + unat (getSizeBytes e));
     Some (xs @ ys) }"
  by pat_completeness auto

termination cell_refs
  by (relation "measures
      [case_sum (\<lambda>(_, e, _). size e) (case_sum (\<lambda>(_, fs, _). fields_size fs) (\<lambda>(_, e, _, _). size e)),
       case_sum (\<lambda>_. 0) (case_sum (\<lambda>_. 0) (\<lambda>(_, _, k, _). Suc k))]") auto

text \<open>
  The objects referred to by \<open>ct\<close> cells from \<open>startOff\<close> on, which \<open>Type::incRefs\<close> and
  \<open>Type::decRefs\<close> visit; the stride is cut to 32 bits.
\<close>

fun cells_refs :: "(nat \<Rightarrow> nat option) \<Rightarrow> Element \<Rightarrow> nat \<Rightarrow> nat \<Rightarrow> nat \<Rightarrow> nat list option" where
  "cells_refs rd e stride 0 p = Some []"
| "cells_refs rd e stride (Suc ct) p = do {
     xs \<leftarrow> cell_refs rd e p;
     ys \<leftarrow> cells_refs rd e stride ct (p + stride);
     Some (xs @ ys) }"

definition Type_decRefs :: "(nat \<Rightarrow> nat option) \<Rightarrow> Type \<Rightarrow> nat \<Rightarrow> nat \<Rightarrow> nat \<Rightarrow> nat list option" where
  "Type_decRefs rd t ptr ct startOff =
     (if \<not> eHasReference (tElement t) then Some []
      else (let stride = unat (ucast (getSizeBytes (tElement t)) :: u32) in
        cells_refs rd (tElement t) stride ct (ptr + stride * startOff)))"

section \<open>What the destructors do\<close>

text \<open>
  The references that the destructor of each class drops, in the order it drops them. The fields of
  an element are destroyed by \<open>delete[]\<close>, last first; a type clears its element.
\<close>

definition Element_clear :: "Element \<Rightarrow> nat list" where
  "Element_clear e = rev (map (\<lambda>f. eId (fE f)) (eFields e))"

definition Type_clear :: "Type \<Rightarrow> nat list" where
  "Type_clear t = [eId (tElement t)]"

text \<open>
  The destructor of an allocation drops the objects that its cells refer to, found by a walk over its
  memory, and then its member \<open>mType\<close>. The walk starts at the pointer that \<open>rsdAllocationLock1D\<close> returns.
\<close>

definition RS_ALLOCATION_USAGE_SCRIPT :: u32 where "RS_ALLOCATION_USAGE_SCRIPT = 1"

definition getIsScript :: "Allocation \<Rightarrow> bool" where
  "getIsScript a \<longleftrightarrow> and (aUsageFlags a) RS_ALLOCATION_USAGE_SCRIPT \<noteq> 0"

definition rsdAllocationLock1D :: "Allocation \<Rightarrow> nat option" where
  "rsdAllocationLock1D a = (case dLod (aDrvState a) of [] \<Rightarrow> None | l # _ \<Rightarrow> Some (lMallocPtr l))"

definition Allocation_decRefs :: "Allocation \<Rightarrow> nat \<Rightarrow> nat \<Rightarrow> nat \<Rightarrow> nat list option" where
  "Allocation_decRefs a ptr ct startOff =
     (if \<not> aHasReferences a \<or> \<not> getIsScript a then Some [] else Type_decRefs (aMem a) (aType a) ptr ct startOff)"

definition freeChildrenUnlocked :: "Allocation \<Rightarrow> nat list option" where
  "freeChildrenUnlocked a = do {
     ptr \<leftarrow> rsdAllocationLock1D a;
     Allocation_decRefs a ptr (unat (tCellCount (aType a))) 0 }"

definition Allocation_destroy :: "Allocation \<Rightarrow> nat list option" where
  "Allocation_destroy a = do { qs \<leftarrow> freeChildrenUnlocked a; Some (qs @ [tId (aType a)]) }"

definition body_refs :: "RsBody \<Rightarrow> nat list option" where
  "body_refs b = (case b of BElement e \<Rightarrow> Some (Element_clear e) | BType t \<Rightarrow> Some (Type_clear t)
     | BAllocation a \<Rightarrow> Allocation_destroy a)"

text \<open>\<open>Element::preDestroy\<close> and \<open>Type::preDestroy\<close>: erase the first entry that is this object.\<close>

fun erase_first :: "('a \<Rightarrow> nat) \<Rightarrow> nat \<Rightarrow> 'a list \<Rightarrow> 'a list" where
  "erase_first k p [] = []"
| "erase_first k p (x # xs) = (if k x = p then xs else x # erase_first k p xs)"

definition preDestroy :: "RsBody \<Rightarrow> nat \<Rightarrow> RsState \<Rightarrow> RsState" where
  "preDestroy b p c = (case b of
       BElement e \<Rightarrow> c\<lparr>mElements := erase_first eId p (mElements c)\<rparr>
     | BType t \<Rightarrow> c\<lparr>mTypes := erase_first tId p (mTypes c)\<rparr>
     | BAllocation a \<Rightarrow> c)"

text \<open>
  \<open>freeChildren\<close>, virtual, which only allocations of references implement among the classes here, and
  the loop of \<open>ObjectBase::freeAllChildren\<close>; \<open>n\<close> bounds the cascades of destructors and \<open>m\<close> the iterations.
\<close>

definition freeChildren :: "nat \<Rightarrow> RsContext \<Rightarrow> nat \<Rightarrow> (RsContext \<times> bool) option" where
  "freeChildren n h p = do {
     ob \<leftarrow> mObjs h p;
     (case mBody ob of
        BAllocation a \<Rightarrow>
          if aHasReferences a then do {
            h \<leftarrow> incSysRef h p;
            qs \<leftarrow> freeChildrenUnlocked a;
            h \<leftarrow> destroy_refs (decSysRef body_refs preDestroy n) h qs;
            decSysRef body_refs preDestroy n h p }
          else Some (h, False)
      | _ \<Rightarrow> Some (h, False)) }"

fun freeAll_loop :: "nat \<Rightarrow> nat \<Rightarrow> RsContext \<Rightarrow> nat option \<Rightarrow> RsContext option" where
  "freeAll_loop n m h None = Some h"
| "freeAll_loop n 0 h (Some p) = None"
| "freeAll_loop n (Suc m) h (Some p) = do {
     (h, deleted) \<leftarrow> freeChildren n h p;
     if deleted then freeAll_loop n m h (mObjHead h)
     else do { ob \<leftarrow> mObjs h p; freeAll_loop n m h (mNext ob) } }"

definition freeAllChildren :: "nat \<Rightarrow> nat \<Rightarrow> RsContext \<Rightarrow> RsContext option" where
  "freeAllChildren n m h = freeAll_loop n m h (mObjHead h)"

section \<open>The caches list live objects\<close>

definition caches_ok :: "RsState \<Rightarrow> bool" where
  "caches_ok c \<longleftrightarrow> distinct (map eId (mElements c)) \<and> distinct (map tId (mTypes c))"

definition cached :: "RsState \<Rightarrow> (nat \<times> RsBody) set" where
  "cached c = (\<lambda>e. (eId e, BElement e)) ` set (mElements c) \<union> (\<lambda>t. (tId t, BType t)) ` set (mTypes c)"

lemma set_erase_first: "set (erase_first k p xs) \<subseteq> set xs"
  by (induction xs) auto

lemma distinct_erase_first: "distinct (map k xs) \<Longrightarrow> distinct (map k (erase_first k p xs))"
  using set_erase_first by (induction xs) fastforce+

lemma erase_first_key: "distinct (map k xs) \<Longrightarrow> x \<in> set (erase_first k p xs) \<Longrightarrow> k x \<noteq> p"
proof (induction xs)
  case (Cons y ys)
  then show ?case
    by (cases "k y = p") (simp, metis image_eqI, auto)
qed simp

text \<open>The runtime's classes satisfy the contract that the object base asks of a class.\<close>

interpretation rsobj: object_class body_refs preDestroy caches_ok cached
proof
  fix c b p
  show "caches_ok c \<Longrightarrow> caches_ok (preDestroy b p c)"
    by (auto simp: caches_ok_def preDestroy_def distinct_erase_first split: RsBody.split)
  show "cached (preDestroy b p c) \<subseteq> cached c"
    by (cases b) (auto simp: cached_def preDestroy_def dest: subsetD [OF set_erase_first])
  show "caches_ok c \<Longrightarrow> (p, b) \<notin> cached (preDestroy b p c)"
    by (auto simp: caches_ok_def cached_def preDestroy_def split: RsBody.split dest: erase_first_key)
qed

section \<open>Properties\<close>

text \<open>A context as \<open>createContext\<close> leaves it, with memory for \<open>n\<close> objects.\<close>

definition empty_context :: "nat \<Rightarrow> RsContext" where
  "empty_context n = \<lparr>mObjHead = None, mObjs = Map.empty, mCache = \<lparr>mElements = [], mTypes = [],
     mError = RS_ERROR_NONE, mFatalErrorOccured = False, mToClient = [], mNextAddr = 1, mAvail = n\<rparr>\<rparr>"

abbreviation objects_ok :: "RsContext \<Rightarrow> nat list \<Rightarrow> nat multiset \<Rightarrow> bool" where
  "objects_ok \<equiv> ref_inv body_refs caches_ok cached"

lemma objects_ok_empty: "objects_ok (empty_context n) [] {#}"
  by (simp add: empty_context_def ref_inv_def counts_ok_def linked_def caches_ok_def cache_inv_def cached_def readable_def)

abbreviation demo_element :: Element where
  "demo_element \<equiv> Element 1 (Component_new 0) [] 0 0 False"

text \<open>One object, referred to once from outside: what the examples below start from.\<close>

lemma one_object:
  "\<exists>h ob. objects_ok h [1] {#1#} \<and> mObjs h 1 = Some ob \<and> mUserRefCount ob = 0 \<and> mBody ob = BElement demo_element"
proof -
  have ok: "counts_ok (refs_of body_refs) (empty_context 0) [] {#}" "1 \<notin> dom (mObjs (empty_context 0))"
    using objects_ok_empty by (simp_all add: ref_inv_def empty_context_def)
  obtain h1 h2 where h2: "incSysRefs h1 [1] = Some h2" "counts_ok (refs_of body_refs) h2 [1] {#1#}"
      "mCache h2 = mCache (empty_context 0)"
      "core h2 = (\<lambda>q. map_option (\<lambda>(nm, s, u, b). (nm, s + int (count (mset [1]) q), u, b))
        (((core (empty_context 0))(1 \<mapsto> (None, 0, 0, BElement demo_element))) q))"
    using counts_ok_new [OF ok, of "[]" "BElement demo_element"] by (auto simp: body_refs_def Element_clear_def)
  have "core h2 1 = Some (None, 1, 0, BElement demo_element)"
    by (simp add: h2(4))
  then obtain ob where "mObjs h2 1 = Some ob" "mUserRefCount ob = 0" "mBody ob = BElement demo_element"
    by (auto simp: core_def)
  moreover have "objects_ok h2 [1] {#1#}"
    using h2(2,3) \<open>mObjs h2 1 = Some ob\<close> \<open>mBody ob = BElement demo_element\<close>
    by (simp add: ref_inv_def caches_ok_def cache_inv_def cached_def empty_context_def readable_def body_refs_def)
  ultimately show ?thesis
    by blast
qed

text \<open>
  A context with an element of object handles, a type of one cell and two allocations over it, whose
  cells hold the pointers \<open>p\<close> and \<open>q\<close> and which are referred to \<open>m\<close> and \<open>n\<close> times.
\<close>

definition handle_element :: Element where
  "handle_element = Element 2 ((Component_new 0)\<lparr>cType := RS_TYPE_ALLOCATION, cBits := 256\<rparr>) [] 256 256 True"

definition handle_type :: Type where
  "handle_type = \<lparr>tId = 3, tElement = handle_element, tDimX = 1, tDimY = 0, tDimZ = 0, tLodDimX = [Some 1],
     tLodDimY = [Some 0], tLodDimZ = [Some 0], tArrays = [], tLodCount = 1, tDimYuv = 0, tArrayCount = 0,
     tFaces = False, tDimLOD = False, tCellCount = 1\<rparr>"

definition handle_alloc :: "nat \<Rightarrow> nat \<Rightarrow> Allocation" where
  "handle_alloc i q = \<lparr>aId = i, aType = handle_type, aUsageFlags = RS_ALLOCATION_USAGE_SCRIPT, aMipmapControl = 0, aYuv = 0,
     aElementSizeBytes = 32, aHasMipmaps = False, aHasFaces = False, aHasReferences = True, aUserProvidedPtr = 0,
     aBaseAlloc = None, aOriginX = 0, aOriginY = 0, aOriginZ = 0, aOriginLOD = 0, aOriginFace = 0, aOriginArray = [],
     aDrvState = \<lparr>dLod = [\<lparr>lMallocPtr = 4096, lStride = 32, lDimX = 1, lDimY = 0, lDimZ = 0\<rparr>], dFaceOffset = 0, dLodCount = 1,
       dFaceCount = 0, dYuvShift = 0, dYuvStep = 0\<rparr>,
     aUseUserProvidedPtr = False, aUploadDeferred = False, aMem = (\<lambda>x. if x = 4096 then Some q else None)\<rparr>"

definition handle_object :: "int \<Rightarrow> nat option \<Rightarrow> nat option \<Rightarrow> RsBody \<Rightarrow> RsBody ObjectBase" where
  "handle_object s prev nxt b = \<lparr>mName = None, mSysRefCount = s, mUserRefCount = 0, mPrev = prev, mNext = nxt, mBody = b\<rparr>"

definition two_allocs :: "nat \<Rightarrow> nat \<Rightarrow> int \<Rightarrow> int \<Rightarrow> RsContext" where
  "two_allocs p q m n = \<lparr>mObjHead = Some 5, mObjs = [
     2 \<mapsto> handle_object 1 (Some 3) None (BElement handle_element),
     3 \<mapsto> handle_object 2 (Some 4) (Some 2) (BType handle_type),
     4 \<mapsto> handle_object m (Some 5) (Some 3) (BAllocation (handle_alloc 4 p)),
     5 \<mapsto> handle_object n None (Some 4) (BAllocation (handle_alloc 5 q))],
     mCache = \<lparr>mElements = [handle_element], mTypes = [handle_type],
       mError = RS_ERROR_NONE, mFatalErrorOccured = False, mToClient = [], mNextAddr = 6, mAvail = 0\<rparr>\<rparr>"

lemma handle_refs [simp]:
  "body_refs (BAllocation (handle_alloc i q)) = Some (if q = 0 then [3] else [q, 3])"
  "body_refs (BElement handle_element) = Some []" "body_refs (BType handle_type) = Some [2]"
  "freeChildrenUnlocked (handle_alloc i q) = Some (if q = 0 then [] else [q])" "aHasReferences (handle_alloc i q)"
  by (simp_all add: body_refs_def Allocation_destroy_def freeChildrenUnlocked_def rsdAllocationLock1D_def
      Allocation_decRefs_def getIsScript_def RS_ALLOCATION_USAGE_SCRIPT_def Type_decRefs_def handle_alloc_def handle_type_def
      handle_element_def Component_isReference_def dt_val_def RsDataType_table_def Element_clear_def Type_clear_def)

lemma two_allocs_sel:
  "mObjs (two_allocs p q m n) 2 = Some (handle_object 1 (Some 3) None (BElement handle_element))"
  "mObjs (two_allocs p q m n) 3 = Some (handle_object 2 (Some 4) (Some 2) (BType handle_type))"
  "mObjs (two_allocs p q m n) 4 = Some (handle_object m (Some 5) (Some 3) (BAllocation (handle_alloc 4 p)))"
  "mObjs (two_allocs p q m n) 5 = Some (handle_object n None (Some 4) (BAllocation (handle_alloc 5 q)))"
  "mObjHead (two_allocs p q m n) = Some 5"
  by (simp_all add: two_allocs_def)

lemma two_allocs_linked: "linked (two_allocs p q m n) [5, 4, 3, 2]"
  by (simp add: linked_def lnk_def two_allocs_sel handle_object_def)

lemma two_allocs_cached: "cache_inv cached (two_allocs p q m n) [5, 4, 3, 2]"
  "caches_ok (mCache (two_allocs p q m n))" "readable body_refs (two_allocs p q m n) [5, 4, 3, 2]"
proof -
  have "cached (mCache (two_allocs p q m n)) = {(2, BElement handle_element), (3, BType handle_type)}"
    by (auto simp add: cached_def two_allocs_def handle_element_def handle_type_def)
  then show "cache_inv cached (two_allocs p q m n) [5, 4, 3, 2]"
    unfolding cache_inv_def by (elim ssubst) (auto simp: two_allocs_sel handle_object_def)
  show "caches_ok (mCache (two_allocs p q m n))"
    by (simp add: caches_ok_def two_allocs_def)
  show "readable body_refs (two_allocs p q m n) [5, 4, 3, 2]"
    by (simp add: readable_def two_allocs_sel handle_object_def)
qed

lemma two_allocs_held:
  "held (refs_of body_refs) (two_allocs p q m n) [5, 4, 3, 2] =
     (if q = 0 then {#} else {#q#}) + (if p = 0 then {#} else {#p#}) + {#2, 3, 3#}"
  by (simp add: held_def obj_refs_def two_allocs_sel handle_object_def)

lemma two_allocs_ok:
  assumes "counts = (if q = 0 then {#} else {#q#}) + (if p = 0 then {#} else {#p#}) + ext" and "set_mset counts \<subseteq> {4, 5}"
    and "m = int (count counts 4)" and "n = int (count counts 5)"
  shows "objects_ok (two_allocs p q m n) [5, 4, 3, 2] ext"
proof -
  have e: "ext + held (refs_of body_refs) (two_allocs p q m n) [5, 4, 3, 2] = counts + {#2, 3, 3#}"
    unfolding two_allocs_held assms(1) by (simp add: ac_simps)
  have z: "count counts 2 = 0" "count counts 3 = 0"
    using assms(2) by (auto simp: count_eq_zero_iff)
  have "counts_ok (refs_of body_refs) (two_allocs p q m n) [5, 4, 3, 2] ext"
    unfolding counts_ok_def e using assms(2-4) z two_allocs_linked [of p q m n]
    by (auto simp: two_allocs_sel handle_object_def)
  then show ?thesis
    by (simp add: ref_inv_def two_allocs_cached)
qed

lemmas run_defs = freeAllChildren_def freeChildren_def two_allocs_def handle_object_def incSysRef_def upd_obj_def
  checkDelete_with_def obj_remove_def

text \<open>Dropping the last reference to the allocation at 5 takes the one its cell refers to along, and all the rest.\<close>

lemma cascade: "\<exists>h'. decSysRef body_refs preDestroy 5 (two_allocs 0 4 1 1) 5 = Some (h', True) \<and> mObjs h' = Map.empty"
proof -
  have "\<exists>h'. decSysRef body_refs preDestroy (Suc (Suc (Suc (Suc (Suc 0))))) (two_allocs 0 4 1 1) 5 = Some (h', True) \<and>
      mObjs h' = Map.empty"
    by (simp add: run_defs fun_eq_iff)
  then show ?thesis
    by (simp only: eval_nat_numeral BitM.simps One_nat_def)
qed

text \<open>
  C1. Dropping a system reference that is accounted for is safe: it touches no freed memory, the
  whole cascade of destructors, including those that drop the references stored in the cells of
  allocations, ends within one level per live object, all counts are exact again afterwards, the
  caches list live objects only, objects the application still holds survive, and the call reports
  whether the object itself went. Counts are taken as integers, without the 32-bit wrap-around.
\<close>

theorem decSysRef_is_safe:
  assumes "objects_ok h xs ext" and "p \<in># ext" and "length xs < n"
  shows "\<exists>h' xs' b. decSysRef body_refs preDestroy n h p = Some (h', b) \<and>
    objects_ok h' xs' (ext - {#p#}) \<and> survives h xs h' xs' \<and> (b \<longleftrightarrow> p \<notin> set xs')"
  by (rule rsobj.decSysRef_safe [OF assms])

theorem decSysRef_is_safe_witness:
  "\<exists>h' xs'. objects_ok (two_allocs 0 4 1 1) [5, 4, 3, 2] {#5#} \<and>
     decSysRef body_refs preDestroy 5 (two_allocs 0 4 1 1) 5 = Some (h', True) \<and> mObjs h' = Map.empty \<and>
     objects_ok h' xs' {#} \<and> 5 \<notin> set xs'"
proof -
  have ok: "objects_ok (two_allocs 0 4 1 1) [5, 4, 3, 2] {#5#}"
    by (rule two_allocs_ok) auto
  obtain h' where "decSysRef body_refs preDestroy 5 (two_allocs 0 4 1 1) 5 = Some (h', True)" "mObjs h' = Map.empty"
    using cascade by blast
  then show ?thesis
    using decSysRef_is_safe [OF ok, of 5 5] ok by auto
qed

text \<open>
  C2. Releasing a user reference deletes the object exactly when it was the last user reference
  and no system reference is left, and then all that goes with it: whatever its destructor drops,
  the cells of an allocation included, the counts are exact again. Otherwise nothing leaves the list.
\<close>

theorem decUserRef_deletes_last:
  assumes "objects_ok h xs ext" and "p \<in> set xs" and "mObjs h p = Some ob" and "0 < mUserRefCount ob"
    and "length xs \<le> n"
  shows "\<exists>h' xs' b. decUserRef body_refs preDestroy n h p = Some (h', b) \<and> objects_ok h' xs' ext \<and>
    set xs' \<subseteq> set xs \<and> (b \<longleftrightarrow> p \<notin> set xs') \<and>
    (b \<longleftrightarrow> mUserRefCount ob = 1 \<and> mSysRefCount ob = 0) \<and> (\<not> b \<longrightarrow> xs' = xs)"
  by (rule rsobj.decUserRef_safe [OF assms])

theorem decUserRef_deletes_last_witness:
  "\<exists>h ob h' xs' b. objects_ok h [1] {#1#} \<and> mObjs h 1 = Some ob \<and> mUserRefCount ob = 1 \<and>
     decUserRef body_refs preDestroy 1 h 1 = Some (h', b) \<and> objects_ok h' xs' {#1#}"
proof -
  obtain h ob where h: "objects_ok h [1] {#1#}" "mObjs h 1 = Some ob" "mUserRefCount ob = 0"
    using one_object by blast
  let ?ob = "ob\<lparr>mUserRefCount := 1\<rparr>"
  let ?h = "h\<lparr>mObjs := (mObjs h)(1 \<mapsto> ?ob)\<rparr>"
  have "objects_ok ?h [1] {#1#}"
    using h counts_ok_user [of "refs_of body_refs" h "[1]" "{#1#}" 1 ob 1] cache_inv_upd [of cached h "[1]" 1 ob ?ob]
      readable_upd [of body_refs h "[1]" 1 ob ?ob]
    by (simp add: ref_inv_def)
  then show ?thesis
    using decUserRef_deletes_last [of ?h "[1]" "{#1#}" 1 ?ob 1] by fastforce
qed



text \<open>
  C4. \<open>isValid\<close> recognises exactly the addresses of the objects on the context's list.
\<close>

theorem isValid_finds_live_objects:
  assumes "objects_ok h xs ext" and "length xs \<le> n"
  shows "isValid n h p = Some (p \<in> set xs)"
  using assms by (intro isValid_iff) (simp_all add: ref_inv_def counts_ok_def)

theorem isValid_finds_live_objects_witness:
  "\<exists>h. objects_ok h [1] {#1#} \<and> isValid 1 h 1 = Some True \<and> isValid 1 h 7 = Some False"
proof -
  obtain h where h: "objects_ok h [1] {#1#}"
    using one_object by blast
  then show ?thesis
    using isValid_finds_live_objects [OF h, of 1 1] isValid_finds_live_objects [OF h, of 1 7] by auto
qed


end
