(* ===== verification/Rs_Element.thy ===== *)
theory Rs_Element
  imports Rs_Objects
begin

text \<open>
  Elements, from \<^verbatim>\<open>rsElement.h\<close> and \<^verbatim>\<open>rsElement.cpp\<close>: the layout of a cell in bits, the cache
  that makes equal elements the same object, construction and the file format. The flag \<open>lp64\<close>
  is the \<open>__LP64__\<close> configuration; a field name is its C string without the terminator.
\<close>

section \<open>Layout\<close>

definition getSizeBitsUnpadded :: "Element \<Rightarrow> u64" where
  "getSizeBitsUnpadded e = (if eFields e = [] then ucast (eBitsUnpadded e)
     else fold (\<lambda>f total. total + ucast (eBitsUnpadded (fE f) * fArraySize f)) (eFields e) 0)"

definition getSizeBytesUnpadded :: "Element \<Rightarrow> u64" where
  "getSizeBytesUnpadded e = drop_bit 3 (getSizeBitsUnpadded e + 7)"

text \<open>The main loop of \<open>Element::compute\<close>, with \<open>bits\<close>, \<open>bitsUnpadded\<close> and \<open>mHasReference\<close>.\<close>

fun compute_fields :: "u64 \<Rightarrow> u64 \<Rightarrow> bool \<Rightarrow> Element ElementField list \<Rightarrow>
    Element ElementField list \<times> u64 \<times> u64 \<times> bool" where
  "compute_fields bits bitsUnpadded ref [] = ([], bits, bitsUnpadded, ref)"
| "compute_fields bits bitsUnpadded ref (f # fs) =
     (let g = ElementField (fName f) (fE f) (ucast bits) (ucast bitsUnpadded) (fArraySize f);
          (gs, r) = compute_fields (bits + getSizeBits (fE f) * ucast (fArraySize f))
            (bitsUnpadded + getSizeBitsUnpadded (fE f) * ucast (fArraySize f))
            (ref \<or> eHasReference (fE f)) fs
      in (g # gs, r))"

definition Element_compute :: "Element \<Rightarrow> Element" where
  "Element_compute e =
     (if eFields e = [] then
        Element (eId e) (eComponent e) [] (cBits (eComponent e)) (cBitsUnpadded (eComponent e))
          (Component_isReference (eComponent e))
      else (let (fs, bits, bitsUnpadded, ref) = compute_fields 0 0 (eHasReference e) (eFields e)
        in Element (eId e) (eComponent e) fs (ucast bits) (ucast bitsUnpadded) ref))"

text \<open>
  The driver's view of the fields that \<open>compute\<close> fills in: element, array size, name, name
  length with the terminator, byte offset; fields named \<open>#...\<close> are padding and left out.
\<close>

definition not_padding :: "Element ElementField \<Rightarrow> bool" where
  "not_padding f = (c_str (fName f) = [] \<or> hd (c_str (fName f)) \<noteq> 35)"

definition hal_fields :: "Element \<Rightarrow> (Element \<times> u32 \<times> u8 list \<times> u32 \<times> u32) list" where
  "hal_fields e = map (\<lambda>f. (fE f, fArraySize f, fName f, of_nat (length (c_str (fName f))) + 1,
       drop_bit 3 (fOffsetBits f))) (filter not_padding (eFields e))"

section \<open>The element cache\<close>

text \<open>The loop conditions of the two \<open>createRef\<close>.\<close>

definition scalar_match :: "RsDataType \<Rightarrow> RsDataKind \<Rightarrow> bool \<Rightarrow> u32 \<Rightarrow> Element \<Rightarrow> bool" where
  "scalar_match dt dk isNorm vecSize ee =
     (eFields ee = [] \<and> cType (eComponent ee) = dt \<and> cKind (eComponent ee) = dk \<and>
      cNormalized (eComponent ee) = isNorm \<and> cVectorSize (eComponent ee) = vecSize)"

text \<open>
  One argument of the second \<open>createRef\<close>: element (possibly null), name, length and array size.
  \<open>field_args\<close> puts the four argument arrays together; \<open>lengths\<close> and \<open>asin\<close> may be null.
\<close>

type_synonym field_arg = "Element option \<times> u8 list \<times> nat \<times> u32"

fun field_args :: "Element option list \<Rightarrow> u8 list list \<Rightarrow> nat list option \<Rightarrow> u32 list option \<Rightarrow>
    field_arg list option" where
  "field_args [] nin lengths asin = Some []"
| "field_args (e # ein) [] lengths asin = None"
| "field_args (e # ein) (nm # nin) lengths asin = do {
     (len, lengths) \<leftarrow> (case lengths of None \<Rightarrow> Some (length (c_str nm), None)
       | Some [] \<Rightarrow> None | Some (l # ls) \<Rightarrow> Some (l, Some ls));
     (asize, asin) \<leftarrow> (case asin of None \<Rightarrow> Some (1, None)
       | Some [] \<Rightarrow> None | Some (a # as) \<Rightarrow> Some (a, Some as));
     rest \<leftarrow> field_args ein nin lengths asin;
     Some ((e, nm, len, asize) # rest) }"

definition field_match :: "Element ElementField \<Rightarrow> field_arg \<Rightarrow> bool" where
  "field_match f a = (case a of (e, nm, len, asize) \<Rightarrow>
     Some (eId (fE f)) = map_option eId e \<and> length (c_str (fName f)) = len \<and>
     c_str (fName f) = c_str nm \<and> fArraySize f = asize)"

definition struct_match :: "field_arg list \<Rightarrow> Element \<Rightarrow> bool" where
  "struct_match args ee =
     (length (eFields ee) = length args \<and> list_all2 field_match (eFields ee) args)"

text \<open>\<open>rsuCopyString\<close>: \<open>len\<close> bytes of a C string, which ends with its terminator.\<close>

definition rsuCopyString :: "u8 list \<Rightarrow> nat \<Rightarrow> u8 list option" where
  "rsuCopyString nm len = (if len \<le> length nm + 1 then Some (take len (nm @ [0])) else None)"

text \<open>Setting up one field; \<open>compute\<close> then dereferences the element, so a null one is undefined.\<close>

definition make_field :: "field_arg \<Rightarrow> Element ElementField option" where
  "make_field a = (case a of (e, nm, len, asize) \<Rightarrow> do {
     e \<leftarrow> e; nm \<leftarrow> rsuCopyString nm len; Some (ElementField nm e 0 0 asize) })"

fun make_fields :: "field_arg list \<Rightarrow> Element ElementField list option" where
  "make_fields [] = Some []"
| "make_fields (a # as) = do { f \<leftarrow> make_field a; fs \<leftarrow> make_fields as; Some (f # fs) }"

text \<open>
  Entering a new object: the constructor, the reference \<open>returnRef\<close> takes, the references its
  fields take, and \<open>push_back\<close> on the cache.
\<close>

definition enter_element :: "RsContext \<Rightarrow> nat \<Rightarrow> Element \<Rightarrow> RsContext option" where
  "enter_element h p e = do {
     h \<leftarrow> ObjectBase_new h p (BElement e);
     h \<leftarrow> incSysRef h p;
     h \<leftarrow> incSysRefs h (map (\<lambda>f. eId (fE f)) (eFields e));
     Some (h\<lparr>mCache := (mCache h)\<lparr>mElements := mElements (mCache h) @ [e]\<rparr>\<rparr>) }"

text \<open>
  \<open>Element::createRef\<close> for a scalar or vector. The result carries one system reference, which
  the caller owns. The driver zeroes the memory of a new element, so \<open>mBitsUnpadded\<close> of its
  component starts as 0.
\<close>

definition createRef :: "bool \<Rightarrow> RsContext \<Rightarrow> RsDataType \<Rightarrow> RsDataKind \<Rightarrow> bool \<Rightarrow> u32 \<Rightarrow>
    (RsContext \<times> Element option) option" where
  "createRef lp64 h dt dk isNorm vecSize =
     (case find (scalar_match dt dk isNorm vecSize) (mElements (mCache h)) of
        Some ee \<Rightarrow> do { h \<leftarrow> incSysRef h (eId ee); Some (h, Some ee) }
      | None \<Rightarrow> (case allocRuntimeMem h of
          (h, None) \<Rightarrow> Some (setError h RS_ERROR_FATAL_DRIVER, None)
        | (h, Some p) \<Rightarrow> do {
            c \<leftarrow> Component_set lp64 (Component_new 0) dt dk isNorm vecSize;
            let e = Element_compute (Element p c [] 0 0 False);
            h \<leftarrow> enter_element h p e;
            Some (h, Some e) }))"

text \<open>\<open>Element::createRef\<close> for a structure.\<close>

definition createRef_struct :: "RsContext \<Rightarrow> field_arg list \<Rightarrow> (RsContext \<times> Element option) option" where
  "createRef_struct h args =
     (case find (struct_match args) (mElements (mCache h)) of
        Some ee \<Rightarrow> do { h \<leftarrow> incSysRef h (eId ee); Some (h, Some ee) }
      | None \<Rightarrow> (case allocRuntimeMem h of
          (h, None) \<Rightarrow> Some (setError h RS_ERROR_FATAL_DRIVER, None)
        | (h, Some p) \<Rightarrow> do {
            fs \<leftarrow> make_fields args;
            let e = Element_compute (Element p (Component_new 0) fs 0 0 False);
            h \<leftarrow> enter_element h p e;
            Some (h, Some e) }))"

text \<open>
  \<open>Element::create\<close>: the reference returned by \<open>createRef\<close> becomes a user reference, and the
  \<open>ObjectBaseRef\<close> dies at the end of the scope. On a failed \<open>createRef\<close> the null reference is
  dereferenced.
\<close>

definition to_user_ref :: "RsContext \<Rightarrow> nat \<Rightarrow> RsContext option" where
  "to_user_ref h p = do {
     h \<leftarrow> incUserRef h p;
     (h, _) \<leftarrow> decSysRef body_refs preDestroy (Suc (mNextAddr (mCache h))) h p;
     Some h }"

definition Element_create :: "bool \<Rightarrow> RsContext \<Rightarrow> RsDataType \<Rightarrow> RsDataKind \<Rightarrow> bool \<Rightarrow> u32 \<Rightarrow>
    (RsContext \<times> Element) option" where
  "Element_create lp64 h dt dk isNorm vecSize = do {
     (h, e) \<leftarrow> createRef lp64 h dt dk isNorm vecSize;
     e \<leftarrow> e;
     h \<leftarrow> to_user_ref h (eId e);
     Some (h, e) }"

definition Element_create_struct :: "RsContext \<Rightarrow> field_arg list \<Rightarrow> (RsContext \<times> Element) option" where
  "Element_create_struct h args = do {
     (h, e) \<leftarrow> createRef_struct h args;
     e \<leftarrow> e;
     h \<leftarrow> to_user_ref h (eId e);
     Some (h, e) }"

definition rsi_ElementCreate :: "bool \<Rightarrow> RsContext \<Rightarrow> RsDataType \<Rightarrow> RsDataKind \<Rightarrow> bool \<Rightarrow> u32 \<Rightarrow>
    (RsContext \<times> Element) option" where
  "rsi_ElementCreate lp64 h dt dk norm vecSize = Element_create lp64 h dt dk norm vecSize"

definition rsi_ElementCreate2 :: "RsContext \<Rightarrow> Element option list \<Rightarrow> u8 list list \<Rightarrow>
    nat list option \<Rightarrow> u32 list option \<Rightarrow> (RsContext \<times> Element) option" where
  "rsi_ElementCreate2 h ein names nameLengths arraySizes = do {
     args \<leftarrow> field_args ein names nameLengths arraySizes;
     Element_create_struct h args }"

section \<open>Files\<close>

text \<open>\<open>getName\<close>; serializing an object with no name passes a null pointer to \<open>strlen\<close>.\<close>

definition getName :: "('b, 'c) Context \<Rightarrow> nat \<Rightarrow> u8 list option" where
  "getName h p = do { ob \<leftarrow> mObjs h p; mName ob }"

definition RS_A3D_CLASS_ID_TYPE :: u32 where "RS_A3D_CLASS_ID_TYPE = 2"
definition RS_A3D_CLASS_ID_ELEMENT :: u32 where "RS_A3D_CLASS_ID_ELEMENT = 3"
definition RS_A3D_CLASS_ID_ALLOCATION :: u32 where "RS_A3D_CLASS_ID_ALLOCATION = 4"

function (sequential) Element_serialize :: "(nat \<Rightarrow> u8 list option) \<Rightarrow> Element \<Rightarrow> OStream \<Rightarrow> OStream option"
  and Element_serialize_fields :: "(nat \<Rightarrow> u8 list option) \<Rightarrow> Element ElementField list \<Rightarrow> OStream \<Rightarrow>
    OStream option" where
  "Element_serialize nm (Element i c fs b bu r) s = do {
     s \<leftarrow> addU32 s RS_A3D_CLASS_ID_ELEMENT;
     n \<leftarrow> nm i;
     s \<leftarrow> addString s n;
     s \<leftarrow> Component_serialize c s;
     s \<leftarrow> addU32 s (of_nat (length fs));
     Element_serialize_fields nm fs s }"
| "Element_serialize_fields nm [] s = Some s"
| "Element_serialize_fields nm (ElementField n e ob obu a # fs) s = do {
     s \<leftarrow> addString s n;
     s \<leftarrow> addU32 s a;
     s \<leftarrow> Element_serialize nm e s;
     Element_serialize_fields nm fs s }"
  by pat_completeness auto

termination Element_serialize
  by (relation "measure (case_sum (\<lambda>(_, e, _). size e) (\<lambda>(_, fs, _). fields_size fs))") auto

text \<open>The first loop of \<open>createFromStream\<close>, over \<open>ld\<close> for the recursive call.\<close>

fun load_fields :: "(RsContext \<Rightarrow> IStream \<Rightarrow> (RsContext \<times> IStream \<times> Element option) option) \<Rightarrow> nat \<Rightarrow>
    RsContext \<Rightarrow> IStream \<Rightarrow> (RsContext \<times> IStream \<times> field_arg list) option" where
  "load_fields ld 0 h t = Some (h, t, [])"
| "load_fields ld (Suc k) h t = do {
     (name, t) \<leftarrow> loadString t;
     (asize, t) \<leftarrow> loadU32 t;
     (h, t, e) \<leftarrow> ld h t;
     (h, t, rest) \<leftarrow> load_fields ld k h t;
     Some (h, t, (e, name, length (c_str name), asize) # rest) }"

text \<open>The second loop: every sub-element is dereferenced and gives up its user reference.\<close>

fun drop_fields :: "RsContext \<Rightarrow> field_arg list \<Rightarrow> RsContext option" where
  "drop_fields h [] = Some h"
| "drop_fields h ((e, _) # as) = do {
     e \<leftarrow> e;
     (h, _) \<leftarrow> decUserRef body_refs preDestroy (mNextAddr (mCache h)) h (eId e);
     drop_fields h as }"

text \<open>\<open>Element::createFromStream\<close>; the fuel bounds the nesting of structures.\<close>

fun Element_createFromStream :: "bool \<Rightarrow> nat \<Rightarrow> RsContext \<Rightarrow> IStream \<Rightarrow>
    (RsContext \<times> IStream \<times> Element option) option" where
  "Element_createFromStream lp64 0 h t = None"
| "Element_createFromStream lp64 (Suc n) h t = do {
     (classID, t) \<leftarrow> loadU32 t;
     if classID \<noteq> RS_A3D_CLASS_ID_ELEMENT then Some (h, t, None)
     else do {
       (name, t) \<leftarrow> loadString t;
       (component, t) \<leftarrow> Component_loadFromStream lp64 (Component_new 0) t;
       (fieldCount, t) \<leftarrow> loadU32 t;
       if fieldCount = 0 then do {
         (h, e) \<leftarrow> Element_create lp64 h (cType component) (cKind component)
           (cNormalized component) (cVectorSize component);
         Some (h, t, Some e) }
       else do {
         (h, t, args) \<leftarrow> load_fields (Element_createFromStream lp64 n) (unat fieldCount) h t;
         (h, elem) \<leftarrow> Element_create_struct h args;
         h \<leftarrow> drop_fields h args;
         Some (h, t, Some elem) } } }"

section \<open>Layout facts\<close>

text \<open>Bits that a field takes up, and that a list of fields takes up, without wrap-around.\<close>

definition span :: "Element ElementField \<Rightarrow> nat" where
  "span f = unat (eBits (fE f)) * unat (fArraySize f)"

definition spans :: "Element ElementField list \<Rightarrow> nat" where
  "spans fs = sum_list (map span fs)"

definition elem_sized :: "Element \<Rightarrow> bool" where
  "elem_sized e \<longleftrightarrow> getSizeBits e = ucast (eBits e)"

lemma spans_simps [simp]: "spans [] = 0" "spans (f # fs) = span f + spans fs"
  by (simp_all add: spans_def)

lemma spans_cong: "map fE gs = map fE fs \<Longrightarrow> map fArraySize gs = map fArraySize fs \<Longrightarrow> spans gs = spans fs"
proof -
  have "spans xs = sum_list (map2 (\<lambda>e a. unat (eBits e) * unat a) (map fE xs) (map fArraySize xs))" for xs
    by (simp add: spans_def span_def [abs_def] map2_map_map)
  then show "map fE gs = map fE fs \<Longrightarrow> map fArraySize gs = map fArraySize fs \<Longrightarrow> spans gs = spans fs"
    by simp
qed

lemma spans_take: "spans (take k fs) \<le> spans fs"
  by (metis append_take_drop_id le_add1 map_append spans_def sum_list_append)

lemma unat_span64:
  assumes "span f < 2 ^ 32"
  shows "unat (ucast (eBits (fE f)) * ucast (fArraySize f) :: u64) = span f"
    and "unat (eBits (fE f) * fArraySize f) = span f"
  using assms by (simp_all add: span_def unat_word_ariths)

lemma compute_fields_spec:
  assumes "compute_fields b bu r fs = (gs, b', bu', r')" "\<forall>f \<in> set fs. elem_sized (fE f)"
    and "unat b + spans fs < 2 ^ 32"
  shows "map fE gs = map fE fs \<and> map fArraySize gs = map fArraySize fs \<and> map fName gs = map fName fs \<and>
    unat b' = unat b + spans fs \<and>
    (\<forall>k < length fs. unat (fOffsetBits (gs ! k)) = unat b + spans (take k fs)) \<and>
    (r' \<longleftrightarrow> r \<or> (\<exists>f \<in> set fs. eHasReference (fE f)))"
  using assms
proof (induction fs arbitrary: b bu r gs)
  case (Cons f fs)
  let ?b = "b + getSizeBits (fE f) * ucast (fArraySize f)"
  have sp: "span f < 2 ^ 32" "unat b < 2 ^ 32"
    using Cons.prems(3) by simp_all
  have "getSizeBits (fE f) = ucast (eBits (fE f))"
    using Cons.prems(2) by (simp add: elem_sized_def)
  then have nb: "unat ?b = unat b + span f"
    using Cons.prems(3) unat_span64(1) [OF sp(1)] by (subst unat_add_bounded) simp_all
  obtain gs0 where gs0: "gs = ElementField (fName f) (fE f) (ucast b) (ucast bu) (fArraySize f) # gs0"
      "compute_fields ?b (bu + getSizeBitsUnpadded (fE f) * ucast (fArraySize f))
        (r \<or> eHasReference (fE f)) fs = (gs0, b', bu', r')"
    using Cons.prems(1) by (auto simp: Let_def split: prod.splits)
  have off: "unat (ucast b :: u32) = unat b"
    using sp(2) by (simp add: unsigned_ucast_eq take_bit_eq_mod)
  note ih = Cons.IH [OF gs0(2)]
  show ?case
    using ih nb off Cons.prems(2,3) gs0(1) by (auto simp: less_Suc_eq_0_disj)
qed simp

lemma fold_size_spec:
  assumes "unat a + spans fs < 2 ^ 32"
  shows "unat (fold (\<lambda>f total. total + ucast (eBits (fE f) * fArraySize f)) fs (a :: u64)) =
    unat a + spans fs"
  using assms
proof (induction fs arbitrary: a)
  case (Cons f fs)
  have "unat (ucast (eBits (fE f) * fArraySize f) :: u64) = span f"
    using Cons.prems unat_span64(2) [of f] by simp
  then have "unat (a + ucast (eBits (fE f) * fArraySize f)) = unat a + span f"
    using Cons.prems by (subst unat_add_bounded) simp_all
  then show ?case
    using Cons by simp
qed simp

text \<open>The fields of a structure as \<open>compute\<close> lays them out, when the structure is below 512 MB.\<close>

lemma Element_compute_struct:
  fixes i c b bu
  assumes fs: "fs \<noteq> []" "\<forall>f \<in> set fs. elem_sized (fE f)" "spans fs < 2 ^ 32"
  defines "e \<equiv> Element_compute (Element i c fs b bu False)"
  shows "eId e = i" "eComponent e = c"
    and "map fE (eFields e) = map fE fs" "map fArraySize (eFields e) = map fArraySize fs"
    and "map fName (eFields e) = map fName fs"
    and "unat (eBits e) = spans fs" "elem_sized e"
    and "k < length fs \<Longrightarrow> unat (fOffsetBits (eFields e ! k)) = spans (take k fs)"
    and "eHasReference e \<longleftrightarrow> (\<exists>f \<in> set fs. eHasReference (fE f))"
proof -
  obtain gs b' bu' r' where c: "compute_fields 0 0 False fs = (gs, b', bu', r')"
    by (metis prod_cases4)
  note sp = compute_fields_spec [OF c fs(2)]
  have e: "e = Element i c gs (ucast b') (ucast bu') r'"
    using fs(1) c by (simp add: e_def Element_compute_def)
  have b': "unat b' = spans fs"
    using sp fs(3) by simp
  show "eId e = i" "eComponent e = c" "map fE (eFields e) = map fE fs"
      "map fArraySize (eFields e) = map fArraySize fs" "map fName (eFields e) = map fName fs"
      "k < length fs \<Longrightarrow> unat (fOffsetBits (eFields e ! k)) = spans (take k fs)"
      "eHasReference e \<longleftrightarrow> (\<exists>f \<in> set fs. eHasReference (fE f))"
    using sp fs(3) e by simp_all
  show bits: "unat (eBits e) = spans fs"
    using e b' fs(3) by (simp add: unsigned_ucast_eq take_bit_eq_mod)
  have gs: "gs \<noteq> []" "spans gs = spans fs"
    using sp fs(1,3) by (auto intro: spans_cong)
  then have "unat (getSizeBits e) = unat (eBits e)"
    using fold_size_spec [of 0 gs] fs(3) bits e by (simp add: getSizeBits_def)
  then show "elem_sized e"
    by (simp add: elem_sized_def word_unat_eq_iff)
qed

section \<open>An example element\<close>

definition float_component :: Component where
  "float_component = \<lparr>cType = RS_TYPE_FLOAT_32, cKind = RS_KIND_USER, cNormalized = False,
     cVectorSize = 1, cBits = 32, cBitsUnpadded = 32, cTypeBits = 32, cIsFloat = True,
     cIsSigned = False, cIsPixel = False\<rparr>"

definition float_element :: "nat \<Rightarrow> Element" where
  "float_element i = Element_compute (Element i float_component [] 0 0 False)"

lemma float_component_set:
  "Component_set lp64 (Component_new 0) RS_TYPE_FLOAT_32 RS_KIND_USER False 1 = Some float_component"
  by (simp add: Component_set_def Component_new_def set_kind_def set_bits_def float_component_def)

lemma float_element_sel [simp]:
  "eId (float_element i) = i" "eFields (float_element i) = []" "eComponent (float_element i) = float_component"
  "eBits (float_element i) = 32"
  by (simp_all add: float_element_def Element_compute_def float_component_def)

end
