(* ===== verification/Rs_Type.thy ===== *)
theory Rs_Type
  imports Rs_Element
begin

text \<open>
  Types, from \<^verbatim>\<open>rsType.h\<close> and \<^verbatim>\<open>rsType.cpp\<close>: the dimensions of an allocation with its mipmap levels,
  faces, YUV planes and array dimensions, the cache that shares equal types, and the file format.
  An array entry that was allocated and never written is \<open>None\<close>; reading or writing outside an
  array, and reading such an entry, is undefined.
\<close>

section \<open>Dimensions\<close>

definition RS_YUV_YV12 :: u32 where "RS_YUV_YV12 = 0x32315659"
definition RS_YUV_NV21 :: u32 where "RS_YUV_NV21 = 0x11"
definition RS_YUV_420_888 :: u32 where "RS_YUV_420_888 = 0x23"

definition set_at :: "u32 option list \<Rightarrow> nat \<Rightarrow> u32 \<Rightarrow> u32 option list option" where
  "set_at xs i v = (if i < length xs then Some (xs[i := Some v]) else None)"

definition get_at :: "u32 option list \<Rightarrow> nat \<Rightarrow> u32 option" where
  "get_at xs i = (if i < length xs then xs ! i else None)"

definition half :: "u32 \<Rightarrow> u32" where
  "half x = (if x > 1 then drop_bit 1 x else x)"

text \<open>The mipmap loop of \<open>Type::compute\<close>, with \<open>k\<close> levels to go from level \<open>lod\<close> on.\<close>

fun lod_loop :: "nat \<Rightarrow> nat \<Rightarrow> u32 \<Rightarrow> u32 \<Rightarrow> u32 \<Rightarrow> Type \<Rightarrow> Type option" where
  "lod_loop 0 lod tx ty tz t = Some t"
| "lod_loop (Suc k) lod tx ty tz t = do {
     xs \<leftarrow> set_at (tLodDimX t) lod tx;
     ys \<leftarrow> set_at (tLodDimY t) lod ty;
     zs \<leftarrow> set_at (tLodDimZ t) lod tz;
     lod_loop k (Suc lod) (half tx) (half ty) (half tz)
       (t\<lparr>tLodDimX := xs, tLodDimY := ys, tLodDimZ := zs,
          tCellCount := tCellCount t + ucast (tx * rsMax ty 1 * rsMax tz 1)\<rparr>) }"

text \<open>The YUV part: the planes are stashed in the first three mipmap levels.\<close>

definition yuv_planes :: "Type \<Rightarrow> Type option" where
  "yuv_planes t = do {
     let tx = tDimX t;
     let ty = tDimY t;
     let tz = tDimZ t;
     xs \<leftarrow> set_at (tLodDimX t) 0 tx;
     ys \<leftarrow> set_at (tLodDimY t) 0 ty;
     zs \<leftarrow> set_at (tLodDimZ t) 0 tz;
     xs \<leftarrow> set_at xs 1 (tx div 2);
     ys \<leftarrow> set_at ys 1 (ty div 2);
     xs \<leftarrow> set_at xs 2 (tx div 2);
     ys \<leftarrow> set_at ys 2 (ty div 2);
     let cells = tCellCount t + ucast (tx * ty) + ucast ((tx div 2) * (ty div 2)) +
       ucast ((tx div 2) * (ty div 2));
     xs \<leftarrow> (if tDimYuv t = RS_YUV_NV21 then set_at xs 1 tx else Some xs);
     Some (t\<lparr>tLodDimX := xs, tLodDimY := ys, tLodDimZ := zs, tCellCount := cells\<rparr>) }"

definition lod_count :: "Type \<Rightarrow> u32" where
  "lod_count t =
     (if tDimLOD t then
        let l2x = rsFindHighBit (tDimX t) + 1;
            l2y = rsFindHighBit (tDimY t) + 1;
            l2z = rsFindHighBit (tDimZ t) + 1
        in rsMax (rsMax l2x l2y) l2z
      else if tDimYuv t \<noteq> 0 then 3 else 1)"

definition Type_compute :: "Type \<Rightarrow> Type option" where
  "Type_compute t = do {
     let lodCount = lod_count t;
     let t = (if lodCount \<noteq> tLodCount t then
         t\<lparr>tLodCount := lodCount, tLodDimX := replicate (unat lodCount) None,
           tLodDimY := replicate (unat lodCount) None, tLodDimZ := replicate (unat lodCount) None\<rparr>
       else t);
     let t = t\<lparr>tCellCount := 0\<rparr>;
     t \<leftarrow> (if tDimYuv t = 0 then lod_loop (unat (tLodCount t)) 0 (tDimX t) (tDimY t) (tDimZ t) t else Some t);
     let t = (if tFaces t then t\<lparr>tCellCount := tCellCount t * 6\<rparr> else t);
     if tDimYuv t \<noteq> 0 then yuv_planes t else Some t }"

definition getLODDimX :: "Type \<Rightarrow> u32 \<Rightarrow> u32 option" where
  "getLODDimX t lod = get_at (tLodDimX t) (unat lod)"
definition getLODDimY :: "Type \<Rightarrow> u32 \<Rightarrow> u32 option" where
  "getLODDimY t lod = get_at (tLodDimY t) (unat lod)"
definition getLODDimZ :: "Type \<Rightarrow> u32 \<Rightarrow> u32 option" where
  "getLODDimZ t lod = get_at (tLodDimZ t) (unat lod)"

definition getArray :: "Type \<Rightarrow> u32 \<Rightarrow> u32 option" where
  "getArray t idx = (if idx < tArrayCount t then get_at (tArrays t) (unat idx) else Some 0)"

definition getElementSizeBytes :: "Type \<Rightarrow> u64" where
  "getElementSizeBytes t = getSizeBytes (tElement t)"

definition getPackedSizeBytes :: "Type \<Rightarrow> u64" where
  "getPackedSizeBytes t = tCellCount t * getSizeBytes (tElement t)"

definition getIsNp2 :: "Type \<Rightarrow> bool" where
  "getIsNp2 t =
     (let x = tDimX t; y = tDimY t; z = tDimZ t in
      if x \<noteq> 0 \<and> (x AND (x - 1)) \<noteq> 0 then True
      else if y \<noteq> 0 \<and> (y AND (y - 1)) \<noteq> 0 then True
      else if z \<noteq> 0 \<and> (z AND (z - 1)) \<noteq> 0 then True
      else False)"

section \<open>The type cache\<close>

text \<open>The loop body of \<open>Type::getTypeRef\<close>: every \<open>continue\<close> is \<open>False\<close>.\<close>

fun arrays_match :: "Type \<Rightarrow> (u32 \<times> u32) list \<Rightarrow> bool option" where
  "arrays_match t [] = Some True"
| "arrays_match t ((i, v) # avs) = do {
     a \<leftarrow> getArray t i;
     if a \<noteq> v then Some False else arrays_match t avs }"

definition type_match :: "Element \<Rightarrow> RsTypeCreateParams \<Rightarrow> Type \<Rightarrow> bool option" where
  "type_match e p t =
     (if eId (tElement t) \<noteq> eId e \<or> tDimX t \<noteq> pDimX p \<or> tDimY t \<noteq> pDimY p \<or> tDimZ t \<noteq> pDimZ p \<or>
        tDimLOD t \<noteq> pMipmaps p \<or> tFaces t \<noteq> pFaces p \<or> tDimYuv t \<noteq> pYuv p
      then Some False
      else arrays_match t [(0, pArray0 p), (1, pArray1 p), (2, pArray2 p), (3, pArray3 p)])"

fun find_type :: "Element \<Rightarrow> RsTypeCreateParams \<Rightarrow> Type list \<Rightarrow> Type option option" where
  "find_type e p [] = Some None"
| "find_type e p (t # ts) = do {
     m \<leftarrow> type_match e p t;
     if m then Some (Some t) else find_type e p ts }"

text \<open>The array dimensions of a new type.\<close>

definition array_count :: "RsTypeCreateParams \<Rightarrow> u32" where
  "array_count p = (if pArray0 p > 0 then 1 else 0) + (if pArray1 p > 0 then 1 else 0) +
     (if pArray2 p > 0 then 1 else 0) + (if pArray3 p > 0 then 1 else 0)"

definition make_arrays :: "RsTypeCreateParams \<Rightarrow> u32 option list option" where
  "make_arrays p =
     (if array_count p > 0 then do {
        let as = replicate (unat (array_count p)) None;
        as \<leftarrow> (if pArray0 p > 0 then set_at as 0 (pArray0 p) else Some as);
        as \<leftarrow> (if pArray1 p > 1 then set_at as 1 (pArray1 p) else Some as);
        as \<leftarrow> (if pArray2 p > 2 then set_at as 2 (pArray2 p) else Some as);
        if pArray3 p > 3 then set_at as 3 (pArray3 p) else Some as }
      else Some [])"

definition new_type :: "nat \<Rightarrow> Element \<Rightarrow> RsTypeCreateParams \<Rightarrow> Type option" where
  "new_type i e p = do {
     as \<leftarrow> make_arrays p;
     Type_compute \<lparr>tId = i, tElement = e, tDimX = pDimX p, tDimY = pDimY p, tDimZ = pDimZ p,
       tLodDimX = [], tLodDimY = [], tLodDimZ = [], tArrays = as, tLodCount = 0, tDimYuv = pYuv p,
       tArrayCount = array_count p, tFaces = pFaces p, tDimLOD = pMipmaps p, tCellCount = 0\<rparr> }"

definition enter_type :: "RsContext \<Rightarrow> nat \<Rightarrow> Type \<Rightarrow> RsContext option" where
  "enter_type h p t = do {
     h \<leftarrow> ObjectBase_new h p (BType t);
     h \<leftarrow> incSysRef h p;
     h \<leftarrow> incSysRefs h [eId (tElement t)];
     Some (h\<lparr>mCache := (mCache h)\<lparr>mTypes := mTypes (mCache h) @ [t]\<rparr>\<rparr>) }"

definition getTypeRef :: "RsContext \<Rightarrow> Element \<Rightarrow> RsTypeCreateParams \<Rightarrow> (RsContext \<times> Type option) option" where
  "getTypeRef h e params = do {
     found \<leftarrow> find_type e params (mTypes (mCache h));
     case found of
       Some t \<Rightarrow> do { h \<leftarrow> incSysRef h (tId t); Some (h, Some t) }
     | None \<Rightarrow> (case allocRuntimeMem h of
         (h, None) \<Rightarrow> Some (setError h RS_ERROR_FATAL_DRIVER, None)
       | (h, Some p) \<Rightarrow> do {
           nt \<leftarrow> new_type p e params;
           h \<leftarrow> enter_type h p nt;
           Some (h, Some nt) }) }"

text \<open>\<open>Type::getType\<close>: like \<open>Element::create\<close>, the reference becomes a user reference.\<close>

definition getType :: "RsContext \<Rightarrow> Element \<Rightarrow> RsTypeCreateParams \<Rightarrow> (RsContext \<times> Type) option" where
  "getType h e params = do {
     (h, t) \<leftarrow> getTypeRef h e params;
     t \<leftarrow> t;
     h \<leftarrow> to_user_ref h (tId t);
     Some (h, t) }"

definition zero_params :: RsTypeCreateParams where
  "zero_params = \<lparr>pDimX = 0, pDimY = 0, pDimZ = 0, pMipmaps = False, pFaces = False, pYuv = 0,
     pArray0 = 0, pArray1 = 0, pArray2 = 0, pArray3 = 0\<rparr>"

definition getTypeRef_2D :: "RsContext \<Rightarrow> Element \<Rightarrow> u32 \<Rightarrow> u32 \<Rightarrow> (RsContext \<times> Type option) option" where
  "getTypeRef_2D h e dimX dimY = getTypeRef h e (zero_params\<lparr>pDimX := dimX, pDimY := dimY\<rparr>)"

definition cloneAndResize1D :: "RsContext \<Rightarrow> Type \<Rightarrow> u32 \<Rightarrow> (RsContext \<times> Type option) option" where
  "cloneAndResize1D h t dimX = getTypeRef h (tElement t)
     (zero_params\<lparr>pDimX := dimX, pDimY := tDimY t, pDimZ := tDimZ t, pMipmaps := tDimLOD t\<rparr>)"

definition cloneAndResize2D :: "RsContext \<Rightarrow> Type \<Rightarrow> u32 \<Rightarrow> u32 \<Rightarrow> (RsContext \<times> Type option) option" where
  "cloneAndResize2D h t dimX dimY = getTypeRef h (tElement t)
     (zero_params\<lparr>pDimX := dimX, pDimY := dimY, pDimZ := tDimZ t, pMipmaps := tDimLOD t,
        pFaces := tFaces t, pYuv := tDimYuv t\<rparr>)"

definition rsi_TypeCreate :: "RsContext \<Rightarrow> Element \<Rightarrow> u32 \<Rightarrow> u32 \<Rightarrow> u32 \<Rightarrow> bool \<Rightarrow> bool \<Rightarrow> u32 \<Rightarrow>
    (RsContext \<times> Type) option" where
  "rsi_TypeCreate h e dimX dimY dimZ mipmaps faces yuv =
     getType h e (zero_params\<lparr>pDimX := dimX, pDimY := dimY, pDimZ := dimZ, pMipmaps := mipmaps,
       pFaces := faces, pYuv := yuv\<rparr>)"

definition rsi_TypeCreate2 :: "RsContext \<Rightarrow> Element \<Rightarrow> RsTypeCreateParams \<Rightarrow> (RsContext \<times> Type) option" where
  "rsi_TypeCreate2 h e p = getType h e p"

section \<open>Files\<close>

definition Type_serialize :: "(nat \<Rightarrow> u8 list option) \<Rightarrow> Type \<Rightarrow> OStream \<Rightarrow> OStream option" where
  "Type_serialize nm t s = do {
     s \<leftarrow> addU32 s RS_A3D_CLASS_ID_TYPE;
     n \<leftarrow> nm (tId t);
     s \<leftarrow> addString s n;
     s \<leftarrow> Element_serialize nm (tElement t) s;
     s \<leftarrow> addU32 s (tDimX t);
     s \<leftarrow> addU32 s (tDimY t);
     s \<leftarrow> addU32 s (tDimZ t);
     s \<leftarrow> addU8 s (if tLodCount t \<noteq> 0 then 1 else 0);
     addU8 s (if tFaces t then 1 else 0) }"

definition Type_createFromStream :: "bool \<Rightarrow> nat \<Rightarrow> RsContext \<Rightarrow> IStream \<Rightarrow>
    (RsContext \<times> IStream \<times> Type option) option" where
  "Type_createFromStream lp64 n h t = do {
     (classID, t) \<leftarrow> loadU32 t;
     if classID \<noteq> RS_A3D_CLASS_ID_TYPE then Some (h, t, None)
     else do {
       (name, t) \<leftarrow> loadString t;
       (h, t, elem) \<leftarrow> Element_createFromStream lp64 n h t;
       case elem of None \<Rightarrow> Some (h, t, None)
       | Some elem \<Rightarrow> do {
           (dimX, t) \<leftarrow> loadU32 t;
           (dimY, t) \<leftarrow> loadU32 t;
           (dimZ, t) \<leftarrow> loadU32 t;
           (mipmaps, t) \<leftarrow> loadU8 t;
           (faces, t) \<leftarrow> loadU8 t;
           (h, type) \<leftarrow> getType h elem (zero_params\<lparr>pDimX := dimX, pDimY := dimY, pDimZ := dimZ,
             pMipmaps := (mipmaps \<noteq> 0), pFaces := (faces \<noteq> 0)\<rparr>);
           (h, _) \<leftarrow> decUserRef body_refs preDestroy (mNextAddr (mCache h)) h (eId elem);
           Some (h, t, Some type) } } }"

text \<open>The objects referred to by the cells that \<open>Type::incRefs\<close> visits; the loop is that of \<open>Type::decRefs\<close>.\<close>

definition Type_incRefs :: "(nat \<Rightarrow> nat option) \<Rightarrow> Type \<Rightarrow> nat \<Rightarrow> nat \<Rightarrow> nat \<Rightarrow> nat list option" where
  "Type_incRefs rd t ptr ct startOff =
     (let stride = unat (ucast (getSizeBytes (tElement t)) :: u32) in
      cells_refs rd (tElement t) stride ct (ptr + stride * startOff))"

section \<open>Mipmap levels and planes\<close>

text \<open>What a dimension should be at a mipmap level: halved, and never below one.\<close>

definition level_dim :: "nat \<Rightarrow> u32 \<Rightarrow> nat" where
  "level_dim k x = (if x = 0 then 0 else max 1 (unat x div 2 ^ k))"

lemma unat_half: "unat (half x) = (if 1 < unat x then unat x div 2 else unat x)"
  by (simp add: half_def word_less_nat_alt unat_drop_bit_1)

lemma unat_half_pow: "unat ((half ^^ k) x) = level_dim k x"
proof (induction k)
  case 0
  have "x \<noteq> 0 \<Longrightarrow> 0 < unat x"
    by (simp add: unat_gt_0)
  then show ?case
    by (auto simp: level_dim_def)
next
  case (Suc k)
  have "unat x div (2 * 2 ^ k) = unat x div 2 ^ k div 2"
    by (metis div_mult2_eq mult.commute)
  then show ?case
    using Suc by (auto simp: unat_half level_dim_def max_def)
qed

definition fill :: "nat \<Rightarrow> nat \<Rightarrow> u32 \<Rightarrow> u32 option list \<Rightarrow> u32 option list" where
  "fill lod k x xs = take lod xs @ map (\<lambda>i. Some ((half ^^ i) x)) [0..<k] @ drop (lod + k) xs"

lemma fill_step:
  assumes "lod < length xs"
  shows "fill (Suc lod) k (half x) (xs[lod := Some x]) = fill lod (Suc k) x xs"
proof -
  have "map (\<lambda>i. Some ((half ^^ i) x)) [0..<Suc k] = Some x # map (\<lambda>i. Some ((half ^^ i) (half x))) [0..<k]"
    unfolding upt_conv_Cons [OF zero_less_Suc] map_Suc_upt [symmetric] by (simp add: funpow_swap1)
  then show ?thesis
    using assms by (simp add: fill_def take_Suc_conv_app_nth)
qed

definition level_cells :: "u32 \<Rightarrow> u32 \<Rightarrow> u32 \<Rightarrow> nat \<Rightarrow> u64" where
  "level_cells x y z i = ucast ((half ^^ i) x * max ((half ^^ i) y) 1 * max ((half ^^ i) z) 1)"

lemma level_cells_Suc: "level_cells x y z (Suc i) = level_cells (half x) (half y) (half z) i"
  by (simp add: level_cells_def funpow_swap1)

lemma lod_loop_eq:
  assumes "lod + k \<le> length (tLodDimX t)" "lod + k \<le> length (tLodDimY t)" "lod + k \<le> length (tLodDimZ t)"
  shows "lod_loop k lod x y z t = Some (t\<lparr>tLodDimX := fill lod k x (tLodDimX t),
    tLodDimY := fill lod k y (tLodDimY t), tLodDimZ := fill lod k z (tLodDimZ t),
    tCellCount := tCellCount t + (\<Sum>i<k. level_cells x y z i)\<rparr>)"
  using assms
proof (induction k arbitrary: lod x y z t)
  case 0
  then show ?case
    by (simp add: fill_def)
next
  case (Suc k)
  have "ucast (x * max y 1 * max z 1) = level_cells x y z 0"
    by (simp add: level_cells_def)
  then show ?case
    using Suc by (simp add: set_at_def fill_step sum.lessThan_Suc_shift level_cells_Suc add.assoc
        del: sum.lessThan_Suc)
qed

definition levels :: "bool \<Rightarrow> u32 \<Rightarrow> u32 \<Rightarrow> u32 \<Rightarrow> nat" where
  "levels mip x y z = (if mip then Suc (max (max (unat (rsFindHighBit x)) (unat (rsFindHighBit y)))
     (unat (rsFindHighBit z))) else 1)"

lemma rsFindHighBit_le: "unat (rsFindHighBit x) < 32"
  by (cases "x = 0") (simp_all add: rsFindHighBit_log)

lemma unat_max: "unat (max a b :: u32) = max (unat a) (unat b)"
  by (simp add: max_def word_le_nat_alt)

lemma unat_Suc_HighBit: "unat (rsFindHighBit x + 1) = Suc (unat (rsFindHighBit x))"
  using rsFindHighBit_le [of x] by (simp add: unat_word_ariths)

text \<open>\<open>compute\<close> of a fresh type without YUV planes.\<close>

lemma Type_compute_plain:
  assumes "tLodCount t = 0" "tDimYuv t = 0"
  defines "n \<equiv> levels (tDimLOD t) (tDimX t) (tDimY t) (tDimZ t)"
  shows "Type_compute t = Some (t\<lparr>tLodCount := of_nat n,
    tLodDimX := map (\<lambda>i. Some ((half ^^ i) (tDimX t))) [0..<n],
    tLodDimY := map (\<lambda>i. Some ((half ^^ i) (tDimY t))) [0..<n],
    tLodDimZ := map (\<lambda>i. Some ((half ^^ i) (tDimZ t))) [0..<n],
    tCellCount := (\<Sum>i<n. level_cells (tDimX t) (tDimY t) (tDimZ t) i) * (if tFaces t then 6 else 1)\<rparr>)"
proof -
  have n: "0 < n" "n \<le> 32"
    using rsFindHighBit_le [of "tDimX t"] rsFindHighBit_le [of "tDimY t"] rsFindHighBit_le [of "tDimZ t"]
    by (auto simp: n_def levels_def)
  have "unat (lod_count t) = n"
    using assms(2) by (simp add: n_def levels_def lod_count_def unat_max unat_Suc_HighBit)
  from arg_cong [OF this, of "of_nat :: nat \<Rightarrow> u32"] have l: "lod_count t = of_nat n"
    unfolding of_nat_unat_eq_self .
  have u: "unat (of_nat n :: u32) = n"
    using n(2) by (simp add: unat_of_nat)
  then have nz: "(of_nat n :: u32) \<noteq> 0"
    using n(1) by (metis unat_0 less_numeral_extra(3))
  have fl: "fill 0 n x (replicate n None) = map (\<lambda>i. Some ((half ^^ i) x)) [0..<n]" for x
    by (simp add: fill_def)
  show ?thesis
    unfolding Type_compute_def Let_def using assms(2)
    by (simp add: l assms(1) nz u lod_loop_eq fl)
qed


lemma levels_bounds:
  fixes x y z :: u32
  assumes "mip"
  defines "n \<equiv> levels mip x y z" and "m \<equiv> max (max (unat x) (unat y)) (unat z)"
  shows "m < 2 ^ n" "m \<noteq> 0 \<Longrightarrow> 2 ^ (n - 1) \<le> m" "0 < n" "n \<le> 32"
proof -
  let ?h = "\<lambda>v. unat (rsFindHighBit v)"
  have up: "unat v < 2 ^ n" if "?h v < n" for v :: u32
  proof (cases "v = 0")
    case False
    have "(2::nat) ^ Suc (?h v) \<le> 2 ^ n"
      using that by (intro power_increasing) auto
    then show ?thesis
      using rsFindHighBit_log(2) [OF False] by simp
  qed simp
  have n: "n = Suc (max (max (?h x) (?h y)) (?h z))"
    using assms(1) by (simp add: n_def levels_def)
  show "m < 2 ^ n"
    unfolding m_def using up [of x] up [of y] up [of z] n by simp
  show "2 ^ (n - 1) \<le> m" if "m \<noteq> 0"
  proof -
    have lo: "2 ^ ?h v \<le> m" if "unat v \<le> m" for v :: u32
      using rsFindHighBit_log(1) [of v] \<open>m \<noteq> 0\<close> that by (cases "v = 0") auto
    have "?h x = n - 1 \<or> ?h y = n - 1 \<or> ?h z = n - 1"
      unfolding n by auto
    then show ?thesis
      using lo [of x] lo [of y] lo [of z] by (auto simp: m_def)
  qed
  show "0 < n" "n \<le> 32"
    using rsFindHighBit_le [of x] rsFindHighBit_le [of y] rsFindHighBit_le [of z] by (auto simp: n)
qed

lemma levels_le: "0 < levels mip x y z" "levels mip x y z \<le> 32"
  using levels_bounds(3,4) [of True x y z] by (cases mip; simp add: levels_def)+

lemma level_dim_le: "level_dim k x \<le> unat x"
  by (auto simp: level_dim_def Suc_le_eq unat_gt_0)

lemma unat_level_cells:
  assumes "unat x * max 1 (unat y) * max 1 (unat z) < 2 ^ 32"
  shows "unat (level_cells x y z k) = level_dim k x * max 1 (level_dim k y) * max 1 (level_dim k z)"
    and "unat (level_cells x y z k) < 2 ^ 32"
proof -
  let ?d = "\<lambda>x. level_dim k x"
  have "?d x * max 1 (?d y) \<le> unat x * max 1 (unat y)"
    using level_dim_le [of k x] level_dim_le [of k y] by (intro mult_le_mono) auto
  moreover have "?d x * max 1 (?d y) * max 1 (?d z) \<le> unat x * max 1 (unat y) * max 1 (unat z)"
    using level_dim_le [of k z] by (intro mult_le_mono [OF calculation]) auto
  moreover have "unat x * max 1 (unat y) \<le> unat x * max 1 (unat y) * max 1 (unat z)"
    using mult_le_mono2 [of 1 "max 1 (unat z)" "unat x * max 1 (unat y)"] by simp
  ultimately have b: "?d x * max 1 (?d y) < 2 ^ 32" "?d x * max 1 (?d y) * max 1 (?d z) < 2 ^ 32"
    using assms by linarith+
  have "unat ((half ^^ k) x * max ((half ^^ k) y) 1 * max ((half ^^ k) z) 1) =
      ?d x * max 1 (?d y) * max 1 (?d z)"
    using b by (simp add: unat_word_ariths unat_max unat_half_pow max.commute)
  then show "unat (level_cells x y z k) = ?d x * max 1 (?d y) * max 1 (?d z)"
    and "unat (level_cells x y z k) < 2 ^ 32"
    using b by (simp_all add: level_cells_def)
qed

lemma unat_sum_bounded:
  fixes f :: "nat \<Rightarrow> u64"
  assumes "\<And>i. i < n \<Longrightarrow> unat (f i) < 2 ^ 32" and "n \<le> 32"
  shows "unat (\<Sum>i<n. f i) = (\<Sum>i<n. unat (f i)) \<and> (\<Sum>i<n. unat (f i)) \<le> n * 2 ^ 32"
  using assms
proof (induction n)
  case (Suc n)
  then have ih: "unat (\<Sum>i<n. f i) = (\<Sum>i<n. unat (f i))" "(\<Sum>i<n. unat (f i)) \<le> n * 2 ^ 32"
    and fn: "unat (f n) < 2 ^ 32"
    by simp_all
  have "n * 2 ^ 32 \<le> 32 * (2 ^ 32 :: nat)"
    using Suc.prems(2) by (intro mult_le_mono) auto
  then have "unat (\<Sum>i<n. f i) + unat (f n) < 2 ^ LENGTH(64)"
    using ih fn by simp
  then show ?case
    using ih fn by (simp add: unat_add_bounded)
qed simp

text \<open>The parameters that \<open>getTypeRef\<close> handles without touching its array dimensions.\<close>

definition no_arrays :: "RsTypeCreateParams \<Rightarrow> bool" where
  "no_arrays p \<longleftrightarrow> pArray0 p = 0 \<and> pArray1 p = 0 \<and> pArray2 p = 0 \<and> pArray3 p = 0"

lemma make_arrays_none: "no_arrays p \<Longrightarrow> make_arrays p = Some [] \<and> array_count p = 0"
  by (simp add: no_arrays_def make_arrays_def array_count_def)

lemma new_type_plain:
  assumes "new_type i e p = Some t" "pYuv p = 0"
  defines "n \<equiv> levels (pMipmaps p) (pDimX p) (pDimY p) (pDimZ p)"
  shows "tLodCount t = of_nat n"
    "tLodDimX t = map (\<lambda>i. Some ((half ^^ i) (pDimX p))) [0..<n]"
    "tLodDimY t = map (\<lambda>i. Some ((half ^^ i) (pDimY p))) [0..<n]"
    "tLodDimZ t = map (\<lambda>i. Some ((half ^^ i) (pDimZ p))) [0..<n]"
    "tCellCount t = (\<Sum>i<n. level_cells (pDimX p) (pDimY p) (pDimZ p) i) * (if pFaces p then 6 else 1)"
  using assms by (auto simp: new_type_def Type_compute_plain)

lemma new_type_cells:
  assumes "new_type i e p = Some t" "pYuv p = 0"
    and small: "unat (pDimX p) * max 1 (unat (pDimY p)) * max 1 (unat (pDimZ p)) < 2 ^ 32"
  shows "unat (tCellCount t) = (\<Sum>k<levels (pMipmaps p) (pDimX p) (pDimY p) (pDimZ p). level_dim k (pDimX p) *
    max 1 (level_dim k (pDimY p)) * max 1 (level_dim k (pDimZ p))) * (if pFaces p then 6 else 1)"
proof -
  let ?n = "levels (pMipmaps p) (pDimX p) (pDimY p) (pDimZ p)"
  let ?f = "level_cells (pDimX p) (pDimY p) (pDimZ p)"
  have n: "?n \<le> 32"
    by (rule levels_le)
  have s: "unat (\<Sum>i<?n. ?f i) = (\<Sum>i<?n. unat (?f i))" "(\<Sum>i<?n. unat (?f i)) \<le> ?n * 2 ^ 32"
    using unat_sum_bounded [of ?n ?f] unat_level_cells(2) [OF small] n by auto
  have "?n * 2 ^ 32 \<le> 32 * (2 ^ 32 :: nat)"
    using n by (intro mult_le_mono) auto
  then have "unat ((\<Sum>i<?n. ?f i) * (if pFaces p then 6 else 1)) =
      (\<Sum>i<?n. unat (?f i)) * (if pFaces p then 6 else 1)"
    using s by (simp add: unat_word_ariths)
  then show ?thesis
    using unat_level_cells(1) [OF small] by (simp add: new_type_plain(5) [OF assms(1,2)])
qed

lemma yuv_planes_eq:
  assumes "tLodDimX t = [None, None, None]" "tLodDimY t = [None, None, None]" "tLodDimZ t = [None, None, None]"
  shows "yuv_planes t = Some (t\<lparr>
    tLodDimX := [Some (tDimX t), Some (if tDimYuv t = RS_YUV_NV21 then tDimX t else tDimX t div 2), Some (tDimX t div 2)],
    tLodDimY := [Some (tDimY t), Some (tDimY t div 2), Some (tDimY t div 2)],
    tLodDimZ := [Some (tDimZ t), None, None],
    tCellCount := tCellCount t + ucast (tDimX t * tDimY t) + ucast ((tDimX t div 2) * (tDimY t div 2)) +
      ucast ((tDimX t div 2) * (tDimY t div 2))\<rparr>)"
  unfolding yuv_planes_def Let_def assms by (simp add: set_at_def numeral_2_eq_2)

lemma Type_compute_yuv:
  assumes "tLodCount t = 0" "tDimYuv t \<noteq> 0" "\<not> tDimLOD t"
  shows "Type_compute t = Some (t\<lparr>tLodCount := 3,
    tLodDimX := [Some (tDimX t), Some (if tDimYuv t = RS_YUV_NV21 then tDimX t else tDimX t div 2), Some (tDimX t div 2)],
    tLodDimY := [Some (tDimY t), Some (tDimY t div 2), Some (tDimY t div 2)],
    tLodDimZ := [Some (tDimZ t), None, None],
    tCellCount := ucast (tDimX t * tDimY t) + ucast ((tDimX t div 2) * (tDimY t div 2)) +
      ucast ((tDimX t div 2) * (tDimY t div 2))\<rparr>)"
proof -
  have "lod_count t = 3"
    using assms by (simp add: lod_count_def)
  moreover have "replicate 3 None = [None, None, None :: u32 option]"
    by (simp add: numeral_3_eq_3)
  ultimately show ?thesis
    using assms by (simp add: Type_compute_def Let_def yuv_planes_eq)
qed

lemma Type_compute_short:
  assumes "tLodCount t = 0" "tDimYuv t \<noteq> 0" "unat (lod_count t) \<le> 2" "tLodDimX t = []"
  shows "Type_compute t = None"
proof -
  have n: "yuv_planes t' = None" if "length (tLodDimX t') \<le> 2" for t'
    using that by (simp add: yuv_planes_def set_at_def Let_def)
  show ?thesis
    using assms by (cases "lod_count t = 0") (auto simp: Type_compute_def Let_def intro!: n)
qed

lemma Type_compute_total:
  assumes "tLodCount t = 0" "tDimYuv t = 0 \<or> \<not> tDimLOD t"
  obtains t' where "Type_compute t = Some t'" "tId t' = tId t" "tElement t' = tElement t"
    "tDimX t' = tDimX t" "tDimY t' = tDimY t" "tDimZ t' = tDimZ t" "tDimLOD t' = tDimLOD t"
    "tFaces t' = tFaces t" "tDimYuv t' = tDimYuv t" "tArrayCount t' = tArrayCount t" "tArrays t' = tArrays t"
  using assms Type_compute_plain [of t] Type_compute_yuv [of t] by (cases "tDimYuv t = 0") auto

section \<open>The cache\<close>

text \<open>Types whose array dimensions can be read.\<close>

definition arrays_init :: "Type \<Rightarrow> bool" where
  "arrays_init t \<longleftrightarrow> getArray t 0 \<noteq> None \<and> getArray t 1 \<noteq> None \<and> getArray t 2 \<noteq> None \<and>
     getArray t 3 \<noteq> None"

definition params_ok :: "RsTypeCreateParams \<Rightarrow> bool" where
  "params_ok p \<longleftrightarrow> no_arrays p \<and> (pYuv p = 0 \<or> \<not> pMipmaps p)"

lemma type_match_total: "arrays_init t \<Longrightarrow> type_match e p t \<noteq> None"
  by (auto simp: arrays_init_def type_match_def)

lemma find_type_eq:
  "\<forall>t \<in> set ts. arrays_init t \<Longrightarrow>
   find_type e p ts = Some (find (\<lambda>t. type_match e p t = Some True) ts)"
proof (induction ts)
  case (Cons t ts)
  obtain m where "type_match e p t = Some m"
    using type_match_total Cons.prems by fastforce
  then show ?case
    using Cons by (cases m) auto
qed simp

lemma arrays_matchD: "arrays_match t avs = Some True \<Longrightarrow> (i, v) \<in> set avs \<Longrightarrow> getArray t i = Some v"
  by (induction avs) (auto split: if_splits)

lemma type_matchD:
  assumes "type_match e p t = Some True"
  shows "eId (tElement t) = eId e" "tDimX t = pDimX p" "tDimY t = pDimY p" "tDimZ t = pDimZ p"
    "tDimLOD t = pMipmaps p" "tFaces t = pFaces p" "tDimYuv t = pYuv p" "getArray t 0 = Some (pArray0 p)"
    "getArray t 1 = Some (pArray1 p)" "getArray t 2 = Some (pArray2 p)" "getArray t 3 = Some (pArray3 p)"
proof -
  have m: "\<not> (eId (tElement t) \<noteq> eId e \<or> tDimX t \<noteq> pDimX p \<or> tDimY t \<noteq> pDimY p \<or> tDimZ t \<noteq> pDimZ p \<or>
        tDimLOD t \<noteq> pMipmaps p \<or> tFaces t \<noteq> pFaces p \<or> tDimYuv t \<noteq> pYuv p)"
    "arrays_match t [(0, pArray0 p), (1, pArray1 p), (2, pArray2 p), (3, pArray3 p)] = Some True"
    using assms unfolding type_match_def by (metis (no_types) option.inject)+
  show "eId (tElement t) = eId e" "tDimX t = pDimX p" "tDimY t = pDimY p" "tDimZ t = pDimZ p"
    "tDimLOD t = pMipmaps p" "tFaces t = pFaces p" "tDimYuv t = pYuv p"
    using m(1) by simp_all
  show "getArray t 0 = Some (pArray0 p)" "getArray t 1 = Some (pArray1 p)" "getArray t 2 = Some (pArray2 p)"
    "getArray t 3 = Some (pArray3 p)"
    by (rule arrays_matchD [OF m(2)]; simp)+
qed

lemma new_type_ok:
  assumes "params_ok p"
  shows "\<exists>t. new_type i e p = Some t \<and> tId t = i \<and> tElement t = e \<and> arrays_init t \<and>
    type_match e p t = Some True"
proof -
  let ?t = "\<lparr>tId = i, tElement = e, tDimX = pDimX p, tDimY = pDimY p, tDimZ = pDimZ p,
       tLodDimX = [], tLodDimY = [], tLodDimZ = [], tArrays = [], tLodCount = 0, tDimYuv = pYuv p,
       tArrayCount = 0, tFaces = pFaces p, tDimLOD = pMipmaps p, tCellCount = 0\<rparr>"
  have a: "no_arrays p"
    using assms by (simp add: params_ok_def)
  have "tDimYuv ?t = 0 \<or> \<not> tDimLOD ?t"
    using assms by (simp add: params_ok_def)
  then obtain t where t: "Type_compute ?t = Some t" "tId t = i" "tElement t = e" "tDimX t = pDimX p"
      "tDimY t = pDimY p" "tDimZ t = pDimZ p" "tDimLOD t = pMipmaps p" "tFaces t = pFaces p"
      "tDimYuv t = pYuv p" "tArrayCount t = 0"
    using Type_compute_total [of ?t] by auto
  moreover have "new_type i e p = Type_compute ?t"
    using make_arrays_none [OF a] by (simp add: new_type_def)
  moreover have "arrays_init t" "type_match e p t = Some True"
    using t a by (simp_all add: arrays_init_def getArray_def type_match_def no_arrays_def)
  ultimately show ?thesis
    by auto
qed

text \<open>A type as \<open>getTypeRef\<close> makes it.\<close>

definition type_wf :: "Type \<Rightarrow> bool" where
  "type_wf t \<longleftrightarrow> (\<exists>p. params_ok p \<and> new_type (tId t) (tElement t) p = Some t)"

lemma type_wf_init: "type_wf t \<Longrightarrow> arrays_init t"
  unfolding type_wf_def using new_type_ok by (metis option.inject)

section \<open>Properties\<close>

text \<open>
  C12. The mipmap chain of a type without YUV planes. Level \<open>k\<close> has every dimension halved \<open>k\<close>
  times but never below one (absent dimensions stay absent); with mipmaps the chain has exactly as
  many levels as it takes to bring the largest dimension down to one, otherwise one; and the cell
  count is the number of cells of all levels and faces, whenever the base level has fewer than
  \<open>2 ^ 32\<close> cells.
\<close>

theorem Type_mipmaps:
  assumes "new_type i e p = Some t" and "pYuv p = 0"
  defines "n \<equiv> unat (tLodCount t)" and "m \<equiv> max (max (unat (pDimX p)) (unat (pDimY p))) (unat (pDimZ p))"
  shows "(\<forall>k < n. \<exists>x y z. getLODDimX t (of_nat k) = Some x \<and> unat x = level_dim k (pDimX p) \<and>
      getLODDimY t (of_nat k) = Some y \<and> unat y = level_dim k (pDimY p) \<and>
      getLODDimZ t (of_nat k) = Some z \<and> unat z = level_dim k (pDimZ p)) \<and>
    (if pMipmaps p then m < 2 ^ n \<and> (m \<noteq> 0 \<longrightarrow> 2 ^ (n - 1) \<le> m) else n = 1) \<and>
    (unat (pDimX p) * max 1 (unat (pDimY p)) * max 1 (unat (pDimZ p)) < 2 ^ 32 \<longrightarrow>
      unat (tCellCount t) = (\<Sum>k<n. level_dim k (pDimX p) * max 1 (level_dim k (pDimY p)) *
        max 1 (level_dim k (pDimZ p))) * (if pFaces p then 6 else 1))"
proof (intro conjI impI)
  let ?n = "levels (pMipmaps p) (pDimX p) (pDimY p) (pDimZ p)"
  note t = new_type_plain [OF assms(1,2)]
  have n: "n = ?n"
    using levels_le(2) [of "pMipmaps p" "pDimX p" "pDimY p" "pDimZ p"]
    unfolding n_def t(1) by (simp add: unat_of_nat)
  show "\<forall>k < n. \<exists>x y z. getLODDimX t (of_nat k) = Some x \<and> unat x = level_dim k (pDimX p) \<and>
      getLODDimY t (of_nat k) = Some y \<and> unat y = level_dim k (pDimY p) \<and>
      getLODDimZ t (of_nat k) = Some z \<and> unat z = level_dim k (pDimZ p)"
  proof (intro allI impI)
    fix k assume "k < n"
    moreover from this have "unat (of_nat k :: u32) = k"
      using levels_le(2) [of "pMipmaps p" "pDimX p" "pDimY p" "pDimZ p"] n by (simp add: unat_of_nat)
    ultimately show "\<exists>x y z. getLODDimX t (of_nat k) = Some x \<and> unat x = level_dim k (pDimX p) \<and>
      getLODDimY t (of_nat k) = Some y \<and> unat y = level_dim k (pDimY p) \<and>
      getLODDimZ t (of_nat k) = Some z \<and> unat z = level_dim k (pDimZ p)"
      by (simp add: getLODDimX_def getLODDimY_def getLODDimZ_def get_at_def t(2-4) n unat_half_pow)
  qed
  show "if pMipmaps p then m < 2 ^ n \<and> (m \<noteq> 0 \<longrightarrow> 2 ^ (n - 1) \<le> m) else n = 1"
    using levels_bounds(1,2) [of True "pDimX p" "pDimY p" "pDimZ p"] unfolding n m_def
    by (auto simp: levels_def)
  assume small: "unat (pDimX p) * max 1 (unat (pDimY p)) * max 1 (unat (pDimZ p)) < 2 ^ 32"
  show "unat (tCellCount t) = (\<Sum>k<n. level_dim k (pDimX p) * max 1 (level_dim k (pDimY p)) *
        max 1 (level_dim k (pDimZ p))) * (if pFaces p then 6 else 1)"
    using new_type_cells [OF assms(1,2) small] by (simp add: n)
qed

theorem Type_mipmaps_witness:
  "\<exists>t. new_type 2 (float_element 1) (zero_params\<lparr>pDimX := 5, pDimY := 3, pMipmaps := True\<rparr>) = Some t \<and>
    unat (tLodCount t) = 3 \<and> getLODDimX t 2 = Some 1 \<and> unat (tCellCount t) = 18"
proof -
  let ?p = "zero_params\<lparr>pDimX := 5, pDimY := 3, pMipmaps := True\<rparr>"
  have p: "pDimX ?p = 5" "pDimY ?p = 3" "pDimZ ?p = 0" "pMipmaps ?p" "pYuv ?p = 0" "\<not> pFaces ?p"
    by (simp_all add: zero_params_def)
  obtain t where t: "new_type 2 (float_element 1) ?p = Some t"
    using make_arrays_none [of ?p] p by (simp add: new_type_def Type_compute_plain no_arrays_def zero_params_def)
  note T = Type_mipmaps [OF t p(5), unfolded p]
  let ?n = "unat (tLodCount t)"
  have "5 < (2::nat) ^ ?n" "(2::nat) ^ (?n - 1) \<le> 5"
    using T p(4) by simp_all
  then have p23: "(2::nat) ^ 2 < 2 ^ ?n" "(2::nat) ^ (?n - 1) < 2 ^ 3"
    by simp_all
  have "2 < ?n" "?n - 1 < 3"
    using p23 by (blast dest: pow2_lessD)+
  then have n: "?n = 3"
    by simp
  have "getLODDimX t 2 = Some 1"
    using conjunct1 [OF T, rule_format, of 2] n by (auto simp: level_dim_def word_unat_eq_iff)
  moreover have "(\<Sum>k<3. f k) = f 0 + f 1 + f 2" for f :: "nat \<Rightarrow> nat"
    by (simp add: numeral_3_eq_3 numeral_2_eq_2)
  then have "unat (tCellCount t) = 18"
    using conjunct2 [OF conjunct2 [OF T]] p(6) by (simp add: n level_dim_def)
  ultimately show ?thesis
    using t n by blast
qed


text \<open>
  C13. The planes of a YUV type: the luma plane has the full size and both chroma planes half of it
  in each direction, except that the interleaved chroma plane of NV21 keeps the full width. The
  depth of the chroma planes is never stored, and mipmaps with fewer than three levels make
  \<open>compute\<close> write outside its arrays.
\<close>

theorem Type_yuv:
  assumes "pYuv p \<noteq> 0" and "no_arrays p"
  shows "(\<not> pMipmaps p \<longrightarrow> (\<exists>t. new_type i e p = Some t \<and> tLodCount t = 3 \<and>
      getLODDimX t 0 = Some (pDimX p) \<and> getLODDimY t 0 = Some (pDimY p) \<and>
      getLODDimX t 1 = Some (if pYuv p = RS_YUV_NV21 then pDimX p else pDimX p div 2) \<and>
      getLODDimY t 1 = Some (pDimY p div 2) \<and>
      getLODDimX t 2 = Some (pDimX p div 2) \<and> getLODDimY t 2 = Some (pDimY p div 2) \<and>
      getLODDimZ t 1 = None \<and> getLODDimZ t 2 = None)) \<and>
    (pMipmaps p \<and> pDimX p < 4 \<and> pDimY p < 4 \<and> pDimZ p < 4 \<longrightarrow> new_type i e p = None)"
proof (intro conjI impI; (elim conjE)?)
  assume "\<not> pMipmaps p"
  then show "\<exists>t. new_type i e p = Some t \<and> tLodCount t = 3 \<and>
      getLODDimX t 0 = Some (pDimX p) \<and> getLODDimY t 0 = Some (pDimY p) \<and>
      getLODDimX t 1 = Some (if pYuv p = RS_YUV_NV21 then pDimX p else pDimX p div 2) \<and>
      getLODDimY t 1 = Some (pDimY p div 2) \<and>
      getLODDimX t 2 = Some (pDimX p div 2) \<and> getLODDimY t 2 = Some (pDimY p div 2) \<and>
      getLODDimZ t 1 = None \<and> getLODDimZ t 2 = None"
    using assms make_arrays_none [OF assms(2)]
    by (simp add: new_type_def Type_compute_yuv getLODDimX_def getLODDimY_def getLODDimZ_def get_at_def)
next
  assume m: "pMipmaps p" "pDimX p < 4" "pDimY p < 4" "pDimZ p < 4"
  let ?t = "\<lparr>tId = i, tElement = e, tDimX = pDimX p, tDimY = pDimY p, tDimZ = pDimZ p,
       tLodDimX = [], tLodDimY = [], tLodDimZ = [], tArrays = [], tLodCount = 0, tDimYuv = pYuv p,
       tArrayCount = 0, tFaces = pFaces p, tDimLOD = pMipmaps p, tCellCount = 0\<rparr>"
  have h: "unat (rsFindHighBit v) \<le> 1" if "v < 4" for v :: u32
  proof (cases "v = 0")
    case False
    have "(2::nat) ^ unat (rsFindHighBit v) < 2 ^ 2"
      using rsFindHighBit_log(1) [OF False] that by (simp add: word_less_nat_alt)
    then have "unat (rsFindHighBit v) < 2"
      by (rule pow2_lessD)
    then show ?thesis
      by simp
  qed simp
  have "unat (lod_count ?t) \<le> 2"
    using h [OF m(2)] h [OF m(3)] h [OF m(4)] m(1) by (simp add: lod_count_def unat_max unat_Suc_HighBit)
  then have "Type_compute ?t = None"
    using assms(1) by (intro Type_compute_short) simp_all
  then show "new_type i e p = None"
    using make_arrays_none [OF assms(2)] by (simp add: new_type_def)
qed

theorem Type_yuv_witness:
  "\<exists>t. new_type 2 (float_element 1) (zero_params\<lparr>pDimX := 6, pDimY := 4, pYuv := RS_YUV_NV21\<rparr>) = Some t \<and>
    getLODDimX t 1 = Some 6 \<and> getLODDimX t 2 = Some 3 \<and> getLODDimY t 1 = Some 2"
  using conjunct1 [OF Type_yuv [of "zero_params\<lparr>pDimX := 6, pDimY := 4, pYuv := RS_YUV_NV21\<rparr>" 2 "float_element 1"]]
  by (auto simp: zero_params_def no_arrays_def RS_YUV_NV21_def)

text \<open>
  C27. Array dimensions. A request with only the second array dimension makes \<open>getTypeRef\<close> write
  past the end of the array it has just allocated, and a second dimension of one is counted but
  never stored, so that reading it back gives an indeterminate value.
\<close>

theorem Type_array_overrun:
  assumes "pArray1 p > 0" and "pArray2 p = 0" and "pArray3 p = 0" and "pYuv p = 0"
  shows "(pArray0 p = 0 \<and> pArray1 p > 1 \<longrightarrow> new_type i e p = None) \<and>
    (pArray0 p > 0 \<and> pArray1 p = 1 \<longrightarrow> (\<exists>t. new_type i e p = Some t \<and> tArrayCount t = 2 \<and>
      getArray t 0 = Some (pArray0 p) \<and> getArray t 1 = None)) \<and>
    (pArray0 p > 0 \<and> pArray1 p > 1 \<longrightarrow> (\<exists>t. new_type i e p = Some t \<and> tArrayCount t = 2 \<and>
      getArray t 0 = Some (pArray0 p) \<and> getArray t 1 = Some (pArray1 p)))"
  using assms
  by (auto simp: new_type_def make_arrays_def array_count_def Type_compute_plain getArray_def get_at_def
      set_at_def)

theorem Type_array_overrun_witness:
  "new_type 2 (float_element 1) (zero_params\<lparr>pDimX := 1, pArray1 := 5\<rparr>) = None"
  using conjunct1 [OF Type_array_overrun [of "zero_params\<lparr>pDimX := 1, pArray1 := 5\<rparr>" 2 "float_element 1"]]
  by (simp add: zero_params_def)

end
