(* ===== verification/Rs_ElementCache.thy ===== *)
theory Rs_ElementCache
  imports Rs_Type
begin

text \<open>
  What holds of the object heap while elements are created, shared and dropped: every element
  in it is the one \<open>compute\<close> builds, its fields are live objects of the heap, and the counts are
  exact. Every operation of \<^verbatim>\<open>rsElement.cpp\<close> keeps this invariant, and loading an element from a
  file gives back the element that was written.
\<close>

section \<open>The invariant\<close>

definition comp_wf :: "bool \<Rightarrow> Component \<Rightarrow> bool" where
  "comp_wf lp64 c \<longleftrightarrow> Component_set lp64 (Component_new 0) (cType c) (cKind c) (cNormalized c)
     (cVectorSize c) = Some c"

inductive elem_wf :: "bool \<Rightarrow> Element \<Rightarrow> bool" for lp64 where
  scalar: "comp_wf lp64 c \<Longrightarrow> elem_wf lp64 (Element_compute (Element i c [] 0 0 False))"
| struct: "fs \<noteq> [] \<Longrightarrow> (\<forall>f \<in> set fs. elem_wf lp64 (fE f)) \<Longrightarrow>
    elem_wf lp64 (Element_compute (Element i (Component_new 0) fs 0 0 False))"

definition body_id :: "RsBody \<Rightarrow> nat" where
  "body_id b = (case b of BElement e \<Rightarrow> eId e | BType t \<Rightarrow> tId t | BAllocation a \<Rightarrow> aId a)"

definition body_links :: "RsBody \<Rightarrow> (nat \<times> RsBody) set" where
  "body_links b = (case b of
       BElement e \<Rightarrow> (\<lambda>f. (eId (fE f), BElement (fE f))) ` set (eFields e)
     | BType t \<Rightarrow> {(eId (tElement t), BElement (tElement t))}
     | BAllocation a \<Rightarrow> {(tId (aType a), BType (aType a))})"

definition body_wf :: "bool \<Rightarrow> RsBody \<Rightarrow> bool" where
  "body_wf lp64 b = (case b of BElement e \<Rightarrow> elem_wf lp64 e | BType t \<Rightarrow> type_wf t | _ \<Rightarrow> True)"

definition bodies :: "('b, 'c) Context \<Rightarrow> nat \<rightharpoonup> 'b" where
  "bodies h p = map_option mBody (mObjs h p)"

text \<open>References lead to live, older objects with the content the referring object knows.\<close>

definition node_ok :: "bool \<Rightarrow> (nat \<rightharpoonup> RsBody) \<Rightarrow> nat \<Rightarrow> RsBody \<Rightarrow> bool" where
  "node_ok lp64 B p b \<longleftrightarrow> body_id b = p \<and> body_wf lp64 b \<and>
     (\<forall>q c. (q, c) \<in> body_links b \<longrightarrow> q < p \<and> B q = Some c)"

definition heap_ok :: "bool \<Rightarrow> (nat \<rightharpoonup> RsBody) \<Rightarrow> nat \<Rightarrow> bool" where
  "heap_ok lp64 B n \<longleftrightarrow> dom B \<subseteq> {..<n} \<and> (\<forall>p b. B p = Some b \<longrightarrow> node_ok lp64 B p b)"

definition ctx_ok :: "bool \<Rightarrow> RsContext \<Rightarrow> nat list \<Rightarrow> nat multiset \<Rightarrow> bool" where
  "ctx_ok lp64 h xs ext \<longleftrightarrow> ref_inv body_refs caches_ok cached h xs ext \<and> dom (bodies h) = set xs \<and>
     heap_ok lp64 (bodies h) (mNextAddr (mCache h))"

text \<open>User references, and what a call may do to the objects that were there before it.\<close>

definition ucount :: "('b, 'c) Context \<Rightarrow> nat \<Rightarrow> int" where
  "ucount h p = (case mObjs h p of None \<Rightarrow> 0 | Some ob \<Rightarrow> mUserRefCount ob)"

definition grown :: "RsContext \<Rightarrow> RsContext \<Rightarrow> nat multiset \<Rightarrow> bool" where
  "grown h h' us \<longleftrightarrow> bodies h \<subseteq>\<^sub>m bodies h' \<and> (\<forall>q. ucount h' q = ucount h q + int (count us q)) \<and>
     set (mElements (mCache h)) \<subseteq> set (mElements (mCache h'))"

lemma grown_refl: "grown h h {#}"
  by (simp add: grown_def)

lemma grown_trans: "grown h h1 us \<Longrightarrow> grown h1 h2 vs \<Longrightarrow> grown h h2 (us + vs)"
  unfolding grown_def by (auto intro: map_le_trans)

lemma bodies_Some: "bodies h p = Some b \<longleftrightarrow> (\<exists>ob. mObjs h p = Some ob \<and> mBody ob = b)"
  by (auto simp: bodies_def)

lemma dom_bodies [simp]: "dom (bodies h) = dom (mObjs h)"
  by (auto simp: bodies_def dom_def)

lemma bodies_upd: "mObjs h p = Some ob \<Longrightarrow> mBody ob' = mBody ob \<Longrightarrow>
    bodies (h\<lparr>mObjs := (mObjs h)(p \<mapsto> ob')\<rparr>) = bodies h"
  by (auto simp: bodies_def)

lemma bodies_core: "bodies h p = map_option (\<lambda>(_, _, _, b). b) (core h p)"
  by (simp add: bodies_def core_def option.map_comp o_def)

lemma ucount_core: "ucount h p = (case core h p of None \<Rightarrow> 0 | Some (_, _, u, _) \<Rightarrow> u)"
  by (auto simp: ucount_def core_def split: option.splits)

lemma ctx_okD:
  assumes "ctx_ok lp64 h xs ext"
  shows "counts_ok (refs_of body_refs) h xs ext" "caches_ok (mCache h)" "cache_inv cached h xs"
    "dom (mObjs h) = set xs" "heap_ok lp64 (bodies h) (mNextAddr (mCache h))" "readable body_refs h xs"
  using assms by (simp_all add: ctx_ok_def ref_inv_def)

lemma heap_okD:
  assumes "heap_ok lp64 B n" "B p = Some b"
  shows "body_id b = p" "body_wf lp64 b" "p < n"
    "(q, c) \<in> body_links b \<Longrightarrow> q < p" "(q, c) \<in> body_links b \<Longrightarrow> B q = Some c"
proof -
  have "p \<in> {..<n}"
    using assms unfolding heap_ok_def by (meson domI subsetD)
  then show "p < n"
    by simp
  have "node_ok lp64 B p b"
    using assms by (simp add: heap_ok_def)
  then show "body_id b = p" "body_wf lp64 b"
    "(q, c) \<in> body_links b \<Longrightarrow> q < p" "(q, c) \<in> body_links b \<Longrightarrow> B q = Some c"
    unfolding node_ok_def by blast+
qed

lemma body_refs_links: "body_refs b = Some qs \<Longrightarrow> fst ` body_links b \<subseteq> set qs"
  by (auto simp: body_refs_def body_links_def Element_clear_def Type_clear_def Allocation_destroy_def split: RsBody.splits)

lemma heap_ok_new:
  assumes ok: "heap_ok lp64 B n" and p: "n \<le> p" "p < m"
    and b: "body_id b = p" "body_wf lp64 b" "\<And>q c. (q, c) \<in> body_links b \<Longrightarrow> B q = Some c"
  shows "heap_ok lp64 (B(p \<mapsto> b)) m"
proof -
  have lt: "q < p" if "B q = Some c" for q c
    using heap_okD(3) [OF ok that] p by simp
  have "node_ok lp64 (B(p \<mapsto> b)) q c" if q: "(B(p \<mapsto> b)) q = Some c" for q c
  proof (cases "q = p")
    case True
    then show ?thesis
      using q b lt by (fastforce simp: node_ok_def)
  next
    case False
    then have "B q = Some c"
      using q by simp
    then show ?thesis
      unfolding node_ok_def using heap_okD [OF ok] lt by (metis fun_upd_other less_irrefl)
  qed
  moreover have "dom (B(p \<mapsto> b)) \<subseteq> {..<m}"
    using p lt by fastforce
  ultimately show ?thesis
    unfolding heap_ok_def by blast
qed

text \<open>Changing counts keeps everything but the counts.\<close>

lemma ctx_ok_upd:
  assumes ok: "ctx_ok lp64 h xs ext" and ob: "mObjs h p = Some ob" "mBody ob' = mBody ob"
    and cnt: "counts_ok (refs_of body_refs) (h\<lparr>mObjs := (mObjs h)(p \<mapsto> ob')\<rparr>) xs ext'"
  shows "ctx_ok lp64 (h\<lparr>mObjs := (mObjs h)(p \<mapsto> ob')\<rparr>) xs ext'"
  unfolding ctx_ok_def ref_inv_def bodies_upd [OF ob]
proof (intro conjI)
  show "dom (bodies h) = set xs"
    using ctx_okD(4) [OF ok] by simp
qed (use cnt ctx_okD [OF ok] cache_inv_upd [OF ctx_okD(3) [OF ok] ob]
    readable_upd [OF ctx_okD(6) [OF ok] ob] in simp_all)

lemma incSysRef_ok:
  assumes ok: "ctx_ok lp64 h xs ext" and p: "p \<in> set xs"
  shows "\<exists>h'. incSysRef h p = Some h' \<and> ctx_ok lp64 h' xs (add_mset p ext) \<and> grown h h' {#} \<and>
    mCache h' = mCache h"
proof -
  obtain ob where ob: "mObjs h p = Some ob"
    using p ctx_okD(4) [OF ok] by blast
  show ?thesis
  proof (intro exI conjI)
    let ?h = "h\<lparr>mObjs := (mObjs h)(p \<mapsto> ob\<lparr>mSysRefCount := mSysRefCount ob + 1\<rparr>)\<rparr>"
    show "incSysRef h p = Some ?h"
      using ob by (simp add: incSysRef_def upd_obj_def)
    show "ctx_ok lp64 ?h xs (add_mset p ext)"
      by (rule ctx_ok_upd [OF ok ob _ counts_ok_inc [OF ctx_okD(1) [OF ok] ob p]]) simp
    show "grown h ?h {#}"
      using ob by (simp add: grown_def bodies_upd ucount_def)
  qed simp
qed

text \<open>\<open>create\<close> turns the reference it got from \<open>createRef\<close> into a user reference.\<close>

lemma to_user_ref_ok:
  assumes ok: "ctx_ok lp64 h xs (add_mset p ext)"
  shows "\<exists>h'. to_user_ref h p = Some h' \<and> ctx_ok lp64 h' xs ext \<and> grown h h' {#p#} \<and>
    mCache h' = mCache h"
proof -
  note cnt = ctx_okD(1) [OF ok]
  have p: "p \<in> set xs"
    using counts_okD(2) [OF cnt] by simp
  obtain ob where ob: "mObjs h p = Some ob"
    using p ctx_okD(4) [OF ok] by blast
  let ?o1 = "ob\<lparr>mUserRefCount := mUserRefCount ob + 1\<rparr>"
  let ?h1 = "h\<lparr>mObjs := (mObjs h)(p \<mapsto> ?o1)\<rparr>"
  let ?o2 = "?o1\<lparr>mSysRefCount := mSysRefCount ob - 1\<rparr>"
  let ?h2 = "?h1\<lparr>mObjs := (mObjs ?h1)(p \<mapsto> ?o2)\<rparr>"
  have nn: "0 \<le> mUserRefCount ob"
    by (rule counts_okD(4) [OF cnt p ob])
  have 1: "ctx_ok lp64 ?h1 xs (add_mset p ext)"
    using nn by (intro ctx_ok_upd [OF ok ob] counts_ok_user [OF cnt ob]) simp_all
  have o1: "mObjs ?h1 p = Some ?o1"
    by simp
  have "counts_ok (refs_of body_refs) ?h2 xs ext"
    using counts_ok_dec [OF ctx_okD(1) [OF 1] o1] by simp
  then have "ctx_ok lp64 ?h2 xs ext"
    by (intro ctx_ok_upd [OF 1 o1]) simp_all
  moreover have "to_user_ref h p = Some ?h2"
    using ob nn by (simp add: to_user_ref_def incUserRef_def upd_obj_def)
  moreover have "grown h ?h2 {#p#}"
    using ob by (simp add: grown_def bodies_upd ucount_def)
  ultimately show ?thesis
    by simp
qed

section \<open>Creating elements\<close>

lemma counts_ok_cache [simp]: "counts_ok refs (h\<lparr>mCache := c\<rparr>) xs ext = counts_ok refs h xs ext"
  by (simp add: counts_ok_def held_def obj_refs_def [abs_def] linked_def lnk_def [abs_def])

lemma bodies_cache [simp]: "bodies (h\<lparr>mCache := c\<rparr>) = bodies h"
  by (simp add: bodies_def [abs_def])

lemma ucount_cache [simp]: "ucount (h\<lparr>mCache := c\<rparr>) = ucount h"
  by (simp add: ucount_def [abs_def])

lemma cache_inv_bodies:
  "cache_inv cached h xs \<longleftrightarrow> (\<forall>q b. (q, b) \<in> cached (mCache h) \<longrightarrow> q \<in> set xs \<and> bodies h q = Some b)"
  by (simp add: cache_inv_def bodies_Some)

lemma readable_bodies: "readable refs h xs \<longleftrightarrow> (\<forall>q \<in> set xs. \<forall>b. bodies h q = Some b \<longrightarrow> refs b \<noteq> None)"
  by (auto simp: readable_def bodies_Some)

lemma cached_element:
  assumes "ctx_ok lp64 h xs ext" "e \<in> set (mElements (mCache h))"
  shows "eId e \<in> set xs" "bodies h (eId e) = Some (BElement e)"
proof -
  have "(eId e, BElement e) \<in> cached (mCache h)"
    using assms(2) by (simp add: cached_def)
  then show "eId e \<in> set xs" "bodies h (eId e) = Some (BElement e)"
    using ctx_okD(3) [OF assms(1)] unfolding cache_inv_bodies by blast+
qed

lemma allocRuntimeMem_Some:
  assumes "allocRuntimeMem h = (h1, Some p)"
  shows "p = mNextAddr (mCache h)" "0 < mAvail (mCache h)"
    "h1 = h\<lparr>mCache := (mCache h)\<lparr>mNextAddr := Suc p, mAvail := mAvail (mCache h) - 1\<rparr>\<rparr>"
  using assms by (auto simp: allocRuntimeMem_def split: if_splits)

text \<open>
  Entering a fresh object in the heap and in its cache: \<open>g\<close> is the cache update, \<open>qs\<close> the
  references the new object takes.
\<close>

lemma enter_object_ok:
  assumes ok: "ctx_ok lp64 h xs ext" and al: "allocRuntimeMem h = (h1, Some p)"
    and b: "body_wf lp64 b" "body_id b = p" "body_refs b = Some rs" "mset qs = mset rs" "set rs \<subseteq> fst ` body_links b"
    and links: "\<And>q c. (q, c) \<in> body_links b \<Longrightarrow> bodies h q = Some c"
    and g: "\<And>c. cached (g c) \<subseteq> insert (p, b) (cached c)" "\<And>c. mNextAddr (g c) = mNextAddr c"
      "\<And>c. set (mElements c) \<subseteq> set (mElements (g c))"
      "\<And>c. caches_ok c \<Longrightarrow> p \<notin> fst ` cached c \<Longrightarrow> caches_ok (g c)"
  shows "\<exists>h2 h3. ObjectBase_new h1 p b = Some h2 \<and> incSysRefs h2 (p # qs) = Some h3 \<and>
    mCache h3 = mCache h1 \<and> bodies h3 = (bodies h)(p \<mapsto> b) \<and>
    ctx_ok lp64 (h3\<lparr>mCache := g (mCache h3)\<rparr>) (p # xs) (add_mset p ext) \<and>
    grown h (h3\<lparr>mCache := g (mCache h3)\<rparr>) {#}"
proof -
  note h1 = allocRuntimeMem_Some [OF al] and D = ctx_okD [OF ok]
  have fresh: "p \<notin> dom (mObjs h)"
    using D(5) unfolding heap_ok_def h1(1) by auto
  then have px: "p \<notin> set xs"
    using D(4) by simp
  have qs: "set qs \<subseteq> set xs"
    using links D(4) mset_eq_setD [OF b(4)] b(5) by (force simp: bodies_Some)
  have c1: "counts_ok (refs_of body_refs) h1 xs ext" "p \<notin> dom (mObjs h1)"
    using D(1) fresh by (simp_all add: h1(3))
  obtain h2 h3 where h2: "ObjectBase_new h1 p b = Some h2" "incSysRefs h2 (p # qs) = Some h3"
      "counts_ok (refs_of body_refs) h3 (p # xs) (add_mset p ext)" "mCache h3 = mCache h1"
      "core h3 = (\<lambda>q. map_option (\<lambda>(nm, s, u, b). (nm, s + int (count (mset (p # qs)) q), u, b))
      (((core h1)(p \<mapsto> (None, 0, 0, b))) q))"
    using counts_ok_new [OF c1, of qs b] qs b(3,4) by auto
  have core1: "core h1 = core h"
    by (simp add: h1(3) core_def [abs_def])
  have bod: "bodies h3 = (bodies h)(p \<mapsto> b)"
    by (simp add: fun_eq_iff bodies_core h2(5) core1 option.map_comp o_def split_def)
  have uc: "ucount h3 q = ucount h q" for q
    using fresh by (auto simp: ucount_core h2(5) core1 core_def split: option.splits)
  let ?h4 = "h3\<lparr>mCache := g (mCache h3)\<rparr>"
  have c3: "cached (mCache h3) = cached (mCache h)" "caches_ok (mCache h3) = caches_ok (mCache h)"
    by (simp_all add: h2(4) h1(3) cached_def caches_ok_def)
  have old: "bodies h q = Some c \<and> q \<in> set xs" if "(q, c) \<in> cached (mCache h)" for q c
    using D(3) that unfolding cache_inv_bodies by auto
  then have pc: "p \<notin> fst ` cached (mCache h3)"
    using px by (force simp: c3)
  have cinv: "cache_inv cached ?h4 (p # xs)"
    using old px g(1) [of "mCache h3"] unfolding cache_inv_bodies by (auto simp: bod c3)
  have cok: "caches_ok (g (mCache h3))"
    using g(4) pc D(2) by (simp add: c3)
  have "readable body_refs ?h4 (p # xs)"
    unfolding readable_bodies using D(6) b(3) bod by (auto simp: readable_bodies)
  moreover have "heap_ok lp64 ((bodies h)(p \<mapsto> b)) (Suc p)"
    using links b h1(1) by (intro heap_ok_new [OF D(5)]) auto
  ultimately have "ctx_ok lp64 ?h4 (p # xs) (add_mset p ext)"
    using h2(3) cinv cok D(4) by (simp add: ctx_ok_def ref_inv_def bod g(2) h2(4) h1(3) flip: dom_bodies)
  moreover have "grown h ?h4 {#}"
    using fresh g(3) [of "mCache h3"] by (auto simp: grown_def bod uc h2(4) h1(3) map_le_def bodies_def)
  ultimately show ?thesis
    using h2(1,2,4) bod by blast
qed

lemma enter_element_ok:
  assumes ok: "ctx_ok lp64 h xs ext" and al: "allocRuntimeMem h = (h1, Some p)"
    and e: "elem_wf lp64 e" "eId e = p"
    and links: "\<And>f. f \<in> set (eFields e) \<Longrightarrow> bodies h (eId (fE f)) = Some (BElement (fE f))"
  shows "\<exists>h2. enter_element h1 p e = Some h2 \<and> ctx_ok lp64 h2 (p # xs) (add_mset p ext) \<and>
    grown h h2 {#} \<and> e \<in> set (mElements (mCache h2)) \<and> mAvail (mCache h2) = mAvail (mCache h) - 1"
proof -
  let ?g = "\<lambda>c. c\<lparr>mElements := mElements c @ [e]\<rparr>"
  have b: "body_wf lp64 (BElement e)" "body_id (BElement e) = p"
      "body_refs (BElement e) = Some (Element_clear e)" "mset (map (\<lambda>f. eId (fE f)) (eFields e)) = mset (Element_clear e)"
      "set (Element_clear e) \<subseteq> fst ` body_links (BElement e)"
    using e by (auto simp: body_wf_def body_id_def body_refs_def Element_clear_def body_links_def image_image)
  have links': "\<And>q c. (q, c) \<in> body_links (BElement e) \<Longrightarrow> bodies h q = Some c"
    using links by (auto simp: body_links_def)
  have g: "cached (?g c) \<subseteq> insert (p, BElement e) (cached c)" "mNextAddr (?g c) = mNextAddr c"
      "set (mElements c) \<subseteq> set (mElements (?g c))" for c
    using e(2) by (auto simp: cached_def)
  have ok': "caches_ok (?g c)" if "caches_ok c" "p \<notin> fst ` cached c" for c
    using that e(2) by (auto simp: caches_ok_def cached_def image_Un image_image)
  obtain h2 h3 where h2: "ObjectBase_new h1 p (BElement e) = Some h2"
      "incSysRefs h2 (p # map (\<lambda>f. eId (fE f)) (eFields e)) = Some h3" "mCache h3 = mCache h1"
      "ctx_ok lp64 (h3\<lparr>mCache := ?g (mCache h3)\<rparr>) (p # xs) (add_mset p ext)"
      "grown h (h3\<lparr>mCache := ?g (mCache h3)\<rparr>) {#}"
    using enter_object_ok [OF ok al b links', of ?g] g ok' by blast
  then show ?thesis
    using allocRuntimeMem_Some [OF al] by (auto simp: enter_element_def)
qed

lemma comp_wf_set: "Component_set lp64 (Component_new 0) dt dk norm vs = Some c \<Longrightarrow> comp_wf lp64 c"
  by (cases dt)
    (auto simp: comp_wf_def Component_set_def Component_new_def set_kind_eq set_bits_def Let_def)

lemma compute_fields_keys:
  "compute_fields b bu r fs = (gs, x) \<Longrightarrow>
   map (\<lambda>f. (fName f, fE f, fArraySize f)) gs = map (\<lambda>f. (fName f, fE f, fArraySize f)) fs"
  by (induction fs arbitrary: b bu r gs) (auto simp: Let_def split: prod.splits)

lemma Element_compute_keys:
  "eId (Element_compute e) = eId e" "eComponent (Element_compute e) = eComponent e"
  "map (\<lambda>f. (fName f, fE f, fArraySize f)) (eFields (Element_compute e)) =
   map (\<lambda>f. (fName f, fE f, fArraySize f)) (eFields e)"
  by (auto simp: Element_compute_def split: prod.splits dest: compute_fields_keys)

lemma Element_compute_Nil: "eFields (Element_compute e) = [] \<longleftrightarrow> eFields e = []"
  using arg_cong [OF Element_compute_keys(3), of length e] by (metis length_0_conv length_map)

lemma Element_compute_subs: "fE ` set (eFields (Element_compute e)) = fE ` set (eFields e)"
proof -
  have "map fE (eFields (Element_compute e)) = map fE (eFields e)"
    using arg_cong [OF Element_compute_keys(3), of "map (fst \<circ> snd)" e] by (simp add: o_def)
  then show ?thesis
    by (metis list.set_map)
qed

lemma elem_wf_scalar:
  assumes "elem_wf lp64 e" "eFields e = []"
  shows "comp_wf lp64 (eComponent e)" "e = Element_compute (Element (eId e) (eComponent e) [] 0 0 False)"
  using assms by (cases; simp add: Element_compute_Nil Element_compute_keys)+

lemma elem_wf_struct:
  assumes "elem_wf lp64 e" "eFields e \<noteq> []"
  obtains fs where "fs \<noteq> []" "\<And>f. f \<in> set fs \<Longrightarrow> elem_wf lp64 (fE f)"
    "e = Element_compute (Element (eId e) (Component_new 0) fs 0 0 False)"
  using assms by (cases; simp add: Element_compute_Nil Element_compute_keys)

lemma createRef_ok:
  assumes ok: "ctx_ok lp64 h xs ext" and mem: "0 < mAvail (mCache h)"
    and comp: "Component_set lp64 (Component_new 0) dt dk isNorm vecSize = Some c"
  shows "\<exists>h' xs' e. createRef lp64 h dt dk isNorm vecSize = Some (h', Some e) \<and>
    ctx_ok lp64 h' xs' (add_mset (eId e) ext) \<and> grown h h' {#} \<and> e \<in> set (mElements (mCache h')) \<and>
    e = Element_compute (Element (eId e) c [] 0 0 False) \<and> mAvail (mCache h) - 1 \<le> mAvail (mCache h')"
proof (cases "find (scalar_match dt dk isNorm vecSize) (mElements (mCache h))")
  case (Some ee)
  then have ee: "ee \<in> set (mElements (mCache h))" "scalar_match dt dk isNorm vecSize ee"
    by (auto simp: find_Some_iff)
  note ce = cached_element [OF ok ee(1)]
  have "elem_wf lp64 ee"
    using heap_okD(2) [OF ctx_okD(5) [OF ok] ce(2)] by (simp add: body_wf_def)
  moreover have nf: "eFields ee = []"
    using ee(2) by (simp add: scalar_match_def)
  ultimately have wf: "comp_wf lp64 (eComponent ee)"
      "ee = Element_compute (Element (eId ee) (eComponent ee) [] 0 0 False)"
    by (rule elem_wf_scalar)+
  obtain h' where h': "incSysRef h (eId ee) = Some h'" "ctx_ok lp64 h' xs (add_mset (eId ee) ext)"
      "grown h h' {#}" "mCache h' = mCache h"
    using incSysRef_ok [OF ok ce(1)] by blast
  have "eComponent ee = c"
    using wf(1) comp ee(2) by (simp add: comp_wf_def scalar_match_def)
  then show ?thesis
    using h' Some ee(1) wf(2) by (intro exI [of _ h'] exI [of _ xs] exI [of _ ee]) (simp add: createRef_def)
next
  case None
  obtain h1 p where al: "allocRuntimeMem h = (h1, Some p)"
    using mem by (auto simp: allocRuntimeMem_def)
  let ?e = "Element_compute (Element p c [] 0 0 False)"
  have "elem_wf lp64 ?e" "eId ?e = p" "eFields ?e = []"
    using comp_wf_set [OF comp] by (auto simp: Element_compute_Nil Element_compute_keys intro: elem_wf.scalar)
  then obtain h2 where "enter_element h1 p ?e = Some h2" "ctx_ok lp64 h2 (p # xs) (add_mset p ext)"
      "grown h h2 {#}" "?e \<in> set (mElements (mCache h2))" "mAvail (mCache h2) = mAvail (mCache h) - 1"
    using enter_element_ok [OF ok al] by fastforce
  then show ?thesis
    using None al comp \<open>eId ?e = p\<close>
    by (intro exI [of _ h2] exI [of _ "p # xs"] exI [of _ ?e]) (simp add: createRef_def Let_def)
qed

text \<open>
  The arguments of a well-behaved call: live elements and C strings with their own length. The
  key of a field is what the cache compares.
\<close>

definition arg_ok :: "RsContext \<Rightarrow> field_arg \<Rightarrow> bool" where
  "arg_ok h a \<longleftrightarrow> (case a of (s, nm, len, asize) \<Rightarrow> len = length (c_str nm) \<and>
     (\<exists>e. s = Some e \<and> bodies h (eId e) = Some (BElement e)))"

definition field_key :: "Element ElementField \<Rightarrow> u8 list \<times> Element \<times> u32" where
  "field_key f = (c_str (fName f), fE f, fArraySize f)"

definition arg_key :: "field_arg \<Rightarrow> u8 list \<times> Element \<times> u32" where
  "arg_key a = (case a of (s, nm, len, asize) \<Rightarrow> (c_str nm, the s, asize))"

lemma Element_compute_field_key:
  "map field_key (eFields (Element_compute e)) = map field_key (eFields e)"
proof -
  have "map field_key xs = map (\<lambda>(n, e, a). (c_str n, e, a)) (map (\<lambda>f. (fName f, fE f, fArraySize f)) xs)" for xs
    by (simp add: field_key_def)
  then show ?thesis
    by (simp only: Element_compute_keys(3))
qed

lemma c_str_prefix: "take (length (c_str nm)) nm = c_str nm"
  unfolding c_str_def by (rule takeWhile_eq_take [symmetric])

lemma c_str_idem: "c_str (c_str nm) = c_str nm"
  by (simp add: c_str_def)

lemma make_fields_ok:
  assumes "\<forall>a \<in> set args. arg_ok h a"
  shows "\<exists>fs. make_fields args = Some fs \<and> map field_key fs = map arg_key args \<and>
    (\<forall>f \<in> set fs. bodies h (eId (fE f)) = Some (BElement (fE f)))"
  using assms
proof (induction args)
  case (Cons a args)
  obtain e nm as where a: "a = (Some e, nm, length (c_str nm), as)" "bodies h (eId e) = Some (BElement e)"
    using Cons.prems by (auto simp: arg_ok_def)
  have "length (c_str nm) \<le> length nm"
    by (simp add: c_str_def length_takeWhile_le)
  then have "make_field a = Some (ElementField (c_str nm) e 0 0 as)"
    by (simp add: make_field_def a(1) rsuCopyString_def c_str_prefix)
  then show ?case
    using Cons a by (auto simp: field_key_def arg_key_def c_str_idem)
qed simp

lemma field_match_key:
  assumes ok: "ctx_ok lp64 h xs ext" and f: "bodies h (eId (fE f)) = Some (BElement (fE f))"
    and a: "arg_ok h a" and m: "field_match f a"
  shows "field_key f = arg_key a"
proof -
  obtain e nm as where e: "a = (Some e, nm, length (c_str nm), as)" "bodies h (eId e) = Some (BElement e)"
    using a by (auto simp: arg_ok_def)
  then have "eId (fE f) = eId e" "c_str (fName f) = c_str nm" "fArraySize f = as"
    using m by (simp_all add: field_match_def)
  moreover from this(1) have "fE f = e"
    using f e(2) by (metis RsBody.inject(1) option.inject)
  ultimately show ?thesis
    using e(1) by (simp add: field_key_def arg_key_def)
qed

lemma struct_match_key:
  assumes ok: "ctx_ok lp64 h xs ext" and args: "\<forall>a \<in> set args. arg_ok h a"
    and ee: "ee \<in> set (mElements (mCache h))" "struct_match args ee"
  shows "map field_key (eFields ee) = map arg_key args"
proof -
  have links: "bodies h (eId (fE f)) = Some (BElement (fE f))" if "f \<in> set (eFields ee)" for f
    using heap_okD(5) [OF ctx_okD(5) [OF ok] cached_element(2) [OF ok ee(1)]] that
    by (auto simp: body_links_def)
  show ?thesis
  proof (rule nth_equalityI)
    show len: "length (map field_key (eFields ee)) = length (map arg_key args)"
      using ee(2) by (simp add: struct_match_def)
    fix i assume "i < length (map field_key (eFields ee))"
    then have i: "i < length (eFields ee)" "i < length args"
      using len by simp_all
    then have "field_match (eFields ee ! i) (args ! i)"
      using ee(2) by (simp add: struct_match_def list_all2_conv_all_nth)
    then have "field_key (eFields ee ! i) = arg_key (args ! i)"
      using i links args by (intro field_match_key [OF ok]) simp_all
    then show "map field_key (eFields ee) ! i = map arg_key args ! i"
      using i by simp
  qed
qed

lemma createRef_struct_ok:
  assumes ok: "ctx_ok lp64 h xs ext" and mem: "0 < mAvail (mCache h)"
    and args: "args \<noteq> []" "\<forall>a \<in> set args. arg_ok h a"
  shows "\<exists>h' xs' e. createRef_struct h args = Some (h', Some e) \<and>
    ctx_ok lp64 h' xs' (add_mset (eId e) ext) \<and> grown h h' {#} \<and> e \<in> set (mElements (mCache h')) \<and>
    map field_key (eFields e) = map arg_key args \<and> mAvail (mCache h) - 1 \<le> mAvail (mCache h')"
proof (cases "find (struct_match args) (mElements (mCache h))")
  case (Some ee)
  then have ee: "ee \<in> set (mElements (mCache h))" "struct_match args ee"
    by (auto simp: find_Some_iff)
  obtain h' where "incSysRef h (eId ee) = Some h'" "ctx_ok lp64 h' xs (add_mset (eId ee) ext)"
      "grown h h' {#}" "mCache h' = mCache h"
    using incSysRef_ok [OF ok cached_element(1) [OF ok ee(1)]] by blast
  then show ?thesis
    using Some ee(1) struct_match_key [OF ok args(2) ee]
    by (intro exI [of _ h'] exI [of _ xs] exI [of _ ee]) (simp add: createRef_struct_def)
next
  case None
  obtain h1 p where al: "allocRuntimeMem h = (h1, Some p)"
    using mem by (auto simp: allocRuntimeMem_def)
  obtain fs where fs: "make_fields args = Some fs" "map field_key fs = map arg_key args"
      "\<forall>f \<in> set fs. bodies h (eId (fE f)) = Some (BElement (fE f))"
    using make_fields_ok [OF args(2)] by blast
  let ?e = "Element_compute (Element p (Component_new 0) fs 0 0 False)"
  have "fs \<noteq> []"
    using fs(2) args(1) by auto
  moreover have "elem_wf lp64 (fE f)" if "f \<in> set fs" for f
    using heap_okD(2) [OF ctx_okD(5) [OF ok] fs(3) [rule_format, OF that]] by (simp add: body_wf_def)
  ultimately have wf: "elem_wf lp64 ?e" "eId ?e = p"
    by (auto simp: Element_compute_keys intro: elem_wf.struct)
  have sub: "bodies h (eId (fE f)) = Some (BElement (fE f))" if "f \<in> set (eFields ?e)" for f
  proof -
    have "fE f \<in> fE ` set fs"
      using that Element_compute_subs [of "Element p (Component_new 0) fs 0 0 False"] by auto
    then show ?thesis
      using fs(3) by auto
  qed
  obtain h2 where "enter_element h1 p ?e = Some h2" "ctx_ok lp64 h2 (p # xs) (add_mset p ext)"
      "grown h h2 {#}" "?e \<in> set (mElements (mCache h2))" "mAvail (mCache h2) = mAvail (mCache h) - 1"
    using enter_element_ok [OF ok al wf] sub by blast
  moreover have "map field_key (eFields ?e) = map field_key fs"
    using Element_compute_field_key [of "Element p (Component_new 0) fs 0 0 False"] by simp
  ultimately show ?thesis
    using None al fs(1,2) wf(2)
    by (intro exI [of _ h2] exI [of _ "p # xs"] exI [of _ ?e]) (simp add: createRef_struct_def Let_def)
qed

end
