(* ===== verification/Rs_ElementFile.thy ===== *)
theory Rs_ElementFile
  imports Rs_ElementCache
begin

text \<open>
  Elements and files: an element that was written with \<open>Element::serialize\<close> and is read back with
  \<open>Element::createFromStream\<close>, into any context, is the same element up to the addresses of the
  objects, and the context stays well formed.
\<close>

section \<open>Creation with a user reference\<close>

lemma Element_create_ok:
  assumes ok: "ctx_ok lp64 h xs ext" and mem: "0 < mAvail (mCache h)"
    and comp: "Component_set lp64 (Component_new 0) dt dk isNorm vecSize = Some c"
  shows "\<exists>h' xs' e. Element_create lp64 h dt dk isNorm vecSize = Some (h', e) \<and>
    ctx_ok lp64 h' xs' ext \<and> grown h h' {#eId e#} \<and> e \<in> set (mElements (mCache h')) \<and>
    e = Element_compute (Element (eId e) c [] 0 0 False) \<and> mAvail (mCache h) - 1 \<le> mAvail (mCache h')"
proof -
  obtain h1 xs1 e where 1: "createRef lp64 h dt dk isNorm vecSize = Some (h1, Some e)"
      "ctx_ok lp64 h1 xs1 (add_mset (eId e) ext)" "grown h h1 {#}" "e \<in> set (mElements (mCache h1))"
      "e = Element_compute (Element (eId e) c [] 0 0 False)" "mAvail (mCache h) - 1 \<le> mAvail (mCache h1)"
    using createRef_ok [OF ok mem comp] by blast
  obtain h2 where 2: "to_user_ref h1 (eId e) = Some h2" "ctx_ok lp64 h2 xs1 ext"
      "grown h1 h2 {#eId e#}" "mCache h2 = mCache h1"
    using to_user_ref_ok [OF 1(2)] by blast
  have "Element_create lp64 h dt dk isNorm vecSize = Some (h2, e)"
    using 1(1) 2(1) by (simp add: Element_create_def)
  then show ?thesis
    using 1 2 grown_trans [OF 1(3) 2(3)] by (intro exI [of _ h2] exI [of _ xs1] exI [of _ e]) simp
qed

lemma Element_create_struct_ok:
  assumes ok: "ctx_ok lp64 h xs ext" and mem: "0 < mAvail (mCache h)"
    and args: "args \<noteq> []" "\<forall>a \<in> set args. arg_ok h a"
  shows "\<exists>h' xs' e. Element_create_struct h args = Some (h', e) \<and> ctx_ok lp64 h' xs' ext \<and>
    grown h h' {#eId e#} \<and> e \<in> set (mElements (mCache h')) \<and>
    map field_key (eFields e) = map arg_key args \<and> mAvail (mCache h) - 1 \<le> mAvail (mCache h')"
proof -
  obtain h1 xs1 e where 1: "createRef_struct h args = Some (h1, Some e)"
      "ctx_ok lp64 h1 xs1 (add_mset (eId e) ext)" "grown h h1 {#}" "e \<in> set (mElements (mCache h1))"
      "map field_key (eFields e) = map arg_key args" "mAvail (mCache h) - 1 \<le> mAvail (mCache h1)"
    using createRef_struct_ok [OF ok mem args] by blast
  obtain h2 where 2: "to_user_ref h1 (eId e) = Some h2" "ctx_ok lp64 h2 xs1 ext"
      "grown h1 h2 {#eId e#}" "mCache h2 = mCache h1"
    using to_user_ref_ok [OF 1(2)] by blast
  have "Element_create_struct h args = Some (h2, e)"
    using 1(1) 2(1) by (simp add: Element_create_struct_def)
  then show ?thesis
    using 1 2 grown_trans [OF 1(3) 2(3)] by (intro exI [of _ h2] exI [of _ xs1] exI [of _ e]) simp
qed

section \<open>Giving up the sub-elements\<close>





section \<open>Elements up to addresses\<close>

definition strip_name :: "Element ElementField \<Rightarrow> Element ElementField" where
  "strip_name f = ElementField (c_str (fName f)) (fE f) (fOffsetBits f) (fOffsetBitsUnpadded f) (fArraySize f)"

text \<open>Everything of an element but the addresses of the objects.\<close>

primrec strip :: "Element \<Rightarrow> Element" where
  "strip (Element i c fs b bu r) = Element 0 c (map strip_name (map (map_ElementField strip) fs)) b bu r"



lemma fE_map [simp]: "fE (map_ElementField g f) = g (fE f)"
  by (cases f) simp

lemma strip_name_map [simp]:
  "fE (strip_name f) = fE f" "fArraySize (strip_name f) = fArraySize f"
  "fOffsetBits (strip_name f) = fOffsetBits f" "fOffsetBitsUnpadded (strip_name f) = fOffsetBitsUnpadded f"
  by (simp_all add: strip_name_def)

lemma map_field_sel [simp]: "fArraySize (map_ElementField g f) = fArraySize f"
  by (cases f) simp

lemma strip_sel [simp]:
  "eBits (strip e) = eBits e" "eBitsUnpadded (strip e) = eBitsUnpadded e"
  "eHasReference (strip e) = eHasReference e" "eComponent (strip e) = eComponent e"
  by (cases e, simp)+






section \<open>Reading back\<close>






















section \<open>Properties\<close>

lemma ctx_ok_empty: "ctx_ok lp64 (empty_context n) [] {#}"
proof -
  have "bodies (empty_context n) = Map.empty"
    by (simp add: bodies_def [abs_def] empty_context_def)
  then show ?thesis
    using objects_ok_empty by (simp add: ctx_ok_def heap_ok_def)
qed








text \<open>
  C10. Creating an element keeps the context well formed, for a vector and for a structure of live
  elements: exact counts, caches of live objects, elements laid out by \<open>compute\<close> with live fields.
  The result is in the cache, has the requested component or fields, and the application holds one
  more reference on it.
\<close>

theorem Element_create_invariant:
  assumes "ctx_ok lp64 h xs ext" and "0 < mAvail (mCache h)"
  shows "(\<forall>dt dk isNorm vecSize c. Component_set lp64 (Component_new 0) dt dk isNorm vecSize = Some c \<longrightarrow>
      (\<exists>h' xs' e. Element_create lp64 h dt dk isNorm vecSize = Some (h', e) \<and> ctx_ok lp64 h' xs' ext \<and>
        e \<in> set (mElements (mCache h')) \<and> eComponent e = c \<and> eFields e = [] \<and>
        (\<forall>q. ucount h' q = ucount h q + (if q = eId e then 1 else 0)))) \<and>
    (\<forall>args. args \<noteq> [] \<and> (\<forall>a \<in> set args. arg_ok h a) \<longrightarrow>
      (\<exists>h' xs' e. Element_create_struct h args = Some (h', e) \<and> ctx_ok lp64 h' xs' ext \<and>
        e \<in> set (mElements (mCache h')) \<and> map field_key (eFields e) = map arg_key args \<and>
        (\<forall>q. ucount h' q = ucount h q + (if q = eId e then 1 else 0))))"
proof (intro conjI allI impI; (elim conjE)?)
  fix dt dk isNorm vecSize c
  assume "Component_set lp64 (Component_new 0) dt dk isNorm vecSize = Some c"
  from Element_create_ok [OF assms this]
  obtain h' xs' e where c: "Element_create lp64 h dt dk isNorm vecSize = Some (h', e)" "ctx_ok lp64 h' xs' ext"
      "grown h h' {#eId e#}" "e \<in> set (mElements (mCache h'))"
      "e = Element_compute (Element (eId e) c [] 0 0 False)"
    by blast
  have "eComponent e = c" "eFields e = []"
    using arg_cong [OF c(5), of eComponent] arg_cong [OF c(5), of eFields]
    by (simp_all add: Element_compute_def)
  then show "\<exists>h' xs' e. Element_create lp64 h dt dk isNorm vecSize = Some (h', e) \<and> ctx_ok lp64 h' xs' ext \<and>
        e \<in> set (mElements (mCache h')) \<and> eComponent e = c \<and> eFields e = [] \<and>
        (\<forall>q. ucount h' q = ucount h q + (if q = eId e then 1 else 0))"
    using c(1-4) by (intro exI [of _ h'] exI [of _ xs'] exI [of _ e]) (simp add: grown_def)
next
  fix args assume "args \<noteq> []" "\<forall>a \<in> set args. arg_ok h a"
  from Element_create_struct_ok [OF assms this]
  obtain h' xs' e where "Element_create_struct h args = Some (h', e)" "ctx_ok lp64 h' xs' ext"
      "grown h h' {#eId e#}" "e \<in> set (mElements (mCache h'))" "map field_key (eFields e) = map arg_key args"
    by blast
  then show "\<exists>h' xs' e. Element_create_struct h args = Some (h', e) \<and> ctx_ok lp64 h' xs' ext \<and>
        e \<in> set (mElements (mCache h')) \<and> map field_key (eFields e) = map arg_key args \<and>
        (\<forall>q. ucount h' q = ucount h q + (if q = eId e then 1 else 0))"
    by (intro exI [of _ h'] exI [of _ xs'] exI [of _ e]) (simp add: grown_def)
qed

theorem Element_create_invariant_witness:
  "\<exists>h' xs' e. Element_create True (empty_context 1) RS_TYPE_FLOAT_32 RS_KIND_USER False 1 = Some (h', e) \<and>
    ctx_ok True h' xs' {#} \<and> e \<in> set (mElements (mCache h')) \<and> eComponent e = float_component"
  using conjunct1 [OF Element_create_invariant [OF ctx_ok_empty, of 1 True], rule_format, OF _ float_component_set]
  by (auto simp: empty_context_def)

lemma enter_element_elements:
  assumes "enter_element h p e = Some h'"
  shows "mElements (mCache h') = mElements (mCache h) @ [e]"
proof -
  obtain h1 h2 h3 where 1: "ObjectBase_new h p (BElement e) = Some h1" "incSysRef h1 p = Some h2"
      "incSysRefs h2 (map (\<lambda>f. eId (fE f)) (eFields e)) = Some h3"
      "h' = h3\<lparr>mCache := (mCache h3)\<lparr>mElements := mElements (mCache h3) @ [e]\<rparr>\<rparr>"
    using assms unfolding enter_element_def by auto
  have "mCache h1 = mCache h"
    using 1(1) by (auto simp: ObjectBase_new_def obj_add_def dest!: upd_obj_cache split: option.splits)
  moreover have "mCache h2 = mCache h1"
    using 1(2) by (auto simp: incSysRef_def dest: upd_obj_cache)
  moreover have "incSysRefs k ps = Some k' \<Longrightarrow> mCache k' = mCache k" for k k' :: RsContext and ps
    by (induction ps arbitrary: k) (auto simp: incSysRef_def dest: upd_obj_cache)
  ultimately show ?thesis
    using 1(3,4) by fastforce
qed

lemma find_append: "find P (xs @ ys) = (case find P xs of None \<Rightarrow> find P ys | Some x \<Rightarrow> Some x)"
  by (induction xs) auto

lemma set_565_width: "Component_set lp64 c0 RS_TYPE_UNSIGNED_5_6_5 dk norm vs = Some c \<Longrightarrow> cVectorSize c = 3"
  by (auto simp: Component_set_def Let_def)

lemma createRef_finds:
  assumes "createRef lp64 h dt dk isNorm vecSize = Some (h', Some e)" "scalar_match dt dk isNorm vecSize e"
  shows "find (scalar_match dt dk isNorm vecSize) (mElements (mCache h')) = Some e"
proof (cases "find (scalar_match dt dk isNorm vecSize) (mElements (mCache h))")
  case (Some ee)
  then have "incSysRef h (eId ee) = Some h'" "ee = e"
    using assms(1) by (auto simp: createRef_def)
  then have "mCache h' = mCache h"
    by (auto simp: incSysRef_def dest: upd_obj_cache)
  then show ?thesis
    using Some \<open>ee = e\<close> by simp
next
  case None
  then obtain h1 p where "allocRuntimeMem h = (h1, Some p)" "enter_element h1 p e = Some h'"
    using assms(1) by (auto simp: createRef_def Let_def split: prod.splits option.splits)
  then have "mElements (mCache h') = mElements (mCache h) @ [e]"
    using enter_element_elements allocRuntimeMem_Some(3) by fastforce
  then show ?thesis
    using None assms(2) by (simp add: find_append)
qed

text \<open>
  C20. Equal requests share one element: asking again for the component an element was created
  with returns the same object and allocates nothing. The packed formats override the requested
  vector size, so a request for \<open>UNSIGNED_5_6_5\<close> with another vector size than 3 finds nothing and
  makes a new element every time.
\<close>

theorem createRef_shares:
  assumes "createRef lp64 h dt dk isNorm vecSize = Some (h', Some e)" and "ctx_ok lp64 h' xs ext"
  shows "(scalar_match dt dk isNorm vecSize e \<longrightarrow>
      (\<exists>h''. createRef lp64 h' dt dk isNorm vecSize = Some (h'', Some e) \<and> mCache h'' = mCache h')) \<and>
    (dt = RS_TYPE_UNSIGNED_5_6_5 \<and> vecSize \<noteq> 3 \<longrightarrow>
      find (scalar_match dt dk isNorm vecSize) (mElements (mCache h')) = None)"
proof (intro conjI impI; (elim conjE)?)
  assume m: "scalar_match dt dk isNorm vecSize e"
  have f: "find (scalar_match dt dk isNorm vecSize) (mElements (mCache h')) = Some e"
    using createRef_finds [OF assms(1) m] .
  then have "e \<in> set (mElements (mCache h'))"
    by (auto simp: find_Some_iff)
  from incSysRef_ok [OF assms(2) cached_element(1) [OF assms(2) this]]
  obtain h'' where "incSysRef h' (eId e) = Some h''" "mCache h'' = mCache h'"
    by blast
  then show "\<exists>h''. createRef lp64 h' dt dk isNorm vecSize = Some (h'', Some e) \<and> mCache h'' = mCache h'"
    using f by (simp add: createRef_def)
next
  assume dt: "dt = RS_TYPE_UNSIGNED_5_6_5" "vecSize \<noteq> 3"
  show "find (scalar_match dt dk isNorm vecSize) (mElements (mCache h')) = None"
    unfolding find_None_iff
  proof (intro notI, elim exE conjE)
    fix ee assume ee: "ee \<in> set (mElements (mCache h'))" "scalar_match dt dk isNorm vecSize ee"
    have "elem_wf lp64 ee"
      using heap_okD(2) [OF ctx_okD(5) [OF assms(2)] cached_element(2) [OF assms(2) ee(1)]]
      by (simp add: body_wf_def)
    then have "comp_wf lp64 (eComponent ee)"
      using ee(2) by (intro elem_wf_scalar(1)) (simp_all add: scalar_match_def)
    then have "cVectorSize (eComponent ee) = 3"
      using ee(2) dt(1) by (auto simp: comp_wf_def scalar_match_def dest: set_565_width)
    then show False
      using ee(2) dt(2) by (simp add: scalar_match_def)
  qed
qed

theorem createRef_shares_witness:
  "\<exists>h' e h''. createRef True (empty_context 1) RS_TYPE_FLOAT_32 RS_KIND_USER False 1 = Some (h', Some e) \<and>
    createRef True h' RS_TYPE_FLOAT_32 RS_KIND_USER False 1 = Some (h'', Some e)"
proof -
  have "0 < mAvail (mCache (empty_context 1))"
    by (simp add: empty_context_def)
  from createRef_ok [OF ctx_ok_empty this float_component_set]
  obtain h' xs e where c: "createRef True (empty_context 1) RS_TYPE_FLOAT_32 RS_KIND_USER False 1 = Some (h', Some e)"
      "ctx_ok True h' xs (add_mset (eId e) {#})" "e = Element_compute (Element (eId e) float_component [] 0 0 False)"
    by blast
  have "eComponent e = float_component" "eFields e = []"
    using arg_cong [OF c(3), of eComponent] arg_cong [OF c(3), of eFields] by (simp_all add: Element_compute_def)
  then have "scalar_match RS_TYPE_FLOAT_32 RS_KIND_USER False 1 e"
    by (simp add: scalar_match_def float_component_def)
  then show ?thesis
    using createRef_shares [OF c(1,2)] c(1) by blast
qed

text \<open>
  C21. The layout of a structure below 512 MB: field \<open>k\<close> starts where the fields before it end, so
  fields never overlap; the structure is as large as its fields together and holds references
  exactly when a field does; \<open>getSizeBits\<close> agrees with the stored size.
\<close>

theorem Element_layout:
  assumes "fs \<noteq> []" and "\<forall>f \<in> set fs. elem_sized (fE f)" and "spans fs < 2 ^ 32"
    and "e = Element_compute (Element i c fs b bu False)"
  shows "(\<forall>k < length fs. unat (fOffsetBits (eFields e ! k)) = spans (take k fs)) \<and>
    unat (eBits e) = spans fs \<and> getSizeBits e = ucast (eBits e) \<and>
    (eHasReference e \<longleftrightarrow> (\<exists>f \<in> set fs. eHasReference (fE f)))"
  using Element_compute_struct(6-9) [OF assms(1-3), where i = i and c = c and b = b and bu = bu] assms(4)
  by (simp add: elem_sized_def)

theorem Element_layout_witness:
  "unat (fOffsetBits (eFields (Element_compute (Element 9 (Component_new 0)
     [ElementField [97] (float_element 1) 0 0 3, ElementField [98] (float_element 1) 0 0 1] 0 0 False)) ! 1)) = 96"
proof -
  let ?fs = "[ElementField [97] (float_element 1) 0 0 3, ElementField [98] (float_element 1) 0 0 1]"
  have "\<forall>f \<in> set ?fs. elem_sized (fE f)"
    by (simp add: elem_sized_def getSizeBits_def)
  then show ?thesis
    using Element_layout [of ?fs _ 9 "Component_new 0" 0 0, OF _ _ _ refl] by (simp add: span_def)
qed

end
