(* ===== verification/Cpp_Element.thy ===== *)
theory Cpp_Element
  imports Rs_TypeCache
begin

text \<open>
  The C++ client API, first part: the error state of \<^verbatim>\<open>cpp/RenderScript.cpp\<close> and the elements of
  \<^verbatim>\<open>cpp/Element.cpp\<close>. A client object wraps the handle of a runtime object; the dispatch table
  calls are the runtime entry points of the model, on a synchronous context. A wrapper has an
  address of its own (\<open>ceThis\<close>), which is what \<^verbatim>\<open>this == e.get()\<close> compares.
\<close>

section \<open>State\<close>

datatype RSError = RS_SUCCESS | RS_ERROR_INVALID_PARAMETER | RS_ERROR_RUNTIME_ERROR
  | RS_ERROR_INVALID_ELEMENT | RS_ERROR_MAX

text \<open>
  \<open>mVisibleElementMap\<close> with its size is \<open>ceVisible\<close>; the constructor for scalars leaves the size
  uninitialised (\<open>None\<close>), and the one for structures leaves \<open>mNormalized\<close> uninitialised.
\<close>

datatype CElement = CElement (ceThis: nat) (ceID: nat) (ceType: RsDataType) (ceKind: RsDataKind)
  (ceNormalized: "bool option") (ceSizeBytes: u64) (ceVectorSize: u64) (ceElements: "CElement list")
  (ceElementNames: "u8 list list") (ceArraySizes: "u32 list") (ceOffsetInBytes: "u32 list")
  (ceVisible: "u32 list option")

record CRS =
  rsContext :: RsContext
  mCurrentError :: RSError
  mElems :: "string \<Rightarrow> CElement option"
  mNextThis :: nat

definition throwError :: "'a CRS_scheme \<Rightarrow> RSError \<Rightarrow> 'a CRS_scheme" where
  "throwError rs error =
     (if mCurrentError rs = RS_SUCCESS then rs\<lparr>mCurrentError := error\<rparr> else rs)"

definition getError :: "'a CRS_scheme \<Rightarrow> RSError" where
  "getError rs = mCurrentError rs"

text \<open>The runtime object behind a handle; a handle of something else or of nothing is undefined.\<close>

definition element_at :: "RsContext \<Rightarrow> nat \<Rightarrow> Element option" where
  "element_at h p = (case mObjs h p of None \<Rightarrow> None
     | Some ob \<Rightarrow> (case mBody ob of BElement e \<Rightarrow> Some e | _ \<Rightarrow> None))"

section \<open>Sizes\<close>

definition GetSizeInBytesForType :: "RsDataType \<Rightarrow> u32" where
  "GetSizeInBytesForType dt = (case dt of
       RS_TYPE_NONE \<Rightarrow> 0
     | RS_TYPE_SIGNED_8 \<Rightarrow> 1 | RS_TYPE_UNSIGNED_8 \<Rightarrow> 1 | RS_TYPE_BOOLEAN \<Rightarrow> 1
     | RS_TYPE_FLOAT_16 \<Rightarrow> 2 | RS_TYPE_SIGNED_16 \<Rightarrow> 2 | RS_TYPE_UNSIGNED_16 \<Rightarrow> 2
     | RS_TYPE_UNSIGNED_5_6_5 \<Rightarrow> 2 | RS_TYPE_UNSIGNED_5_5_5_1 \<Rightarrow> 2 | RS_TYPE_UNSIGNED_4_4_4_4 \<Rightarrow> 2
     | RS_TYPE_FLOAT_32 \<Rightarrow> 4 | RS_TYPE_SIGNED_32 \<Rightarrow> 4 | RS_TYPE_UNSIGNED_32 \<Rightarrow> 4
     | RS_TYPE_FLOAT_64 \<Rightarrow> 8 | RS_TYPE_SIGNED_64 \<Rightarrow> 8 | RS_TYPE_UNSIGNED_64 \<Rightarrow> 8
     | RS_TYPE_MATRIX_4X4 \<Rightarrow> 16 * 4 | RS_TYPE_MATRIX_3X3 \<Rightarrow> 9 * 4 | RS_TYPE_MATRIX_2X2 \<Rightarrow> 4 * 4
     | RS_TYPE_TYPE \<Rightarrow> 4 | RS_TYPE_ALLOCATION \<Rightarrow> 4 | RS_TYPE_SAMPLER \<Rightarrow> 4 | RS_TYPE_SCRIPT \<Rightarrow> 4
     | RS_TYPE_MESH \<Rightarrow> 4 | RS_TYPE_PROGRAM_FRAGMENT \<Rightarrow> 4 | RS_TYPE_PROGRAM_VERTEX \<Rightarrow> 4
     | RS_TYPE_PROGRAM_RASTER \<Rightarrow> 4 | RS_TYPE_PROGRAM_STORE \<Rightarrow> 4
     | _ \<Rightarrow> 0)"

text \<open>The constructor for scalars and vectors; the product is formed at 32 bits.\<close>

definition Element_scalar :: "nat \<Rightarrow> nat \<Rightarrow> RsDataType \<Rightarrow> RsDataKind \<Rightarrow> bool \<Rightarrow> u32 \<Rightarrow> CElement" where
  "Element_scalar this i dt dk norm sz =
     (let tsize = GetSizeInBytesForType dt;
          bytes = (if dt \<noteq> RS_TYPE_UNSIGNED_5_6_5 \<and> dt \<noteq> RS_TYPE_UNSIGNED_4_4_4_4 \<and>
                     dt \<noteq> RS_TYPE_UNSIGNED_5_5_5_1
                   then if sz = 3 then tsize * 4 else tsize * sz
                   else tsize)
      in CElement this i dt dk (Some norm) (ucast bytes) (ucast sz) [] [] [] [] None)"

section \<open>Structures\<close>

text \<open>
  \<open>updateVisibleSubElements\<close>: the indices of the fields whose name does not start with a hash
  sign. Looking at the first byte of an empty buffer is undefined.
\<close>

fun visible_from :: "nat \<Rightarrow> u8 list list \<Rightarrow> u32 list option" where
  "visible_from ct [] = Some []"
| "visible_from ct ([] # nms) = None"
| "visible_from ct ((c # nm) # nms) = do {
     rest \<leftarrow> visible_from (Suc ct) nms;
     Some (if c \<noteq> 35 then of_nat ct # rest else rest) }"

definition updateVisibleSubElements :: "CElement \<Rightarrow> CElement option" where
  "updateVisibleSubElements e = (case e of
     CElement this i dt dk norm sz vs es nms as offs vis \<Rightarrow>
       if es = [] then Some e
       else do {
         v \<leftarrow> visible_from 0 nms;
         Some (CElement this i dt dk norm sz vs es nms as offs (Some v)) })"

text \<open>The offsets and the size of a structure.\<close>

fun struct_offsets :: "u64 \<Rightarrow> (CElement \<times> u32) list \<Rightarrow> u32 list \<times> u64" where
  "struct_offsets sz [] = ([], sz)"
| "struct_offsets sz ((e, a) # fs) =
     (let (offs, total) = struct_offsets (sz + ceSizeBytes e * ucast a) fs in (ucast sz # offs, total))"

definition Element_struct :: "nat \<Rightarrow> nat \<Rightarrow> CElement list \<Rightarrow> u8 list list \<Rightarrow> u32 list \<Rightarrow> CElement option" where
  "Element_struct this i elements elementNames arraySizes =
     (let (offs, total) = struct_offsets 0 (zip elements arraySizes) in
      updateVisibleSubElements
        (CElement this i RS_TYPE_NONE RS_KIND_USER None total 1 elements elementNames arraySizes offs (Some [])))"

text \<open>
  The accessors of sub-elements share their checks; a map that was never initialised is read
  before anything else.
\<close>

definition sub_index :: "'a CRS_scheme \<Rightarrow> CElement \<Rightarrow> u32 \<Rightarrow> ('a CRS_scheme \<times> nat option) option" where
  "sub_index rs e index = do {
     vis \<leftarrow> ceVisible e;
     if vis = [] then Some (throwError rs RS_ERROR_INVALID_PARAMETER, None)
     else if length vis \<le> unat index then Some (throwError rs RS_ERROR_INVALID_PARAMETER, None)
     else Some (rs, Some (unat (vis ! unat index))) }"

definition getSubElement :: "'a CRS_scheme \<Rightarrow> CElement \<Rightarrow> u32 \<Rightarrow> ('a CRS_scheme \<times> CElement option) option" where
  "getSubElement rs e index = do {
     (rs, i) \<leftarrow> sub_index rs e index;
     case i of None \<Rightarrow> Some (rs, None)
     | Some i \<Rightarrow> if i < length (ceElements e) then Some (rs, Some (ceElements e ! i)) else None }"

definition getSubElementName :: "'a CRS_scheme \<Rightarrow> CElement \<Rightarrow> u32 \<Rightarrow> ('a CRS_scheme \<times> u8 list option) option" where
  "getSubElementName rs e index = do {
     (rs, i) \<leftarrow> sub_index rs e index;
     case i of None \<Rightarrow> Some (rs, None)
     | Some i \<Rightarrow> if i < length (ceElementNames e) then Some (rs, Some (ceElementNames e ! i)) else None }"

definition getSubElementArraySize :: "'a CRS_scheme \<Rightarrow> CElement \<Rightarrow> u32 \<Rightarrow> ('a CRS_scheme \<times> u64) option" where
  "getSubElementArraySize rs e index = do {
     (rs, i) \<leftarrow> sub_index rs e index;
     case i of None \<Rightarrow> Some (rs, 0)
     | Some i \<Rightarrow> if i < length (ceArraySizes e) then Some (rs, ucast (ceArraySizes e ! i)) else None }"

definition getSubElementOffsetBytes :: "'a CRS_scheme \<Rightarrow> CElement \<Rightarrow> u32 \<Rightarrow> ('a CRS_scheme \<times> u32) option" where
  "getSubElementOffsetBytes rs e index = do {
     (rs, i) \<leftarrow> sub_index rs e index;
     case i of None \<Rightarrow> Some (rs, 0)
     | Some i \<Rightarrow> if i < length (ceOffsetInBytes e) then Some (rs, ceOffsetInBytes e ! i) else None }"

section \<open>Creation\<close>

definition new_scalar :: "bool \<Rightarrow> 'a CRS_scheme \<Rightarrow> RsDataType \<Rightarrow> RsDataKind \<Rightarrow> bool \<Rightarrow> u32 \<Rightarrow>
    ('a CRS_scheme \<times> CElement) option" where
  "new_scalar lp64 rs dt dk norm sz = do {
     (h, e) \<leftarrow> rsi_ElementCreate lp64 (rsContext rs) dt dk norm sz;
     let this = mNextThis rs;
     Some (rs\<lparr>rsContext := h, mNextThis := Suc this\<rparr>, Element_scalar this (eId e) dt dk norm sz) }"

definition createUser :: "bool \<Rightarrow> 'a CRS_scheme \<Rightarrow> RsDataType \<Rightarrow> ('a CRS_scheme \<times> CElement) option" where
  "createUser lp64 rs dt = new_scalar lp64 rs dt RS_KIND_USER False 1"

definition createVector :: "bool \<Rightarrow> 'a CRS_scheme \<Rightarrow> RsDataType \<Rightarrow> u32 \<Rightarrow>
    ('a CRS_scheme \<times> CElement option) option" where
  "createVector lp64 rs dt sz =
     (if sz < 2 \<or> sz > 4 then Some (throwError rs RS_ERROR_INVALID_PARAMETER, None)
      else do {
        (rs, e) \<leftarrow> new_scalar lp64 rs dt RS_KIND_USER False sz;
        Some (rs, Some e) })"

definition createPixel :: "bool \<Rightarrow> 'a CRS_scheme \<Rightarrow> RsDataType \<Rightarrow> RsDataKind \<Rightarrow>
    ('a CRS_scheme \<times> CElement option) option" where
  "createPixel lp64 rs dt dk =
     (if \<not> (dk = RS_KIND_PIXEL_L \<or> dk = RS_KIND_PIXEL_A \<or> dk = RS_KIND_PIXEL_LA \<or> dk = RS_KIND_PIXEL_RGB \<or>
             dk = RS_KIND_PIXEL_RGBA \<or> dk = RS_KIND_PIXEL_DEPTH \<or> dk = RS_KIND_PIXEL_YUV)
      then Some (throwError rs RS_ERROR_INVALID_PARAMETER, None)
      else if \<not> (dt = RS_TYPE_UNSIGNED_8 \<or> dt = RS_TYPE_UNSIGNED_16 \<or> dt = RS_TYPE_UNSIGNED_5_6_5 \<or>
             dt = RS_TYPE_UNSIGNED_4_4_4_4 \<or> dt = RS_TYPE_UNSIGNED_5_5_5_1)
      then Some (throwError rs RS_ERROR_INVALID_PARAMETER, None)
      else if dt = RS_TYPE_UNSIGNED_5_6_5 \<and> dk \<noteq> RS_KIND_PIXEL_RGB
      then Some (throwError rs RS_ERROR_INVALID_PARAMETER, None)
      else if dt = RS_TYPE_UNSIGNED_5_5_5_1 \<and> dk \<noteq> RS_KIND_PIXEL_RGBA
      then Some (throwError rs RS_ERROR_INVALID_PARAMETER, None)
      else if dt = RS_TYPE_UNSIGNED_4_4_4_4 \<and> dk \<noteq> RS_KIND_PIXEL_RGBA
      then Some (throwError rs RS_ERROR_INVALID_PARAMETER, None)
      else if dt = RS_TYPE_UNSIGNED_16 \<and> dk \<noteq> RS_KIND_PIXEL_DEPTH
      then Some (throwError rs RS_ERROR_INVALID_PARAMETER, None)
      else do {
        let sz = (case dk of RS_KIND_PIXEL_LA \<Rightarrow> 2 | RS_KIND_PIXEL_RGB \<Rightarrow> 3 | RS_KIND_PIXEL_RGBA \<Rightarrow> 4
          | RS_KIND_PIXEL_DEPTH \<Rightarrow> 2 | _ \<Rightarrow> 1);
        (rs, e) \<leftarrow> new_scalar lp64 rs dt dk True sz;
        Some (rs, Some e) })"

text \<open>The predefined elements: what \<^verbatim>\<open>CREATE_USER\<close>, \<^verbatim>\<open>CREATE_PIXEL\<close> and \<^verbatim>\<open>CREATE_VECTOR\<close> expand to.\<close>

definition user_table :: "(string \<times> RsDataType) list" where
  "user_table =
     [(''BOOLEAN'', RS_TYPE_BOOLEAN), (''U8'', RS_TYPE_UNSIGNED_8), (''I8'', RS_TYPE_SIGNED_8),
      (''U16'', RS_TYPE_UNSIGNED_16), (''I16'', RS_TYPE_SIGNED_16), (''U32'', RS_TYPE_UNSIGNED_32),
      (''I32'', RS_TYPE_SIGNED_32), (''U64'', RS_TYPE_UNSIGNED_64), (''I64'', RS_TYPE_SIGNED_64),
      (''F16'', RS_TYPE_FLOAT_16), (''F32'', RS_TYPE_FLOAT_32), (''F64'', RS_TYPE_FLOAT_64),
      (''ELEMENT'', RS_TYPE_ELEMENT), (''TYPE'', RS_TYPE_TYPE), (''ALLOCATION'', RS_TYPE_ALLOCATION),
      (''SAMPLER'', RS_TYPE_SAMPLER), (''SCRIPT'', RS_TYPE_SCRIPT), (''MATRIX_4X4'', RS_TYPE_MATRIX_4X4),
      (''MATRIX_3X3'', RS_TYPE_MATRIX_3X3), (''MATRIX_2X2'', RS_TYPE_MATRIX_2X2)]"

definition pixel_table :: "(string \<times> RsDataType \<times> RsDataKind) list" where
  "pixel_table =
     [(''A_8'', RS_TYPE_UNSIGNED_8, RS_KIND_PIXEL_A), (''RGB_565'', RS_TYPE_UNSIGNED_5_6_5, RS_KIND_PIXEL_RGB),
      (''RGB_888'', RS_TYPE_UNSIGNED_8, RS_KIND_PIXEL_RGB),
      (''RGBA_4444'', RS_TYPE_UNSIGNED_4_4_4_4, RS_KIND_PIXEL_RGBA),
      (''RGBA_8888'', RS_TYPE_UNSIGNED_8, RS_KIND_PIXEL_RGBA), (''YUV'', RS_TYPE_UNSIGNED_8, RS_KIND_PIXEL_YUV),
      (''RGBA_5551'', RS_TYPE_UNSIGNED_5_5_5_1, RS_KIND_PIXEL_RGBA)]"

definition vector_table :: "(string \<times> RsDataType \<times> u32) list" where
  "vector_table =
     [(n @ s, dt, k). (n, dt) \<leftarrow>
        [(''U8'', RS_TYPE_UNSIGNED_8), (''I8'', RS_TYPE_SIGNED_8), (''U16'', RS_TYPE_UNSIGNED_16),
         (''I16'', RS_TYPE_SIGNED_16), (''U32'', RS_TYPE_UNSIGNED_32), (''I32'', RS_TYPE_SIGNED_32),
         (''U64'', RS_TYPE_UNSIGNED_64), (''I64'', RS_TYPE_SIGNED_64), (''F16'', RS_TYPE_FLOAT_16),
         (''F32'', RS_TYPE_FLOAT_32), (''F64'', RS_TYPE_FLOAT_64)],
        (s, k) \<leftarrow> [(''_2'', 2), (''_3'', 3), (''_4'', 4)]]"

definition predefined :: "bool \<Rightarrow> 'a CRS_scheme \<Rightarrow> string \<Rightarrow> ('a CRS_scheme \<times> CElement option) option" where
  "predefined lp64 rs n = (case mElems rs n of
       Some e \<Rightarrow> Some (rs, Some e)
     | None \<Rightarrow> do {
         (rs, e) \<leftarrow> (case map_of user_table n of
             Some dt \<Rightarrow> do { (rs, e) \<leftarrow> createUser lp64 rs dt; Some (rs, Some e) }
           | None \<Rightarrow> (case map_of pixel_table n of
               Some (dt, dk) \<Rightarrow> createPixel lp64 rs dt dk
             | None \<Rightarrow> (case map_of vector_table n of
                 Some (dt, k) \<Rightarrow> createVector lp64 rs dt k
               | None \<Rightarrow> None)));
         Some (rs\<lparr>mElems := (mElems rs)(n := e)\<rparr>, e) })"

definition isCompatible :: "CElement \<Rightarrow> CElement \<Rightarrow> bool" where
  "isCompatible a e =
     (if ceThis a = ceThis e then True
      else ceSizeBytes a = ceSizeBytes e \<and> ceType a \<noteq> RS_TYPE_NONE \<and> ceType a = ceType e \<and>
        ceVectorSize a = ceVectorSize e)"

section \<open>The structure builder\<close>

record Builder =
  bElements :: "CElement list"
  bElementNames :: "u8 list list"
  bArraySizes :: "u32 list"
  bElementsVecSize :: nat
  bSkipPadding :: bool

definition Builder_new :: Builder where
  "Builder_new = \<lparr>bElements = [], bElementNames = [], bArraySizes = [], bElementsVecSize = 8,
     bSkipPadding = False\<rparr>"

definition padding_prefix :: "u8 list" where
  "padding_prefix = [35, 112, 97, 100, 100, 105, 110, 103, 95]"

text \<open>
  \<open>Builder::add\<close>. The arrays hold \<open>bElementsVecSize\<close> entries, of which the first are used; a write
  at the end of a full array would be out of bounds. The name is kept with its terminator.
\<close>

definition Builder_add :: "Builder \<Rightarrow> CElement \<Rightarrow> u8 list \<Rightarrow> u32 \<Rightarrow> Builder option" where
  "Builder_add b e name arraySize =
     (if bSkipPadding b \<and> length padding_prefix \<le> length (c_str name) \<and>
         take (length padding_prefix) (c_str name) = padding_prefix
      then Some (b\<lparr>bSkipPadding := False\<rparr>)
      else do {
        let b = b\<lparr>bSkipPadding := (ceVectorSize e = 3)\<rparr>;
        let b = (if bElementsVecSize b \<le> length (bElements b)
          then b\<lparr>bElementsVecSize := bElementsVecSize b + 8\<rparr> else b);
        if length (bElements b) < bElementsVecSize b
        then Some (b\<lparr>bElements := bElements b @ [e], bArraySizes := bArraySizes b @ [arraySize],
          bElementNames := bElementNames b @ [c_str name @ [0]]\<rparr>)
        else None })"

text \<open>
  \<open>Builder::create\<close>: the lengths handed to the runtime count the terminators.
\<close>

definition Builder_create :: "'a CRS_scheme \<Rightarrow> Builder \<Rightarrow> ('a CRS_scheme \<times> CElement) option" where
  "Builder_create rs b = do {
     (h, e) \<leftarrow> rsi_ElementCreate2 (rsContext rs) (map (\<lambda>e. element_at (rsContext rs) (ceID e)) (bElements b))
       (map c_str (bElementNames b)) (Some (map length (bElementNames b))) (Some (bArraySizes b));
     let this = mNextThis rs;
     ce \<leftarrow> Element_struct this (eId e) (bElements b) (bElementNames b) (bArraySizes b);
     Some (rs\<lparr>rsContext := h, mNextThis := Suc this\<rparr>, ce) }"


section \<open>Client and runtime agree on sizes\<close>

definition packed_type :: "RsDataType \<Rightarrow> bool" where
  "packed_type dt \<longleftrightarrow> dt \<in> {RS_TYPE_UNSIGNED_5_6_5, RS_TYPE_UNSIGNED_5_5_5_1, RS_TYPE_UNSIGNED_4_4_4_4}"

lemma client_bytes:
  assumes "scalar_bits dt = Some b"
  shows "unat (GetSizeInBytesForType dt) * 8 = b" "\<not> packed_type dt" "b \<le> 512"
  using assms by (cases dt; auto simp: GetSizeInBytesForType_def packed_type_def)+

lemma getSizeBytes_scalar:
  "getSizeBytes (Element_compute (Element i c [] 0 0 False)) = drop_bit 3 (ucast (cBits c) + 7)"
  by (simp add: getSizeBytes_def getSizeBits_def Element_compute_def)

lemma unat_bytes:
  assumes "unat (bits :: u32) = n * 8" "n < 2 ^ 28"
  shows "unat (drop_bit 3 (ucast bits + 7 :: u64)) = n"
  using assms by (simp add: unat_drop_bit_eq drop_bit_eq_div unat_word_ariths)

lemma client_size_scalar:
  assumes b: "scalar_bits dt = Some b" and vs: "1 \<le> vs" "vs \<le> 4"
    and c: "Component_set lp64 c0 dt dk norm vs = Some c"
  shows "ceSizeBytes (Element_scalar this i dt dk norm vs) =
    getSizeBytes (Element_compute (Element j c [] 0 0 False))"
proof -
  note cb = client_bytes [OF b]
  let ?n = "unat (GetSizeInBytesForType dt) * (if vs = 3 then 4 else unat vs)"
  have v: "unat vs \<le> 4"
    using vs(2) by (simp add: word_le_nat_alt)
  have "unat (cBits c) = ?n * 8"
    using Component_set_vector [OF b vs, of lp64 c0 dk norm] c cb(1) by auto
  moreover have n: "?n \<le> 64 * 4"
    using v cb(1,3) by (intro mult_le_mono) auto
  ultimately have "unat (getSizeBytes (Element_compute (Element j c [] 0 0 False))) = ?n"
    unfolding getSizeBytes_scalar by (intro unat_bytes) simp_all
  moreover have "unat (ceSizeBytes (Element_scalar this i dt dk norm vs)) = ?n"
    using n cb(2) by (auto simp: Element_scalar_def packed_type_def unat_word_ariths Let_def)
  ultimately show ?thesis
    by (simp add: word_unat_eq_iff)
qed

lemma packed_set: "packed_type dt \<Longrightarrow> \<exists>c. Component_set lp64 c0 dt dk norm vs = Some c"
  by (auto simp: packed_type_def Component_set_def Let_def)

lemma client_size_packed:
  assumes "packed_type dt" and "Component_set lp64 c0 dt dk norm vs = Some c"
  shows "ceSizeBytes (Element_scalar this i dt dk norm vs) =
    getSizeBytes (Element_compute (Element j c [] 0 0 False))"
  using assms
  by (auto simp: packed_type_def Component_set_def Let_def getSizeBytes_scalar Element_scalar_def
      GetSizeInBytesForType_def)

text \<open>
  C15. Client and runtime agree on the size of an element: whatever vector or packed pixel format
  an application creates, the byte size kept on the client equals the size of the runtime element
  behind the handle, padding of three-component vectors included. The context stays well formed
  and the application holds one reference to the new handle.
\<close>

theorem client_element_size:
  assumes "ctx_ok lp64 (rsContext rs) xs ext" and "0 < mAvail (mCache (rsContext rs))"
    and "scalar_bits dt \<noteq> None \<or> packed_type dt" and "1 \<le> vs" and "vs \<le> 4"
  shows "\<exists>rs' xs' ce re. new_scalar lp64 rs dt dk norm vs = Some (rs', ce) \<and>
    ctx_ok lp64 (rsContext rs') xs' ext \<and> element_at (rsContext rs') (ceID ce) = Some re \<and>
    ceSizeBytes ce = getSizeBytes re \<and>
    (\<forall>q. ucount (rsContext rs') q = ucount (rsContext rs) q + (if q = ceID ce then 1 else 0))"
proof -
  obtain c where c: "Component_set lp64 (Component_new 0) dt dk norm vs = Some c"
    using assms(3) Component_set_vector [OF _ assms(4,5), of dt _ lp64 "Component_new 0" dk norm]
      packed_set [of dt lp64 "Component_new 0" dk norm vs] by blast
  obtain h' xs' e where e: "Element_create lp64 (rsContext rs) dt dk norm vs = Some (h', e)"
      "ctx_ok lp64 h' xs' ext" "grown (rsContext rs) h' {#eId e#}" "e \<in> set (mElements (mCache h'))"
      "e = Element_compute (Element (eId e) c [] 0 0 False)"
    using Element_create_ok [OF assms(1,2) c] by (elim exE conjE) (rule that; assumption)
  let ?ce = "Element_scalar (mNextThis rs) (eId e) dt dk norm vs"
  have id: "ceID ?ce = eId e"
    by (simp add: Element_scalar_def Let_def)
  have "element_at h' (eId e) = Some e"
    using cached_element(2) [OF e(2,4)] by (auto simp: element_at_def bodies_Some)
  moreover have "ceSizeBytes ?ce = getSizeBytes (Element_compute (Element (eId e) c [] 0 0 False))"
    using assms(3) client_size_scalar [OF _ assms(4,5) c] client_size_packed [OF _ c] by blast
  then have "ceSizeBytes ?ce = getSizeBytes e"
    using e(5) by metis
  moreover have "\<forall>q. ucount h' q = ucount (rsContext rs) q + (if q = eId e then 1 else 0)"
    using e(3) by (simp add: grown_def)
  ultimately show ?thesis
    using e(1,2) id
    by (intro exI [of _ "rs\<lparr>rsContext := h', mNextThis := Suc (mNextThis rs)\<rparr>"] exI [of _ xs'] exI [of _ ?ce]
        exI [of _ e]) (simp add: new_scalar_def rsi_ElementCreate_def Let_def)
qed

definition empty_CRS :: "nat \<Rightarrow> CRS" where
  "empty_CRS n = \<lparr>rsContext = empty_context n, mCurrentError = RS_SUCCESS, mElems = Map.empty, mNextThis = 1\<rparr>"

theorem client_element_size_witness:
  "\<exists>rs' ce re. new_scalar True (empty_CRS 1) RS_TYPE_FLOAT_32 RS_KIND_USER False 3 = Some (rs', ce) \<and>
    element_at (rsContext rs') (ceID ce) = Some re \<and> ceSizeBytes ce = getSizeBytes re"
  using client_element_size [of True "empty_CRS 1" "[]" "{#}" RS_TYPE_FLOAT_32 3 RS_KIND_USER False]
    ctx_ok_empty [of True 1]
  by (auto simp: empty_CRS_def empty_context_def)

text \<open>
  C31. Object handles are the exception: a 64-bit runtime stores each of them in 32 bytes, the
  client counts 4, and for elements and fonts 0, so that a structure with such a field has other
  offsets and another size on the client.
\<close>

theorem client_handle_size:
  assumes "dt \<in> {RS_TYPE_ELEMENT, RS_TYPE_TYPE, RS_TYPE_ALLOCATION, RS_TYPE_SAMPLER, RS_TYPE_SCRIPT, RS_TYPE_FONT}"
    and "Component_set lp64 c0 dt dk norm 1 = Some c"
  shows "getSizeBytes (Element_compute (Element j c [] 0 0 False)) = (if lp64 then 32 else 4) \<and>
    ceSizeBytes (Element_scalar this i dt dk norm 1) =
      (if dt \<in> {RS_TYPE_ELEMENT, RS_TYPE_FONT} then 0 else 4)"
  using assms
  by (auto simp: Component_set_def Let_def getSizeBytes_scalar Element_scalar_def GetSizeInBytesForType_def)

theorem client_handle_size_witness:
  "\<exists>c. Component_set True (Component_new 0) RS_TYPE_ALLOCATION RS_KIND_USER False 1 = Some c \<and>
    getSizeBytes (Element_compute (Element 5 c [] 0 0 False)) = 32 \<and>
    ceSizeBytes (Element_scalar 1 5 RS_TYPE_ALLOCATION RS_KIND_USER False 1) = 4"
proof -
  obtain c where c: "Component_set True (Component_new 0) RS_TYPE_ALLOCATION RS_KIND_USER False 1 = Some c"
    by (simp add: Component_set_def Let_def)
  show ?thesis
    using client_handle_size [OF _ c, of 5 1 5] c by auto
qed


section \<open>Structures on both sides\<close>

definition cspan :: "CElement \<times> u32 \<Rightarrow> nat" where
  "cspan f = unat (ceSizeBytes (fst f)) * unat (snd f)"

lemma struct_offsets_spec:
  assumes "struct_offsets sz fs = (offs, tot)" and "unat sz + (\<Sum>f\<leftarrow>fs. cspan f) < 2 ^ 32"
  shows "unat tot = unat sz + (\<Sum>f\<leftarrow>fs. cspan f) \<and> length offs = length fs \<and>
    (\<forall>k < length fs. unat (offs ! k) = unat sz + (\<Sum>f\<leftarrow>take k fs. cspan f))"
  using assms
proof (induction fs arbitrary: sz offs)
  case (Cons f fs)
  obtain e a where f: "f = (e, a)"
    by (cases f)
  obtain offs' where o: "struct_offsets (sz + ceSizeBytes e * ucast a) fs = (offs', tot)" "offs = ucast sz # offs'"
    using Cons.prems(1) f by (auto split: prod.splits)
  have small: "unat sz + cspan f + (\<Sum>f\<leftarrow>fs. cspan f) < 2 ^ 32"
    using Cons.prems(2) by simp
  then have "cspan f < 2 ^ 64" "unat sz + cspan f < 2 ^ 64" "unat sz < 2 ^ 32"
    by simp_all
  then have sz': "unat (sz + ceSizeBytes e * ucast a) = unat sz + cspan f"
    by (simp add: f cspan_def unat_word_ariths)
  have "unat (ucast sz :: u32) = unat sz"
    using \<open>unat sz < 2 ^ 32\<close> by (simp add: unsigned_ucast_eq take_bit_nat_eq_self)
  moreover have "unat tot = unat sz + cspan f + (\<Sum>f\<leftarrow>fs. cspan f) \<and> length offs' = length fs \<and>
      (\<forall>k < length fs. unat (offs' ! k) = unat sz + cspan f + (\<Sum>f\<leftarrow>take k fs. cspan f))"
    using Cons.IH [OF o(1)] small sz' by simp
  ultimately show ?case
    by (auto simp: o(2) nth_Cons split: nat.split)
qed simp

lemma Element_struct_sel:
  assumes "Element_struct this i ces nms as = Some ce"
  shows "struct_offsets 0 (zip ces as) = (ceOffsetInBytes ce, ceSizeBytes ce)"
proof (cases "struct_offsets 0 (zip ces as)")
  case (Pair offs tot)
  then show ?thesis
    using assms by (auto simp: Element_struct_def updateVisibleSubElements_def split: if_splits)
qed

lemma spans_cspans:
  assumes "length ces = length fs" "\<forall>k < length fs. unat (ceSizeBytes (ces ! k)) * 8 = unat (eBits (fE (fs ! k)))"
  shows "spans fs = 8 * (\<Sum>f\<leftarrow>zip ces (map fArraySize fs). cspan f)"
  using assms
proof (induction ces fs rule: list_induct2)
  case (Cons ce ces f fs)
  have "\<forall>k < length fs. unat (ceSizeBytes (ces ! k)) * 8 = unat (eBits (fE (fs ! k)))"
    using Cons.prems by auto
  moreover have "unat (ceSizeBytes ce) * 8 = unat (eBits (fE f))"
    using Cons.prems by force
  ultimately show ?case
    using Cons.IH by (simp add: span_def cspan_def)
qed simp

text \<open>
  C14. The client lays out a structure as the runtime does: when client and runtime agree on the
  sizes of the fields, they agree on the offset of every field and on the size of the structure
  (below 512 MB).
\<close>

theorem client_struct_layout:
  assumes "fs \<noteq> []" and "\<forall>f \<in> set fs. elem_sized (fE f)" and "spans fs < 2 ^ 32"
    and "length ces = length fs"
    and "\<forall>k < length fs. unat (ceSizeBytes (ces ! k)) * 8 = unat (eBits (fE (fs ! k)))"
    and "Element_struct this j ces nms (map fArraySize fs) = Some ce"
    and "e = Element_compute (Element i c fs b bu False)"
  shows "(\<forall>k < length fs. unat (ceOffsetInBytes ce ! k) * 8 = unat (fOffsetBits (eFields e ! k))) \<and>
    unat (ceSizeBytes ce) * 8 = unat (eBits e) \<and> ceSizeBytes ce = getSizeBytes e"
proof -
  let ?fs = "zip ces (map fArraySize fs)"
  note E = Element_compute_struct(6-8) [OF assms(1-3), where i = i and c = c and b = b and bu = bu, folded assms(7)]
  have total: "spans fs = 8 * (\<Sum>f\<leftarrow>?fs. cspan f)"
    by (rule spans_cspans [OF assms(4,5)])
  have "(\<Sum>f\<leftarrow>?fs. cspan f) < 2 ^ 32"
    using assms(3) total by simp
  with struct_offsets_spec [OF Element_struct_sel [OF assms(6)]]
  have S: "unat (ceSizeBytes ce) = (\<Sum>f\<leftarrow>?fs. cspan f)"
      "\<And>k. k < length fs \<Longrightarrow> unat (ceOffsetInBytes ce ! k) = (\<Sum>f\<leftarrow>take k ?fs. cspan f)"
    using assms(4) by simp_all
  have bits: "unat (ceSizeBytes ce) * 8 = unat (eBits e)"
    using E(1) total S(1) by simp
  have "\<forall>k < length fs. unat (ceOffsetInBytes ce ! k) * 8 = unat (fOffsetBits (eFields e ! k))"
  proof (intro allI impI)
    fix k assume k: "k < length fs"
    have "spans (take k fs) = 8 * (\<Sum>f\<leftarrow>zip (take k ces) (map fArraySize (take k fs)). cspan f)"
      using assms(4,5) by (intro spans_cspans) auto
    then show "unat (ceOffsetInBytes ce ! k) * 8 = unat (fOffsetBits (eFields e ! k))"
      using S(2) [OF k] E(3) [OF k] by (simp add: take_zip take_map)
  qed
  moreover have "ceSizeBytes ce = getSizeBytes e"
  proof -
    have "unat (ceSizeBytes ce) < 2 ^ 28 * 2"
      using assms(3) total S(1) by simp
    then have "unat (drop_bit 3 (ucast (eBits e) + 7 :: u64)) = unat (ceSizeBytes ce)"
      using bits by (simp add: unat_drop_bit_eq drop_bit_eq_div unat_word_ariths flip: bits)
    moreover have "getSizeBytes e = drop_bit 3 (ucast (eBits e) + 7)"
      using E(2) by (simp add: getSizeBytes_def elem_sized_def)
    ultimately show ?thesis
      by (simp add: word_unat_eq_iff)
  qed
  ultimately show ?thesis
    using bits by blast
qed

theorem client_struct_layout_witness:
  "\<exists>ce. Element_struct 1 9 [Element_scalar 1 1 RS_TYPE_FLOAT_32 RS_KIND_USER False 1,
      Element_scalar 1 1 RS_TYPE_FLOAT_32 RS_KIND_USER False 1] [[97, 0], [98, 0]] [3, 1] = Some ce \<and>
    unat (ceOffsetInBytes ce ! 1) * 8 = unat (fOffsetBits (eFields (Element_compute (Element 9 (Component_new 0)
     [ElementField [97] (float_element 1) 0 0 3, ElementField [98] (float_element 1) 0 0 1] 0 0 False)) ! 1))"
proof -
  let ?ce = "Element_scalar 1 1 RS_TYPE_FLOAT_32 RS_KIND_USER False 1"
  let ?fs = "[ElementField [97] (float_element 1) 0 0 3, ElementField [98] (float_element 1) 0 0 1]"
  obtain ce where ce: "Element_struct 1 9 [?ce, ?ce] [[97, 0], [98, 0]] [3, 1] = Some ce"
    by (simp add: Element_struct_def updateVisibleSubElements_def)
  have sz: "unat (ceSizeBytes ?ce) * 8 = 32"
    by (simp add: Element_scalar_def GetSizeInBytesForType_def)
  have "\<forall>k < length ?fs. unat (ceSizeBytes ([?ce, ?ce] ! k)) * 8 = unat (eBits (fE (?fs ! k)))"
    using sz by (auto simp: less_Suc_eq)
  moreover have "\<forall>f \<in> set ?fs. elem_sized (fE f)" "spans ?fs < 2 ^ 32"
    by (simp_all add: elem_sized_def getSizeBits_def span_def)
  ultimately show ?thesis
    using client_struct_layout [of ?fs "[?ce, ?ce]" 1 9 "[[97, 0], [98, 0]]" ce _ 9 "Component_new 0" 0 0] ce
    by auto
qed

text \<open>What every builder satisfies.\<close>

definition builder_ok :: "Builder \<Rightarrow> bool" where
  "builder_ok b \<longleftrightarrow> length (bElementNames b) = length (bElements b) \<and>
     length (bArraySizes b) = length (bElements b) \<and> length (bElements b) \<le> bElementsVecSize b \<and>
     (\<forall>nm \<in> set (bElementNames b). \<exists>n. nm = c_str n @ [0])"

lemma builder_ok_new: "builder_ok Builder_new"
  by (simp add: builder_ok_def Builder_new_def)

lemma builder_ok_add:
  assumes "builder_ok b"
  shows "\<exists>b'. Builder_add b e name as = Some b' \<and> builder_ok b'"
  using assms by (auto simp: builder_ok_def Builder_add_def Let_def)



lemma builder_no_match:
  assumes "builder_ok b" and "bElements b \<noteq> []"
    and args: "field_args es (map c_str (bElementNames b)) (Some (map length (bElementNames b))) (Some (bArraySizes b)) = Some args"
    and "length es = length (bElements b)"
  shows "find (struct_match args) ees = None"
proof -
  obtain e0 es0 where es0: "es = e0 # es0"
    using assms(2,4) by (cases es) auto
  then obtain n nms where nms: "bElementNames b = (c_str n @ [0]) # nms"
    using assms(1,4) by (cases "bElementNames b") (auto simp: builder_ok_def)
  obtain e1 as1 rest where a: "args = (e1, c_str (c_str n @ [0]), length (c_str n @ [0]), as1) # rest"
    using args unfolding es0 nms by (auto split: list.splits)
  have c: "c_str (c_str n @ [0]) = c_str n"
    unfolding c_str_def by (induction n) auto
  show ?thesis
    unfolding find_None_iff struct_match_def a
    by (auto simp: list_all2_Cons2 field_match_def c c_str_idem)
qed

lemma to_user_ref_next:
  assumes "to_user_ref h p = Some h'"
  shows "mNextAddr (mCache h') = mNextAddr (mCache h)"
proof -
  obtain h1 d where "incUserRef h p = Some h1" "decSysRef body_refs preDestroy (Suc (mNextAddr (mCache h1))) h1 p = Some (h', d)"
    using assms by (auto simp: to_user_ref_def simp del: decSysRef.simps)
  moreover have "mNextAddr (preDestroy b q c) = mNextAddr c" for b q c
    by (simp add: preDestroy_def split: RsBody.split)
  ultimately show ?thesis
    using decSysRef_cache [of mNextAddr preDestroy] upd_obj_cache [of h p _ h1]
    by (simp add: incUserRef_def del: decSysRef.simps)
qed

lemma incSysRefs_cache: "incSysRefs h ps = Some h' \<Longrightarrow> mCache h' = mCache h"
  by (induction ps arbitrary: h) (auto simp: incSysRef_def dest!: upd_obj_cache)

lemma enter_element_next: "enter_element h p e = Some h' \<Longrightarrow> mNextAddr (mCache h') = mNextAddr (mCache h)"
  by (auto simp: enter_element_def ObjectBase_new_def obj_add_def incSysRef_def split: option.splits
      dest!: upd_obj_cache incSysRefs_cache)

lemma Builder_create_fresh:
  assumes "builder_ok b" and "bElements b \<noteq> []" and "Builder_create rs b = Some (rs', ce)"
  shows "ceID ce = mNextAddr (mCache (rsContext rs))" and "mNextAddr (mCache (rsContext rs')) = Suc (ceID ce)"
proof -
  let ?h = "rsContext rs"
  obtain args h1 e h2 where args: "field_args (map (\<lambda>e. element_at ?h (ceID e)) (bElements b)) (map c_str (bElementNames b))
      (Some (map length (bElementNames b))) (Some (bArraySizes b)) = Some args"
      and e: "createRef_struct ?h args = Some (h1, Some e)" and h2: "to_user_ref h1 (eId e) = Some h2"
      and ce: "Element_struct (mNextThis rs) (eId e) (bElements b) (bElementNames b) (bArraySizes b) = Some ce"
      and rs': "rs' = rs\<lparr>rsContext := h2, mNextThis := Suc (mNextThis rs)\<rparr>"
    using assms(3) by (auto simp: Builder_create_def rsi_ElementCreate2_def Element_create_struct_def Let_def)
  have "find (struct_match args) (mElements (mCache ?h)) = None"
    by (rule builder_no_match [OF assms(1,2) args]) simp
  with e obtain h0 where "allocRuntimeMem ?h = (h0, Some (eId e))" "enter_element h0 (eId e) e = Some h1"
    by (auto simp: createRef_struct_def Let_def Element_compute_keys split: option.splits prod.splits)
  then have "eId e = mNextAddr (mCache ?h)" "mNextAddr (mCache h1) = Suc (eId e)"
    using allocRuntimeMem_Some [of ?h h0 "eId e"] enter_element_next [of h0 "eId e" e h1] by simp_all
  moreover have "ceID ce = eId e"
    using ce by (auto simp: Element_struct_def Let_def updateVisibleSubElements_def split: prod.splits if_splits)
  ultimately show "ceID ce = mNextAddr (mCache ?h)" "mNextAddr (mCache (rsContext rs')) = Suc (ceID ce)"
    using to_user_ref_next [OF h2] by (simp_all add: rs')
qed

text \<open>
  C32. A structure that was built on the client is never shared: \<open>Builder::create\<close> makes a new runtime
  element each time, at an address where there was no object, and creating twice from the same
  builder gives two elements. The lengths that it passes count the terminators of the names, and the
  lookup of the runtime compares them with \<open>strlen\<close>, so no cached element matches. Addresses from
  \<open>mNextAddr\<close> on are unused, as the allocator promises.
\<close>

theorem builder_never_shares:
  assumes "builder_ok b" and "bElements b \<noteq> []"
    and "dom (mObjs (rsContext rs)) \<subseteq> {..<mNextAddr (mCache (rsContext rs))}"
    and "Builder_create rs b = Some (rs1, ce1)" and "Builder_create rs1 b = Some (rs2, ce2)"
  shows "mObjs (rsContext rs) (ceID ce1) = None \<and> ceID ce2 \<noteq> ceID ce1"
proof
  note f = Builder_create_fresh [OF assms(1,2,4)] Builder_create_fresh [OF assms(1,2,5)]
  show "mObjs (rsContext rs) (ceID ce1) = None"
    using assms(3) f(1) by (auto simp: domIff [symmetric])
  show "ceID ce2 \<noteq> ceID ce1"
    using f(2,3) by simp
qed

definition demo_rs :: CRS where
  "demo_rs = (empty_CRS 0)\<lparr>rsContext := \<lparr>mObjHead = Some 1, mObjs = [1 \<mapsto> \<lparr>mName = None, mSysRefCount = 0, mUserRefCount = 1,
     mPrev = None, mNext = None, mBody = BElement (float_element 1)\<rparr>], mCache = \<lparr>mElements = [float_element 1], mTypes = [],
     mError = RS_ERROR_NONE, mFatalErrorOccured = False, mToClient = [], mNextAddr = 2, mAvail = 2\<rparr>\<rparr>\<rparr>"

definition demo_builder :: Builder where
  "demo_builder = the (Builder_add Builder_new (Element_scalar 1 1 RS_TYPE_FLOAT_32 RS_KIND_USER False 1) [97] 1)"

lemma demo_builds: "case Builder_create demo_rs demo_builder of None \<Rightarrow> False
    | Some (rs, _) \<Rightarrow> (case Builder_create rs demo_builder of None \<Rightarrow> False | Some _ \<Rightarrow> True)"
  by code_simp

theorem builder_never_shares_witness:
  "\<exists>rs1 ce1 rs2 ce2. Builder_create demo_rs demo_builder = Some (rs1, ce1) \<and>
     Builder_create rs1 demo_builder = Some (rs2, ce2) \<and> mObjs (rsContext demo_rs) (ceID ce1) = None \<and> ceID ce2 \<noteq> ceID ce1"
proof -
  obtain rs1 ce1 rs2 ce2 where c: "Builder_create demo_rs demo_builder = Some (rs1, ce1)"
      "Builder_create rs1 demo_builder = Some (rs2, ce2)"
    using demo_builds by (auto split: option.splits)
  have "builder_ok demo_builder"
    using builder_ok_add [OF builder_ok_new] unfolding demo_builder_def by (metis option.sel)
  moreover have "bElements demo_builder \<noteq> []"
    by (simp add: demo_builder_def Builder_add_def Builder_new_def Let_def)
  moreover have "dom (mObjs (rsContext demo_rs)) \<subseteq> {..<mNextAddr (mCache (rsContext demo_rs))}"
    by (simp add: demo_rs_def)
  ultimately show ?thesis
    using builder_never_shares [OF _ _ _ c] c by blast
qed

end
