(* ===== verification/Cpp_Type.thy ===== *)
theory Cpp_Type
  imports Cpp_Element
begin

text \<open>
  The C++ client API, second part: the types of \<^verbatim>\<open>cpp/Type.cpp\<close> with their cell count, and the
  builder that checks the dimensions before it asks the runtime for a type.
\<close>

record CType =
  ctID :: nat
  ctElement :: CElement
  ctDimX :: u32
  ctDimY :: u32
  ctDimZ :: u32
  ctYuvFormat :: u32
  ctDimMipmaps :: bool
  ctDimFaces :: bool
  ctElementCount :: u64

definition RS_YUV_NONE :: u32 where "RS_YUV_NONE = 0"

text \<open>
  The loop of \<open>calcElementCount\<close> over the mipmap levels; \<open>half\<close> is \<^verbatim>\<open>if (x > 1) x >>= 1\<close>.
\<close>

function calc_loop :: "u32 \<Rightarrow> u32 \<Rightarrow> u32 \<Rightarrow> u32 \<Rightarrow> u32 \<Rightarrow> u32" where
  "calc_loop faces x y z ct =
     (if x > 1 \<or> y > 1 \<or> z > 1 then
        calc_loop faces (half x) (half y) (half z) (ct + half x * half y * half z * faces)
      else ct)"
  by pat_completeness auto
termination
proof (relation "measure (\<lambda>(faces, x, y, z, ct). unat x + unat y + unat z)")
  fix faces x y z ct :: u32
  assume "x > 1 \<or> y > 1 \<or> z > 1"
  then show "((faces, half x, half y, half z, ct + half x * half y * half z * faces), faces, x, y, z, ct)
    \<in> measure (\<lambda>(faces, x, y, z, ct). unat x + unat y + unat z)"
    by (auto simp: unat_half word_less_nat_alt)
qed simp

declare calc_loop.simps [simp del]

definition calcElementCount :: "u32 \<Rightarrow> u32 \<Rightarrow> u32 \<Rightarrow> bool \<Rightarrow> bool \<Rightarrow> u64" where
  "calcElementCount dimX dimY dimZ mipmaps hasFaces =
     (let faces = (if hasFaces then 6 else 1);
          x = (if dimX = 0 then 1 else dimX);
          y = (if dimY = 0 then 1 else dimY);
          z = (if dimZ = 0 then 1 else dimZ);
          ct = x * y * z * faces
      in ucast (if mipmaps then calc_loop faces x y z ct else ct))"

definition new_CType :: "nat \<Rightarrow> CElement \<Rightarrow> u32 \<Rightarrow> u32 \<Rightarrow> u32 \<Rightarrow> bool \<Rightarrow> bool \<Rightarrow> u32 \<Rightarrow> CType" where
  "new_CType i e dimX dimY dimZ mipmaps faces yuv =
     \<lparr>ctID = i, ctElement = e, ctDimX = dimX, ctDimY = dimY, ctDimZ = dimZ, ctYuvFormat = yuv,
      ctDimMipmaps = mipmaps, ctDimFaces = faces,
      ctElementCount = calcElementCount dimX dimY dimZ mipmaps faces\<rparr>"

text \<open>The dispatched call \<^verbatim>\<open>TypeCreate\<close> followed by the client's own object.\<close>

definition create_type :: "'a CRS_scheme \<Rightarrow> CElement \<Rightarrow> u32 \<Rightarrow> u32 \<Rightarrow> u32 \<Rightarrow> bool \<Rightarrow> bool \<Rightarrow> u32 \<Rightarrow>
    ('a CRS_scheme \<times> CType) option" where
  "create_type rs ce dimX dimY dimZ mipmaps faces yuv = do {
     e \<leftarrow> element_at (rsContext rs) (ceID ce);
     (h, t) \<leftarrow> rsi_TypeCreate (rsContext rs) e dimX dimY dimZ mipmaps faces yuv;
     Some (rs\<lparr>rsContext := h\<rparr>, new_CType (tId t) ce dimX dimY dimZ mipmaps faces yuv) }"

definition Type_create :: "'a CRS_scheme \<Rightarrow> CElement \<Rightarrow> u32 \<Rightarrow> u32 \<Rightarrow> u32 \<Rightarrow> ('a CRS_scheme \<times> CType) option" where
  "Type_create rs e dimX dimY dimZ = create_type rs e dimX dimY dimZ False False RS_YUV_NONE"

record TypeBuilder =
  tbElement :: CElement
  tbDimX :: u32
  tbDimY :: u32
  tbDimZ :: u32
  tbYuvFormat :: u32
  tbDimMipmaps :: bool
  tbDimFaces :: bool

definition TypeBuilder_new :: "CElement \<Rightarrow> TypeBuilder" where
  "TypeBuilder_new e = \<lparr>tbElement = e, tbDimX = 0, tbDimY = 0, tbDimZ = 0, tbYuvFormat = RS_YUV_NONE,
     tbDimMipmaps = False, tbDimFaces = False\<rparr>"

text \<open>The setters; a dimension below one is only logged.\<close>

definition setX :: "TypeBuilder \<Rightarrow> u32 \<Rightarrow> TypeBuilder" where "setX b v = b\<lparr>tbDimX := v\<rparr>"
definition setY :: "TypeBuilder \<Rightarrow> u32 \<Rightarrow> TypeBuilder" where "setY b v = b\<lparr>tbDimY := v\<rparr>"
definition setZ :: "TypeBuilder \<Rightarrow> u32 \<Rightarrow> TypeBuilder" where "setZ b v = b\<lparr>tbDimZ := v\<rparr>"
definition setMipmaps :: "TypeBuilder \<Rightarrow> bool \<Rightarrow> TypeBuilder" where "setMipmaps b v = b\<lparr>tbDimMipmaps := v\<rparr>"
definition setFaces :: "TypeBuilder \<Rightarrow> bool \<Rightarrow> TypeBuilder" where "setFaces b v = b\<lparr>tbDimFaces := v\<rparr>"

text \<open>The predefined element \<^verbatim>\<open>YUV\<close> is created by the check when it is not there yet.\<close>

definition setYuvFormat :: "bool \<Rightarrow> 'a CRS_scheme \<Rightarrow> TypeBuilder \<Rightarrow> u32 \<Rightarrow> ('a CRS_scheme \<times> TypeBuilder) option" where
  "setYuvFormat lp64 rs b format =
     (if format \<noteq> RS_YUV_NONE then do {
        (rs, yuv) \<leftarrow> predefined lp64 rs ''YUV'';
        yuv \<leftarrow> yuv;
        if \<not> isCompatible (tbElement b) yuv then Some (rs, b)
        else if format \<noteq> RS_YUV_YV12 \<and> format \<noteq> RS_YUV_NV21 \<and> format \<noteq> RS_YUV_420_888 then Some (rs, b)
        else Some (rs, b\<lparr>tbYuvFormat := format\<rparr>) }
      else Some (rs, b\<lparr>tbYuvFormat := format\<rparr>))"

definition TypeBuilder_create :: "'a CRS_scheme \<Rightarrow> TypeBuilder \<Rightarrow> ('a CRS_scheme \<times> CType option) option" where
  "TypeBuilder_create rs b =
     (if tbDimZ b > 0 \<and> (tbDimX b < 1 \<or> tbDimY b < 1) then Some (rs, None)
      else if tbDimZ b > 0 \<and> tbDimFaces b then Some (rs, None)
      else if tbDimY b > 0 \<and> tbDimX b < 1 then Some (rs, None)
      else if tbDimFaces b \<and> tbDimY b < 1 then Some (rs, None)
      else if tbYuvFormat b \<noteq> RS_YUV_NONE \<and> (tbDimZ b \<noteq> 0 \<or> tbDimFaces b \<or> tbDimMipmaps b) then Some (rs, None)
      else if tbYuvFormat b = RS_YUV_420_888 then Some (rs, None)
      else do {
        (rs, t) \<leftarrow> create_type rs (tbElement b) (tbDimX b) (tbDimY b) (tbDimZ b) (tbDimMipmaps b)
          (tbDimFaces b) (tbYuvFormat b);
        Some (rs, Some t) })"


section \<open>Client and runtime agree on cell counts\<close>

lemma half_one [simp]: "half 1 = 1"
  by (simp add: half_def)

lemma half_nonzero: "x \<noteq> 0 \<Longrightarrow> half x \<noteq> 0"
proof
  assume "x \<noteq> 0" "half x = 0"
  then have "unat x \<noteq> 0" "unat (half x) = 0"
    by (simp_all add: unat_eq_0)
  then show False
    by (simp add: unat_half split: if_splits)
qed

lemma rsFindHighBit_unique:
  assumes "2 ^ k \<le> unat v" "unat v < 2 ^ Suc k"
  shows "unat (rsFindHighBit v) = k"
proof -
  have v: "v \<noteq> 0"
    using assms(1) by (cases "v = 0") simp_all
  note h = rsFindHighBit_log [OF v]
  have "(2::nat) ^ unat (rsFindHighBit v) < 2 ^ Suc k" "(2::nat) ^ k < 2 ^ Suc (unat (rsFindHighBit v))"
    using assms h by linarith+
  then have "unat (rsFindHighBit v) < Suc k" "k < Suc (unat (rsFindHighBit v))"
    by (blast dest: pow2_lessD)+
  then show ?thesis
    by simp
qed

lemma rsFindHighBit_half:
  "unat (rsFindHighBit x) = (if 1 < unat x then Suc (unat (rsFindHighBit (half x))) else 0)"
proof (cases "1 < unat x")
  case True
  have "x \<noteq> 0"
    using True by auto
  then have hx: "half x \<noteq> 0" "unat (half x) = unat x div 2"
    using half_nonzero True by (auto simp: unat_half)
  note h = rsFindHighBit_log [OF hx(1)]
  have "unat (rsFindHighBit x) = Suc (unat (rsFindHighBit (half x)))"
    using h(1,2) hx(2) by (intro rsFindHighBit_unique) auto
  then show ?thesis
    using True by simp
next
  case False
  then have "unat x = 0 \<or> unat x = 1"
    by linarith
  then have "x = 0 \<or> unat x = 1"
    by (simp add: unat_eq_0)
  then show ?thesis
    using rsFindHighBit_unique [of 0 x] by auto
qed

lemma rsFindHighBit_pred:
  "unat (rsFindHighBit (half x)) = unat (rsFindHighBit x) - 1" "0 < unat (rsFindHighBit x) \<longleftrightarrow> 1 < unat x"
proof -
  have "\<not> 1 < unat x \<Longrightarrow> half x = x"
    by (simp add: half_def word_less_nat_alt)
  then show "unat (rsFindHighBit (half x)) = unat (rsFindHighBit x) - 1" "0 < unat (rsFindHighBit x) \<longleftrightarrow> 1 < unat x"
    using rsFindHighBit_half [of x] by (cases "1 < unat x"; simp)+
qed

lemma levels_half:
  assumes "1 < unat x \<or> 1 < unat y \<or> 1 < unat z"
  shows "levels True x y z = Suc (levels True (half x) (half y) (half z))"
  using assms unfolding rsFindHighBit_pred(2) [symmetric] levels_def rsFindHighBit_pred(1) by auto

definition level_prod :: "u32 \<Rightarrow> u32 \<Rightarrow> u32 \<Rightarrow> u32 \<Rightarrow> nat \<Rightarrow> u32" where
  "level_prod f x y z i = (half ^^ i) x * (half ^^ i) y * (half ^^ i) z * f"

lemma calc_loop_eq:
  "calc_loop f x y z c = c + (\<Sum>i<levels True x y z - 1. level_prod f x y z (Suc i))"
proof (induction f x y z c rule: calc_loop.induct)
  case (1 f x y z c)
  show ?case
  proof (cases "x > 1 \<or> y > 1 \<or> z > 1")
    case True
    let ?n = "levels True (half x) (half y) (half z)"
    have n: "levels True x y z = Suc ?n" "0 < ?n"
      using True levels_half [of x y z] by (simp_all add: word_less_nat_alt levels_def)
    have "calc_loop f x y z c = calc_loop f (half x) (half y) (half z) (c + half x * half y * half z * f)"
      using True by (subst calc_loop.simps) simp
    also have "\<dots> = c + half x * half y * half z * f +
        (\<Sum>i<?n - 1. level_prod f (half x) (half y) (half z) (Suc i))"
      using 1 [OF True] by simp
    also have "\<dots> = c + (\<Sum>i<?n. level_prod f x y z (Suc i))"
      using sum.lessThan_Suc_shift [of "\<lambda>i. level_prod f x y z (Suc i)" "?n - 1"] n(2)
      by (simp add: level_prod_def funpow_swap1 add.assoc)
    finally show ?thesis
      using n(1) by simp
  next
    case False
    then have "\<not> 1 < unat x" "\<not> 1 < unat y" "\<not> 1 < unat z"
      by (simp_all add: word_less_nat_alt)
    then have "levels True x y z = 1"
      unfolding rsFindHighBit_pred(2) [symmetric] by (simp add: levels_def)
    then show ?thesis
      using False by (subst calc_loop.simps) simp
  qed
qed


text \<open>What the client counts, at 32 bits: the cells of all levels and faces.\<close>

definition cell_total :: "nat \<Rightarrow> nat \<Rightarrow> u32 \<Rightarrow> u32 \<Rightarrow> u32 \<Rightarrow> nat" where
  "cell_total n f x y z = (\<Sum>k<n. level_dim k x * max 1 (level_dim k y) * max 1 (level_dim k z)) * f"

lemma half_pow_of_nat: "(half ^^ k) x = of_nat (level_dim k x)"
  by (metis of_nat_unat_eq_self unat_half_pow)

lemma present_level: "level_dim k (if x = 0 then 1 else x) = max 1 (level_dim k x)"
  by (auto simp: level_dim_def)

lemma present_levels:
  "levels mip (if x = 0 then 1 else x) (if y = 0 then 1 else y) (if z = 0 then 1 else z) = levels mip x y z"
proof -
  have "rsFindHighBit 1 = 0"
    using rsFindHighBit_unique [of 0 1] by (simp add: unat_eq_0)
  then show ?thesis
    by (simp add: levels_def)
qed

lemma calcElementCount_eq:
  assumes "x \<noteq> 0"
  shows "unat (calcElementCount x y z mip hasFaces) =
    cell_total (levels mip x y z) (if hasFaces then 6 else 1) x y z mod 2 ^ 32"
proof -
  let ?f = "if hasFaces then 6 else 1 :: u32" and ?fn = "if hasFaces then 6 else 1 :: nat"
  let ?y = "if y = 0 then 1 else y" and ?z = "if z = 0 then 1 else z"
  let ?n = "levels mip x y z"
  have lev: "levels mip x ?y ?z = ?n"
    using present_levels [of mip x y z] assms by simp
  have "calcElementCount x y z mip hasFaces = ucast (\<Sum>i<?n. level_prod ?f x ?y ?z i)"
  proof (cases mip)
    case True
    obtain m where m: "?n = Suc m"
      using levels_le(1) [of mip x y z] by (cases ?n) simp_all
    have "calcElementCount x y z mip hasFaces = ucast (calc_loop ?f x ?y ?z (x * ?y * ?z * ?f))"
      using assms True unfolding calcElementCount_def Let_def by (simp only: if_True if_False simp_thms)
    also have "\<dots> = ucast (x * ?y * ?z * ?f + (\<Sum>i<m. level_prod ?f x ?y ?z (Suc i)))"
      unfolding calc_loop_eq using lev m True by simp
    also have "\<dots> = ucast (\<Sum>i<?n. level_prod ?f x ?y ?z i)"
      unfolding m sum.lessThan_Suc_shift by (simp add: level_prod_def)
    finally show ?thesis .
  next
    case False
    then show ?thesis
      using assms by (simp add: calcElementCount_def levels_def level_prod_def Let_def)
  qed
  moreover have "(\<Sum>i<?n. level_prod ?f x ?y ?z i) = of_nat (cell_total ?n ?fn x y z)"
  proof -
    have "level_prod ?f x ?y ?z i =
        of_nat (level_dim i x * max 1 (level_dim i y) * max 1 (level_dim i z) * ?fn)" for i
      unfolding level_prod_def half_pow_of_nat present_level [of i y, symmetric] present_level [of i z, symmetric]
      by (cases hasFaces) simp_all
    then show ?thesis
      by (simp only: cell_total_def of_nat_sum [symmetric] sum_distrib_right)
  qed
  ultimately show ?thesis
    by (simp add: unat_of_nat)
qed

text \<open>
  C16. For a type without YUV planes, with a width that is not 0 and fewer than \<open>2 ^ 32\<close> cells at its
  base level, client and runtime agree on the number of cells, mipmap levels and faces included, up
  to the width of the client's counter: the client counts at 32 bits, the runtime at 64. Types with
  YUV planes or without a width are counted differently by the two and not covered.
\<close>

theorem client_cell_count:
  assumes "new_type i e p = Some t" and "pYuv p = 0" and "pDimX p \<noteq> 0"
    and "unat (pDimX p) * max 1 (unat (pDimY p)) * max 1 (unat (pDimZ p)) < 2 ^ 32"
  shows "unat (calcElementCount (pDimX p) (pDimY p) (pDimZ p) (pMipmaps p) (pFaces p)) =
    unat (tCellCount t) mod 2 ^ 32"
  using calcElementCount_eq [OF assms(3)] new_type_cells [OF assms(1,2,4)] by (simp add: cell_total_def)

theorem client_cell_count_witness:
  "\<exists>t. new_type 2 (float_element 1) (zero_params\<lparr>pDimX := 5, pDimY := 3, pMipmaps := True\<rparr>) = Some t \<and>
    unat (calcElementCount 5 3 0 True False) = unat (tCellCount t) mod 2 ^ 32"
proof -
  let ?p = "zero_params\<lparr>pDimX := 5, pDimY := 3, pMipmaps := True\<rparr>"
  have p: "pDimX ?p = 5" "pDimY ?p = 3" "pDimZ ?p = 0" "pMipmaps ?p" "pYuv ?p = 0" "\<not> pFaces ?p"
    by (simp_all add: zero_params_def)
  obtain t where "new_type 2 (float_element 1) ?p = Some t"
    using new_type_ok [of ?p 2 "float_element 1"] p by (auto simp: params_ok_def no_arrays_def zero_params_def)
  then show ?thesis
    using client_cell_count [of 2 "float_element 1" ?p t] p by simp
qed

section \<open>The builder is safe\<close>

lemma element_atD:
  assumes "ctx_ok lp64 h xs ext" "element_at h p = Some e"
  shows "bodies h p = Some (BElement e)" "eId e = p"
proof -
  show b: "bodies h p = Some (BElement e)"
    using assms(2) by (auto simp: element_at_def bodies_Some split: option.splits RsBody.splits)
  show "eId e = p"
    using heap_okD(1) [OF ctx_okD(5) [OF assms(1)] b] by (simp add: body_id_def)
qed

lemma create_type_ok:
  assumes ok: "ctx_ok lp64 (rsContext rs) xs ext" and mem: "0 < mAvail (mCache (rsContext rs))"
    and e: "element_at (rsContext rs) (ceID ce) = Some e" and y: "yuv = 0 \<or> \<not> mip"
  shows "\<exists>rs' xs' t. create_type rs ce x y z mip faces yuv = Some (rs', new_CType (tId t) ce x y z mip faces yuv) \<and>
    ctx_ok lp64 (rsContext rs') xs' ext \<and> bodies (rsContext rs') (tId t) = Some (BType t) \<and> tElement t = e \<and>
    tDimX t = x \<and> tDimY t = y \<and> tDimZ t = z \<and> tDimLOD t = mip \<and> tFaces t = faces \<and> tDimYuv t = yuv"
proof -
  let ?p = "zero_params\<lparr>pDimX := x, pDimY := y, pDimZ := z, pMipmaps := mip, pFaces := faces, pYuv := yuv\<rparr>"
  have p: "params_ok ?p"
    using y by (auto simp: params_ok_def no_arrays_def zero_params_def)
  have b: "bodies (rsContext rs) (eId e) = Some (BElement e)"
    using element_atD [OF ok e] by simp
  obtain h' xs' t where t: "getType (rsContext rs) e ?p = Some (h', t)" "ctx_ok lp64 h' xs' ext"
      "find (\<lambda>t. type_match e ?p t = Some True) (mTypes (mCache h')) = Some t" "tElement t = e"
    using getType_ok [OF ok mem b p] by (elim exE conjE) (rule that; assumption)
  have m: "type_match e ?p t = Some True" "t \<in> set (mTypes (mCache h'))"
    using t(3) by (auto simp: find_Some_iff)
  have "create_type rs ce x y z mip faces yuv =
      Some (rs\<lparr>rsContext := h'\<rparr>, new_CType (tId t) ce x y z mip faces yuv)"
    using e t(1) by (simp add: create_type_def rsi_TypeCreate_def)
  then show ?thesis
    using t(2,4) cached_type(2) [OF t(2) m(2)] type_matchD(2-7) [OF m(1)]
    by (intro exI [of _ "rs\<lparr>rsContext := h'\<rparr>"] exI [of _ xs'] exI [of _ t]) simp
qed

text \<open>
  C17. However the type builder of the client is set up, its \<open>create\<close> is defined while the element
  is live and there is memory: it refuses, leaving everything as it was, or it returns a type
  whose handle is a live runtime type with the requested element and dimensions, and the context
  stays well formed. In particular it never asks the runtime for a mipmapped YUV type, on which
  \<open>Type::compute\<close> may write outside its arrays.
\<close>

theorem TypeBuilder_safe:
  assumes "ctx_ok lp64 (rsContext rs) xs ext" and "0 < mAvail (mCache (rsContext rs))"
    and "element_at (rsContext rs) (ceID (tbElement b)) = Some e"
  shows "TypeBuilder_create rs b = Some (rs, None) \<or>
    (\<exists>rs' xs' ct t. TypeBuilder_create rs b = Some (rs', Some ct) \<and> ctx_ok lp64 (rsContext rs') xs' ext \<and>
      bodies (rsContext rs') (ctID ct) = Some (BType t) \<and> tElement t = e \<and> tDimX t = ctDimX ct \<and>
      tDimY t = ctDimY ct \<and> tDimZ t = ctDimZ ct \<and> tDimLOD t = ctDimMipmaps ct \<and> tFaces t = ctDimFaces ct \<and>
      tDimYuv t = ctYuvFormat ct)"
proof (cases "TypeBuilder_create rs b = Some (rs, None)")
  case False
  then have y: "tbYuvFormat b = 0 \<or> \<not> tbDimMipmaps b"
    and c: "TypeBuilder_create rs b = do {
        (rs, t) \<leftarrow> create_type rs (tbElement b) (tbDimX b) (tbDimY b) (tbDimZ b) (tbDimMipmaps b)
          (tbDimFaces b) (tbYuvFormat b);
        Some (rs, Some t) }"
    by (auto simp: TypeBuilder_create_def RS_YUV_NONE_def split: if_splits)
  show ?thesis
    using create_type_ok [OF assms y, of "tbDimX b" "tbDimY b" "tbDimZ b" "tbDimFaces b"]
    unfolding c by (auto simp: new_CType_def)
qed simp

theorem TypeBuilder_safe_witness:
  "\<exists>rs ce rs' ct. new_scalar True (empty_CRS 2) RS_TYPE_FLOAT_32 RS_KIND_USER False 1 = Some (rs, ce) \<and>
    TypeBuilder_create rs (setX (TypeBuilder_new ce) 8) = Some (rs', Some ct) \<and> ctDimX ct = 8"
proof -
  have "0 < mAvail (mCache (empty_context 2))"
    by (simp add: empty_context_def)
  from Element_create_ok [OF ctx_ok_empty this float_component_set]
  obtain h xs e where h: "Element_create True (empty_context 2) RS_TYPE_FLOAT_32 RS_KIND_USER False 1 = Some (h, e)"
      "ctx_ok True h xs {#}" "e \<in> set (mElements (mCache h))"
      "mAvail (mCache (empty_context 2)) - 1 \<le> mAvail (mCache h)"
    by blast
  let ?rs = "(empty_CRS 2)\<lparr>rsContext := h, mNextThis := 2\<rparr>"
  let ?ce = "Element_scalar 1 (eId e) RS_TYPE_FLOAT_32 RS_KIND_USER False 1"
  have n: "new_scalar True (empty_CRS 2) RS_TYPE_FLOAT_32 RS_KIND_USER False 1 = Some (?rs, ?ce)"
    using h(1) by (simp add: new_scalar_def rsi_ElementCreate_def empty_CRS_def Let_def)
  have "element_at h (eId e) = Some e"
    using cached_element(2) [OF h(2,3)] by (auto simp: element_at_def bodies_Some)
  then have "element_at (rsContext ?rs) (ceID (tbElement (setX (TypeBuilder_new ?ce) 8))) = Some e"
    by (simp add: setX_def TypeBuilder_new_def Element_scalar_def Let_def)
  moreover have "0 < mAvail (mCache (rsContext ?rs))" "ctx_ok True (rsContext ?rs) xs {#}"
    using h(2,4) by (simp_all add: empty_context_def)
  ultimately obtain rs' ct where "TypeBuilder_create ?rs (setX (TypeBuilder_new ?ce) 8) = Some (rs', Some ct)"
    using TypeBuilder_safe [of True ?rs xs "{#}" "setX (TypeBuilder_new ?ce) 8" e]
    by (auto simp: TypeBuilder_create_def setX_def TypeBuilder_new_def RS_YUV_NONE_def RS_YUV_420_888_def)
  moreover from this have "ctDimX ct = 8"
    by (auto simp: TypeBuilder_create_def create_type_def setX_def TypeBuilder_new_def new_CType_def split: if_splits)
  ultimately show ?thesis
    using n by blast
qed

end
