(* ===== verification/Blas_Call.thy ===== *)
theory Blas_Call
  imports Cpp_Type
begin

text \<open>
  The command that the BLAS client of \<^verbatim>\<open>cpp/ScriptIntrinsicBLAS.cpp\<close> sends to the runtime: the
  structures and enumerations of \<^verbatim>\<open>rsDefines.h\<close>, the functions that fill in a command, and
  \<^verbatim>\<open>tryDispatch\<close>, which sends it unless the client is in an error state.

  A \<^verbatim>\<open>float\<close> or \<^verbatim>\<open>double\<close> is its bit pattern. A C++ \<^verbatim>\<open>int\<close> is an \<open>int\<close>; the operations on it
  are undefined when the result does not fit 32 bits.
\<close>

section \<open>Signed arithmetic at 32 bits\<close>

definition int_fits :: "int \<Rightarrow> bool" where
  "int_fits i \<longleftrightarrow> - (2 ^ 31) \<le> i \<and> i < 2 ^ 31"

definition int_val :: "int \<Rightarrow> int option" where
  "int_val i = (if int_fits i then Some i else None)"

definition int_add :: "int \<Rightarrow> int \<Rightarrow> int option" where "int_add a b = int_val (a + b)"
definition int_sub :: "int \<Rightarrow> int \<Rightarrow> int option" where "int_sub a b = int_val (a - b)"
definition int_mul :: "int \<Rightarrow> int \<Rightarrow> int option" where "int_mul a b = int_val (a * b)"

text \<open>The short-circuit \<^verbatim>\<open>||\<close> of operands that may be undefined.\<close>

definition lor :: "bool option \<Rightarrow> bool option \<Rightarrow> bool option" where
  "lor a b = do { x \<leftarrow> a; if x then Some True else b }"

lemma lor_simps [simp]:
  "lor None b = None" "lor (Some True) b = Some True" "lor (Some False) b = b"
  by (simp_all add: lor_def)

section \<open>Enumerations\<close>

datatype RsBlasTranspose = RsBlasNoTrans | RsBlasTrans | RsBlasConjTrans
datatype RsBlasUplo = RsBlasUpper | RsBlasLower
datatype RsBlasDiag = RsBlasNonUnit | RsBlasUnit
datatype RsBlasSide = RsBlasLeft | RsBlasRight
datatype RsBlasDataType = SINGLE | DOUBLE | SINGLE_COMPLEX | DOUBLE_COMPLEX

primrec trans_val :: "RsBlasTranspose \<Rightarrow> int" where
  "trans_val RsBlasNoTrans = 111" | "trans_val RsBlasTrans = 112" | "trans_val RsBlasConjTrans = 113"
primrec uplo_val :: "RsBlasUplo \<Rightarrow> int" where
  "uplo_val RsBlasUpper = 121" | "uplo_val RsBlasLower = 122"
primrec diag_val :: "RsBlasDiag \<Rightarrow> int" where
  "diag_val RsBlasNonUnit = 131" | "diag_val RsBlasUnit = 132"
primrec side_val :: "RsBlasSide \<Rightarrow> int" where
  "side_val RsBlasLeft = 141" | "side_val RsBlasRight = 142"

text \<open>\<^verbatim>\<open>RsBlasFunction\<close>, from level 2 on; nothing sends the earlier functions.\<close>

definition RsBlas_sgemv :: int where RsBlas_sgemv_def [blas_enum]: "RsBlas_sgemv = 47"
definition RsBlas_sgbmv :: int where RsBlas_sgbmv_def [blas_enum]: "RsBlas_sgbmv = 48"
definition RsBlas_strmv :: int where RsBlas_strmv_def [blas_enum]: "RsBlas_strmv = 49"
definition RsBlas_stbmv :: int where RsBlas_stbmv_def [blas_enum]: "RsBlas_stbmv = 50"
definition RsBlas_stpmv :: int where RsBlas_stpmv_def [blas_enum]: "RsBlas_stpmv = 51"
definition RsBlas_strsv :: int where RsBlas_strsv_def [blas_enum]: "RsBlas_strsv = 52"
definition RsBlas_stbsv :: int where RsBlas_stbsv_def [blas_enum]: "RsBlas_stbsv = 53"
definition RsBlas_stpsv :: int where RsBlas_stpsv_def [blas_enum]: "RsBlas_stpsv = 54"
definition RsBlas_dgemv :: int where RsBlas_dgemv_def [blas_enum]: "RsBlas_dgemv = 55"
definition RsBlas_dgbmv :: int where RsBlas_dgbmv_def [blas_enum]: "RsBlas_dgbmv = 56"
definition RsBlas_dtrmv :: int where RsBlas_dtrmv_def [blas_enum]: "RsBlas_dtrmv = 57"
definition RsBlas_dtbmv :: int where RsBlas_dtbmv_def [blas_enum]: "RsBlas_dtbmv = 58"
definition RsBlas_dtpmv :: int where RsBlas_dtpmv_def [blas_enum]: "RsBlas_dtpmv = 59"
definition RsBlas_dtrsv :: int where RsBlas_dtrsv_def [blas_enum]: "RsBlas_dtrsv = 60"
definition RsBlas_dtbsv :: int where RsBlas_dtbsv_def [blas_enum]: "RsBlas_dtbsv = 61"
definition RsBlas_dtpsv :: int where RsBlas_dtpsv_def [blas_enum]: "RsBlas_dtpsv = 62"
definition RsBlas_cgemv :: int where RsBlas_cgemv_def [blas_enum]: "RsBlas_cgemv = 63"
definition RsBlas_cgbmv :: int where RsBlas_cgbmv_def [blas_enum]: "RsBlas_cgbmv = 64"
definition RsBlas_ctrmv :: int where RsBlas_ctrmv_def [blas_enum]: "RsBlas_ctrmv = 65"
definition RsBlas_ctbmv :: int where RsBlas_ctbmv_def [blas_enum]: "RsBlas_ctbmv = 66"
definition RsBlas_ctpmv :: int where RsBlas_ctpmv_def [blas_enum]: "RsBlas_ctpmv = 67"
definition RsBlas_ctrsv :: int where RsBlas_ctrsv_def [blas_enum]: "RsBlas_ctrsv = 68"
definition RsBlas_ctbsv :: int where RsBlas_ctbsv_def [blas_enum]: "RsBlas_ctbsv = 69"
definition RsBlas_ctpsv :: int where RsBlas_ctpsv_def [blas_enum]: "RsBlas_ctpsv = 70"
definition RsBlas_zgemv :: int where RsBlas_zgemv_def [blas_enum]: "RsBlas_zgemv = 71"
definition RsBlas_zgbmv :: int where RsBlas_zgbmv_def [blas_enum]: "RsBlas_zgbmv = 72"
definition RsBlas_ztrmv :: int where RsBlas_ztrmv_def [blas_enum]: "RsBlas_ztrmv = 73"
definition RsBlas_ztbmv :: int where RsBlas_ztbmv_def [blas_enum]: "RsBlas_ztbmv = 74"
definition RsBlas_ztpmv :: int where RsBlas_ztpmv_def [blas_enum]: "RsBlas_ztpmv = 75"
definition RsBlas_ztrsv :: int where RsBlas_ztrsv_def [blas_enum]: "RsBlas_ztrsv = 76"
definition RsBlas_ztbsv :: int where RsBlas_ztbsv_def [blas_enum]: "RsBlas_ztbsv = 77"
definition RsBlas_ztpsv :: int where RsBlas_ztpsv_def [blas_enum]: "RsBlas_ztpsv = 78"
definition RsBlas_ssymv :: int where RsBlas_ssymv_def [blas_enum]: "RsBlas_ssymv = 79"
definition RsBlas_ssbmv :: int where RsBlas_ssbmv_def [blas_enum]: "RsBlas_ssbmv = 80"
definition RsBlas_sspmv :: int where RsBlas_sspmv_def [blas_enum]: "RsBlas_sspmv = 81"
definition RsBlas_sger :: int where RsBlas_sger_def [blas_enum]: "RsBlas_sger = 82"
definition RsBlas_ssyr :: int where RsBlas_ssyr_def [blas_enum]: "RsBlas_ssyr = 83"
definition RsBlas_sspr :: int where RsBlas_sspr_def [blas_enum]: "RsBlas_sspr = 84"
definition RsBlas_ssyr2 :: int where RsBlas_ssyr2_def [blas_enum]: "RsBlas_ssyr2 = 85"
definition RsBlas_sspr2 :: int where RsBlas_sspr2_def [blas_enum]: "RsBlas_sspr2 = 86"
definition RsBlas_dsymv :: int where RsBlas_dsymv_def [blas_enum]: "RsBlas_dsymv = 87"
definition RsBlas_dsbmv :: int where RsBlas_dsbmv_def [blas_enum]: "RsBlas_dsbmv = 88"
definition RsBlas_dspmv :: int where RsBlas_dspmv_def [blas_enum]: "RsBlas_dspmv = 89"
definition RsBlas_dger :: int where RsBlas_dger_def [blas_enum]: "RsBlas_dger = 90"
definition RsBlas_dsyr :: int where RsBlas_dsyr_def [blas_enum]: "RsBlas_dsyr = 91"
definition RsBlas_dspr :: int where RsBlas_dspr_def [blas_enum]: "RsBlas_dspr = 92"
definition RsBlas_dsyr2 :: int where RsBlas_dsyr2_def [blas_enum]: "RsBlas_dsyr2 = 93"
definition RsBlas_dspr2 :: int where RsBlas_dspr2_def [blas_enum]: "RsBlas_dspr2 = 94"
definition RsBlas_chemv :: int where RsBlas_chemv_def [blas_enum]: "RsBlas_chemv = 95"
definition RsBlas_chbmv :: int where RsBlas_chbmv_def [blas_enum]: "RsBlas_chbmv = 96"
definition RsBlas_chpmv :: int where RsBlas_chpmv_def [blas_enum]: "RsBlas_chpmv = 97"
definition RsBlas_cgeru :: int where RsBlas_cgeru_def [blas_enum]: "RsBlas_cgeru = 98"
definition RsBlas_cgerc :: int where RsBlas_cgerc_def [blas_enum]: "RsBlas_cgerc = 99"
definition RsBlas_cher :: int where RsBlas_cher_def [blas_enum]: "RsBlas_cher = 100"
definition RsBlas_chpr :: int where RsBlas_chpr_def [blas_enum]: "RsBlas_chpr = 101"
definition RsBlas_cher2 :: int where RsBlas_cher2_def [blas_enum]: "RsBlas_cher2 = 102"
definition RsBlas_chpr2 :: int where RsBlas_chpr2_def [blas_enum]: "RsBlas_chpr2 = 103"
definition RsBlas_zhemv :: int where RsBlas_zhemv_def [blas_enum]: "RsBlas_zhemv = 104"
definition RsBlas_zhbmv :: int where RsBlas_zhbmv_def [blas_enum]: "RsBlas_zhbmv = 105"
definition RsBlas_zhpmv :: int where RsBlas_zhpmv_def [blas_enum]: "RsBlas_zhpmv = 106"
definition RsBlas_zgeru :: int where RsBlas_zgeru_def [blas_enum]: "RsBlas_zgeru = 107"
definition RsBlas_zgerc :: int where RsBlas_zgerc_def [blas_enum]: "RsBlas_zgerc = 108"
definition RsBlas_zher :: int where RsBlas_zher_def [blas_enum]: "RsBlas_zher = 109"
definition RsBlas_zhpr :: int where RsBlas_zhpr_def [blas_enum]: "RsBlas_zhpr = 110"
definition RsBlas_zher2 :: int where RsBlas_zher2_def [blas_enum]: "RsBlas_zher2 = 111"
definition RsBlas_zhpr2 :: int where RsBlas_zhpr2_def [blas_enum]: "RsBlas_zhpr2 = 112"
definition RsBlas_sgemm :: int where RsBlas_sgemm_def [blas_enum]: "RsBlas_sgemm = 113"
definition RsBlas_ssymm :: int where RsBlas_ssymm_def [blas_enum]: "RsBlas_ssymm = 114"
definition RsBlas_ssyrk :: int where RsBlas_ssyrk_def [blas_enum]: "RsBlas_ssyrk = 115"
definition RsBlas_ssyr2k :: int where RsBlas_ssyr2k_def [blas_enum]: "RsBlas_ssyr2k = 116"
definition RsBlas_strmm :: int where RsBlas_strmm_def [blas_enum]: "RsBlas_strmm = 117"
definition RsBlas_strsm :: int where RsBlas_strsm_def [blas_enum]: "RsBlas_strsm = 118"
definition RsBlas_dgemm :: int where RsBlas_dgemm_def [blas_enum]: "RsBlas_dgemm = 119"
definition RsBlas_dsymm :: int where RsBlas_dsymm_def [blas_enum]: "RsBlas_dsymm = 120"
definition RsBlas_dsyrk :: int where RsBlas_dsyrk_def [blas_enum]: "RsBlas_dsyrk = 121"
definition RsBlas_dsyr2k :: int where RsBlas_dsyr2k_def [blas_enum]: "RsBlas_dsyr2k = 122"
definition RsBlas_dtrmm :: int where RsBlas_dtrmm_def [blas_enum]: "RsBlas_dtrmm = 123"
definition RsBlas_dtrsm :: int where RsBlas_dtrsm_def [blas_enum]: "RsBlas_dtrsm = 124"
definition RsBlas_cgemm :: int where RsBlas_cgemm_def [blas_enum]: "RsBlas_cgemm = 125"
definition RsBlas_csymm :: int where RsBlas_csymm_def [blas_enum]: "RsBlas_csymm = 126"
definition RsBlas_csyrk :: int where RsBlas_csyrk_def [blas_enum]: "RsBlas_csyrk = 127"
definition RsBlas_csyr2k :: int where RsBlas_csyr2k_def [blas_enum]: "RsBlas_csyr2k = 128"
definition RsBlas_ctrmm :: int where RsBlas_ctrmm_def [blas_enum]: "RsBlas_ctrmm = 129"
definition RsBlas_ctrsm :: int where RsBlas_ctrsm_def [blas_enum]: "RsBlas_ctrsm = 130"
definition RsBlas_zgemm :: int where RsBlas_zgemm_def [blas_enum]: "RsBlas_zgemm = 131"
definition RsBlas_zsymm :: int where RsBlas_zsymm_def [blas_enum]: "RsBlas_zsymm = 132"
definition RsBlas_zsyrk :: int where RsBlas_zsyrk_def [blas_enum]: "RsBlas_zsyrk = 133"
definition RsBlas_zsyr2k :: int where RsBlas_zsyr2k_def [blas_enum]: "RsBlas_zsyr2k = 134"
definition RsBlas_ztrmm :: int where RsBlas_ztrmm_def [blas_enum]: "RsBlas_ztrmm = 135"
definition RsBlas_ztrsm :: int where RsBlas_ztrsm_def [blas_enum]: "RsBlas_ztrsm = 136"
definition RsBlas_chemm :: int where RsBlas_chemm_def [blas_enum]: "RsBlas_chemm = 137"
definition RsBlas_cherk :: int where RsBlas_cherk_def [blas_enum]: "RsBlas_cherk = 138"
definition RsBlas_cher2k :: int where RsBlas_cher2k_def [blas_enum]: "RsBlas_cher2k = 139"
definition RsBlas_zhemm :: int where RsBlas_zhemm_def [blas_enum]: "RsBlas_zhemm = 140"
definition RsBlas_zherk :: int where RsBlas_zherk_def [blas_enum]: "RsBlas_zherk = 141"
definition RsBlas_zher2k :: int where RsBlas_zher2k_def [blas_enum]: "RsBlas_zher2k = 142"
definition RsBlas_bnnm :: int where RsBlas_bnnm_def [blas_enum]: "RsBlas_bnnm = 1000"

section \<open>The call structure\<close>

text \<open>
  \<^verbatim>\<open>RsBlasScalar\<close> is a union of a float, a pair of floats, a double and a pair of doubles in 16
  little-endian bytes; \<open>sLo\<close> are the first eight of them, \<open>sHi\<close> the others.
\<close>

record RsBlasScalar =
  sLo :: u64
  sHi :: u64

definition scalar_zero :: RsBlasScalar where "scalar_zero = \<lparr>sLo = 0, sHi = 0\<rparr>"

definition set_lo32 :: "u32 \<Rightarrow> u64 \<Rightarrow> u64" where
  "set_lo32 v w = (w AND NOT (mask 32)) OR ucast v"
definition set_hi32 :: "u32 \<Rightarrow> u64 \<Rightarrow> u64" where
  "set_hi32 v w = (w AND mask 32) OR push_bit 32 (ucast v)"

definition set_f :: "u32 \<Rightarrow> RsBlasScalar \<Rightarrow> RsBlasScalar" where "set_f v s = s\<lparr>sLo := set_lo32 v (sLo s)\<rparr>"
definition set_d :: "u64 \<Rightarrow> RsBlasScalar \<Rightarrow> RsBlasScalar" where "set_d v s = s\<lparr>sLo := v\<rparr>"
definition set_c_r :: "u32 \<Rightarrow> RsBlasScalar \<Rightarrow> RsBlasScalar" where "set_c_r v s = s\<lparr>sLo := set_lo32 v (sLo s)\<rparr>"
definition set_c_i :: "u32 \<Rightarrow> RsBlasScalar \<Rightarrow> RsBlasScalar" where "set_c_i v s = s\<lparr>sLo := set_hi32 v (sLo s)\<rparr>"
definition set_z_r :: "u64 \<Rightarrow> RsBlasScalar \<Rightarrow> RsBlasScalar" where "set_z_r v s = s\<lparr>sLo := v\<rparr>"
definition set_z_i :: "u64 \<Rightarrow> RsBlasScalar \<Rightarrow> RsBlasScalar" where "set_z_i v s = s\<lparr>sHi := v\<rparr>"

definition get_f :: "RsBlasScalar \<Rightarrow> u32" where "get_f s = ucast (sLo s)"
definition get_d :: "RsBlasScalar \<Rightarrow> u64" where "get_d s = sLo s"
definition get_c :: "RsBlasScalar \<Rightarrow> u32 \<times> u32" where "get_c s = (ucast (sLo s), ucast (drop_bit 32 (sLo s)))"
definition get_z :: "RsBlasScalar \<Rightarrow> u64 \<times> u64" where "get_z s = (sLo s, sHi s)"

record RsBlasCall =
  bFunc :: int
  bTransA :: int
  bTransB :: int
  bUplo :: int
  bDiag :: int
  bSide :: int
  bM :: int
  bN :: int
  bK :: int
  bAlpha :: RsBlasScalar
  bBeta :: RsBlasScalar
  bIncX :: int
  bIncY :: int
  bKL :: int
  bKU :: int
  bAOffset :: u8
  bBOffset :: u8
  bCOffset :: int
  bCMultInt :: int

definition zero_call :: RsBlasCall where
  "zero_call = \<lparr>bFunc = 0, bTransA = 0, bTransB = 0, bUplo = 0, bDiag = 0, bSide = 0, bM = 0, bN = 0, bK = 0,
     bAlpha = scalar_zero, bBeta = scalar_zero, bIncX = 0, bIncY = 0, bKL = 0, bKU = 0, bAOffset = 0,
     bBOffset = 0, bCOffset = 0, bCMultInt = 0\<rparr>"

definition setUpBLASCall :: "RsBlasDataType \<Rightarrow> int \<Rightarrow> int \<Rightarrow> int \<Rightarrow> int \<Rightarrow> int \<Rightarrow> int \<Rightarrow> int \<Rightarrow> int \<Rightarrow> int \<Rightarrow>
    int \<Rightarrow> int \<Rightarrow> int \<Rightarrow> int \<Rightarrow> u32 \<Rightarrow> u32 \<Rightarrow> u64 \<Rightarrow> u64 \<Rightarrow> u32 \<Rightarrow> u32 \<Rightarrow> u32 \<Rightarrow> u32 \<Rightarrow> u64 \<Rightarrow> u64 \<Rightarrow> u64 \<Rightarrow> u64 \<Rightarrow>
    RsBlasCall" where
  "setUpBLASCall dataType func TransA TransB Side Uplo Diag M N K incX incY KL KU alphaF betaF alphaD betaD
     alphaCX alphaCY betaCX betaCY alphaZX alphaZY betaZX betaZY =
     (let call = zero_call\<lparr>bFunc := func, bTransA := TransA, bTransB := TransB, bSide := Side, bUplo := Uplo,
            bDiag := Diag, bM := M, bN := N, bK := K\<rparr>;
          call = (case dataType of
              SINGLE \<Rightarrow> call\<lparr>bAlpha := set_f alphaF (bAlpha call), bBeta := set_f betaF (bBeta call)\<rparr>
            | DOUBLE \<Rightarrow> call\<lparr>bAlpha := set_d alphaD (bAlpha call), bBeta := set_d betaD (bBeta call)\<rparr>
            | SINGLE_COMPLEX \<Rightarrow> call\<lparr>bAlpha := set_c_i alphaCY (set_c_r alphaCX (bAlpha call)),
                bBeta := set_c_i betaCY (set_c_r betaCX (bBeta call))\<rparr>
            | DOUBLE_COMPLEX \<Rightarrow> call\<lparr>bAlpha := set_z_i alphaZY (set_z_r alphaZX (bAlpha call)),
                bBeta := set_z_i betaZY (set_z_r betaZX (bBeta call))\<rparr>)
      in call\<lparr>bIncX := incX, bIncY := incY, bKL := KL, bKU := KU\<rparr>)"

section \<open>Sending a command\<close>

text \<open>
  The client keeps its state in \<open>CRS\<close>; the commands \<^verbatim>\<open>ScriptForEachMulti\<close> it has sent, each with the
  handle of the script and of the three allocations (0 for none), are appended to \<open>mForEach\<close>.
\<close>

record BlasCmd =
  cScript :: nat
  cA :: nat
  cB :: nat
  cC :: nat
  cCall :: RsBlasCall

record BRS = CRS +
  mForEach :: "BlasCmd list"

definition tryDispatch :: "BRS \<Rightarrow> BlasCmd \<Rightarrow> BRS" where
  "tryDispatch rs cmd = (if getError rs = RS_SUCCESS then rs\<lparr>mForEach := mForEach rs @ [cmd]\<rparr> else rs)"

definition nScriptIntrinsicBLAS_Single :: "BRS \<Rightarrow> nat \<Rightarrow> int \<Rightarrow> int \<Rightarrow> int \<Rightarrow> int \<Rightarrow> int \<Rightarrow> int \<Rightarrow> int \<Rightarrow> int \<Rightarrow>
    int \<Rightarrow> u32 \<Rightarrow> nat \<Rightarrow> nat \<Rightarrow> u32 \<Rightarrow> nat \<Rightarrow> int \<Rightarrow> int \<Rightarrow> int \<Rightarrow> int \<Rightarrow> BRS" where
  "nScriptIntrinsicBLAS_Single rs self func TransA TransB Side Uplo Diag M N K alpha A B beta C incX incY KL KU =
     tryDispatch rs \<lparr>cScript = self, cA = A, cB = B, cC = C, cCall =
       setUpBLASCall SINGLE func TransA TransB Side Uplo Diag M N K incX incY KL KU alpha beta 0 0
         0 0 0 0 0 0 0 0\<rparr>"

definition nScriptIntrinsicBLAS_Double :: "BRS \<Rightarrow> nat \<Rightarrow> int \<Rightarrow> int \<Rightarrow> int \<Rightarrow> int \<Rightarrow> int \<Rightarrow> int \<Rightarrow> int \<Rightarrow> int \<Rightarrow>
    int \<Rightarrow> u64 \<Rightarrow> nat \<Rightarrow> nat \<Rightarrow> u64 \<Rightarrow> nat \<Rightarrow> int \<Rightarrow> int \<Rightarrow> int \<Rightarrow> int \<Rightarrow> BRS" where
  "nScriptIntrinsicBLAS_Double rs self func TransA TransB Side Uplo Diag M N K alpha A B beta C incX incY KL KU =
     tryDispatch rs \<lparr>cScript = self, cA = A, cB = B, cC = C, cCall =
       setUpBLASCall DOUBLE func TransA TransB Side Uplo Diag M N K incX incY KL KU 0 0 alpha beta
         0 0 0 0 0 0 0 0\<rparr>"

definition nScriptIntrinsicBLAS_Complex :: "BRS \<Rightarrow> nat \<Rightarrow> int \<Rightarrow> int \<Rightarrow> int \<Rightarrow> int \<Rightarrow> int \<Rightarrow> int \<Rightarrow> int \<Rightarrow> int \<Rightarrow>
    int \<Rightarrow> u32 \<Rightarrow> u32 \<Rightarrow> nat \<Rightarrow> nat \<Rightarrow> u32 \<Rightarrow> u32 \<Rightarrow> nat \<Rightarrow> int \<Rightarrow> int \<Rightarrow> int \<Rightarrow> int \<Rightarrow> BRS" where
  "nScriptIntrinsicBLAS_Complex rs self func TransA TransB Side Uplo Diag M N K alphaX alphaY A B betaX betaY C
       incX incY KL KU =
     tryDispatch rs \<lparr>cScript = self, cA = A, cB = B, cC = C, cCall =
       setUpBLASCall SINGLE_COMPLEX func TransA TransB Side Uplo Diag M N K incX incY KL KU 0 0 0 0
         alphaX alphaY betaX betaY 0 0 0 0\<rparr>"

definition nScriptIntrinsicBLAS_Z :: "BRS \<Rightarrow> nat \<Rightarrow> int \<Rightarrow> int \<Rightarrow> int \<Rightarrow> int \<Rightarrow> int \<Rightarrow> int \<Rightarrow> int \<Rightarrow> int \<Rightarrow>
    int \<Rightarrow> u64 \<Rightarrow> u64 \<Rightarrow> nat \<Rightarrow> nat \<Rightarrow> u64 \<Rightarrow> u64 \<Rightarrow> nat \<Rightarrow> int \<Rightarrow> int \<Rightarrow> int \<Rightarrow> int \<Rightarrow> BRS" where
  "nScriptIntrinsicBLAS_Z rs self func TransA TransB Side Uplo Diag M N K alphaX alphaY A B betaX betaY C
       incX incY KL KU =
     tryDispatch rs \<lparr>cScript = self, cA = A, cB = B, cC = C, cCall =
       setUpBLASCall DOUBLE_COMPLEX func TransA TransB Side Uplo Diag M N K incX incY KL KU 0 0 0 0
         0 0 0 0 alphaX alphaY betaX betaY\<rparr>"

text \<open>\<^verbatim>\<open>a_offset & 0xFF\<close> stored in a byte keeps the low eight bits.\<close>

definition nScriptIntrinsicBLAS_BNNM :: "BRS \<Rightarrow> nat \<Rightarrow> int \<Rightarrow> int \<Rightarrow> int \<Rightarrow> nat \<Rightarrow> int \<Rightarrow> nat \<Rightarrow> int \<Rightarrow> nat \<Rightarrow>
    int \<Rightarrow> int \<Rightarrow> BRS" where
  "nScriptIntrinsicBLAS_BNNM rs self M N K A a_offset B b_offset C c_offset c_mult_int =
     tryDispatch rs \<lparr>cScript = self, cA = A, cB = B, cC = C, cCall =
       zero_call\<lparr>bFunc := RsBlas_bnnm, bM := M, bN := N, bK := K, bAOffset := word_of_int a_offset,
         bBOffset := word_of_int b_offset, bCOffset := c_offset, bCMultInt := c_mult_int\<rparr>\<rparr>"

lemma setUpBLASCall_sel [simp]:
  "bFunc (setUpBLASCall dt f ta tb si up di m n k ix iy kl ku s1 s2 s3 s4 s5 s6 s7 s8 s9 s10 s11 s12) = f"
  "bTransA (setUpBLASCall dt f ta tb si up di m n k ix iy kl ku s1 s2 s3 s4 s5 s6 s7 s8 s9 s10 s11 s12) = ta"
  "bTransB (setUpBLASCall dt f ta tb si up di m n k ix iy kl ku s1 s2 s3 s4 s5 s6 s7 s8 s9 s10 s11 s12) = tb"
  "bSide (setUpBLASCall dt f ta tb si up di m n k ix iy kl ku s1 s2 s3 s4 s5 s6 s7 s8 s9 s10 s11 s12) = si"
  "bUplo (setUpBLASCall dt f ta tb si up di m n k ix iy kl ku s1 s2 s3 s4 s5 s6 s7 s8 s9 s10 s11 s12) = up"
  "bDiag (setUpBLASCall dt f ta tb si up di m n k ix iy kl ku s1 s2 s3 s4 s5 s6 s7 s8 s9 s10 s11 s12) = di"
  "bM (setUpBLASCall dt f ta tb si up di m n k ix iy kl ku s1 s2 s3 s4 s5 s6 s7 s8 s9 s10 s11 s12) = m"
  "bN (setUpBLASCall dt f ta tb si up di m n k ix iy kl ku s1 s2 s3 s4 s5 s6 s7 s8 s9 s10 s11 s12) = n"
  "bK (setUpBLASCall dt f ta tb si up di m n k ix iy kl ku s1 s2 s3 s4 s5 s6 s7 s8 s9 s10 s11 s12) = k"
  "bIncX (setUpBLASCall dt f ta tb si up di m n k ix iy kl ku s1 s2 s3 s4 s5 s6 s7 s8 s9 s10 s11 s12) = ix"
  "bIncY (setUpBLASCall dt f ta tb si up di m n k ix iy kl ku s1 s2 s3 s4 s5 s6 s7 s8 s9 s10 s11 s12) = iy"
  "bKL (setUpBLASCall dt f ta tb si up di m n k ix iy kl ku s1 s2 s3 s4 s5 s6 s7 s8 s9 s10 s11 s12) = kl"
  "bKU (setUpBLASCall dt f ta tb si up di m n k ix iy kl ku s1 s2 s3 s4 s5 s6 s7 s8 s9 s10 s11 s12) = ku"
  by (cases dt; simp add: setUpBLASCall_def Let_def)+

lemma set_lo32_zero: "set_lo32 v 0 = ucast v"
  by (simp add: set_lo32_def)

lemma set_hi32_ucast: "set_hi32 v (ucast (w :: u32)) = ucast w OR push_bit 32 (ucast v)"
proof -
  have "(ucast w :: u64) AND mask 32 = ucast w"
    by (intro bit_word_eqI) (auto simp: bit_simps dest: bit_imp_le_length)
  then show ?thesis
    by (simp add: set_hi32_def)
qed

lemma halves:
  fixes a b :: u32
  shows "ucast ((ucast a :: u64) OR push_bit 32 (ucast b)) = a"
    and "ucast (drop_bit 32 ((ucast a :: u64) OR push_bit 32 (ucast b))) = b"
    and "ucast (ucast a :: u64) = a"
  by (intro bit_word_eqI; auto simp: bit_simps dest: bit_imp_le_length)+

text \<open>What is written through one member of the union is read back through it.\<close>

lemma setUpBLASCall_scalars:
  "get_f (bAlpha (setUpBLASCall SINGLE f ta tb si up di m n k ix iy kl ku a b s3 s4 s5 s6 s7 s8 s9 s10 s11 s12)) = a"
  "get_f (bBeta (setUpBLASCall SINGLE f ta tb si up di m n k ix iy kl ku a b s3 s4 s5 s6 s7 s8 s9 s10 s11 s12)) = b"
  "get_d (bAlpha (setUpBLASCall DOUBLE f ta tb si up di m n k ix iy kl ku s1 s2 c d s5 s6 s7 s8 s9 s10 s11 s12)) = c"
  "get_d (bBeta (setUpBLASCall DOUBLE f ta tb si up di m n k ix iy kl ku s1 s2 c d s5 s6 s7 s8 s9 s10 s11 s12)) = d"
  "get_c (bAlpha (setUpBLASCall SINGLE_COMPLEX f ta tb si up di m n k ix iy kl ku s1 s2 s3 s4 ax ay bx by' s9 s10 s11 s12)) = (ax, ay)"
  "get_c (bBeta (setUpBLASCall SINGLE_COMPLEX f ta tb si up di m n k ix iy kl ku s1 s2 s3 s4 ax ay bx by' s9 s10 s11 s12)) = (bx, by')"
  "get_z (bAlpha (setUpBLASCall DOUBLE_COMPLEX f ta tb si up di m n k ix iy kl ku s1 s2 s3 s4 s5 s6 s7 s8 zx zy wx wy)) = (zx, zy)"
  "get_z (bBeta (setUpBLASCall DOUBLE_COMPLEX f ta tb si up di m n k ix iy kl ku s1 s2 s3 s4 s5 s6 s7 s8 zx zy wx wy)) = (wx, wy)"
  by (simp_all add: setUpBLASCall_def Let_def zero_call_def scalar_zero_def set_f_def set_d_def set_c_r_def
      set_c_i_def set_z_r_def set_z_i_def get_f_def get_d_def get_c_def get_z_def set_lo32_zero set_hi32_ucast
      halves del: drop_bit_or)

lemma tryDispatch_log:
  "mForEach (tryDispatch rs cmd) = mForEach rs @ (if mCurrentError rs = RS_SUCCESS then [cmd] else [])"
  "mCurrentError (tryDispatch rs cmd) = mCurrentError rs"
  "mElems (tryDispatch rs cmd) = mElems rs" "mNextThis (tryDispatch rs cmd) = mNextThis rs"
  by (simp_all add: tryDispatch_def getError_def)

end
