(* ===== verification/Blas_Validate.thy ===== *)
theory Blas_Validate
  imports Blas_Call
begin

text \<open>
  The argument checks of \<^verbatim>\<open>cpp/ScriptIntrinsicBLAS.cpp\<close>. A check that fails records an error with
  \<open>throwError\<close> and goes on; the first error stays and keeps the command from being sent. For each
  check the theory has the condition on the arguments under which no error is recorded.
\<close>

section \<open>Allocations on the client\<close>

record CAllocation =
  caID :: nat
  caType :: CType

text \<open>
  A pointer to an allocation may be null; reading through a null pointer is undefined. \<open>dimX\<close> and
  \<open>dimY\<close> are the dimensions converted to \<^verbatim>\<open>int\<close>, \<open>udimX\<close> and \<open>udimY\<close> the unsigned ones.
\<close>

definition dimX :: "CAllocation option \<Rightarrow> int option" where
  "dimX A = map_option (\<lambda>a. sint (ctDimX (caType a))) A"
definition dimY :: "CAllocation option \<Rightarrow> int option" where
  "dimY A = map_option (\<lambda>a. sint (ctDimY (caType a))) A"
definition udimX :: "CAllocation option \<Rightarrow> u32 option" where
  "udimX A = map_option (\<lambda>a. ctDimX (caType a)) A"
definition udimY :: "CAllocation option \<Rightarrow> u32 option" where
  "udimY A = map_option (\<lambda>a. ctDimY (caType a)) A"
definition getID :: "CAllocation option \<Rightarrow> nat option" where
  "getID A = map_option caID A"

definition incompatible :: "CAllocation option \<Rightarrow> CElement \<Rightarrow> bool option" where
  "incompatible A e = map_option (\<lambda>a. \<not> isCompatible (ctElement (caType a)) e) A"

lemma alloc_simps [simp]:
  "dimX (Some a) = Some (sint (ctDimX (caType a)))" "dimX None = None"
  "dimY (Some a) = Some (sint (ctDimY (caType a)))" "dimY None = None"
  "udimX (Some a) = Some (ctDimX (caType a))" "udimX None = None"
  "udimY (Some a) = Some (ctDimY (caType a))" "udimY None = None"
  "getID (Some a) = Some (caID a)" "getID None = None"
  "incompatible (Some a) e = Some (\<not> isCompatible (ctElement (caType a)) e)" "incompatible None e = None"
  by (simp_all add: dimX_def dimY_def udimX_def udimY_def getID_def incompatible_def)

definition throw_if :: "bool \<Rightarrow> BRS \<Rightarrow> RSError \<Rightarrow> BRS" where
  "throw_if b rs error = (if b then throwError rs error else rs)"

definition vector_2d :: "CAllocation option \<Rightarrow> bool option" where
  "vector_2d X = map_option (\<lambda>y. y > 1) (udimY X)"

definition differ :: "int option \<Rightarrow> int \<Rightarrow> bool option" where
  "differ d n = map_option (\<lambda>d. d \<noteq> n) d"

text \<open>\<^verbatim>\<open>1 + (N - 1) * inc\<close>, the length of a strided vector of \<open>N\<close> cells.\<close>

definition expectedDim :: "int \<Rightarrow> int \<Rightarrow> int option" where
  "expectedDim n inc = do { m \<leftarrow> int_sub n 1; p \<leftarrow> int_mul m inc; int_add 1 p }"

text \<open>
  \<^verbatim>\<open>int N = sqrt((double)x * 2)\<close>: the operand is an integer below \<open>2 ^ 53\<close>, so the square root,
  rounded to a \<^verbatim>\<open>double\<close> and truncated, is the integer square root.
\<close>

function isqrt :: "nat \<Rightarrow> nat" where
  "isqrt n = (if n = 0 then 0 else
     let r = 2 * isqrt (n div 4) in if (r + 1) * (r + 1) \<le> n then r + 1 else r)"
  by pat_completeness auto
termination
  by (relation "measure id") auto

declare isqrt.simps [simp del]

definition packed_rows :: "CAllocation option \<Rightarrow> int option" where
  "packed_rows Ap = map_option (\<lambda>x. int (isqrt (unat x * 2))) (udimX Ap)"

definition packed_bad :: "CAllocation option \<Rightarrow> int \<Rightarrow> bool option" where
  "packed_bad Ap N = do { x \<leftarrow> dimX Ap; m \<leftarrow> int_add N 1; p \<leftarrow> int_mul N m; Some (x \<noteq> p div 2) }"

section \<open>Level 2\<close>

definition validateGEMV :: "BRS \<Rightarrow> CElement \<Rightarrow> RsBlasTranspose \<Rightarrow> CAllocation option \<Rightarrow> CAllocation option \<Rightarrow> int \<Rightarrow>
    CAllocation option \<Rightarrow> int \<Rightarrow> BRS option" where
  "validateGEMV rs e TransA A X incX Y incY = do {
     M \<leftarrow> dimY A;
     N \<leftarrow> dimX A;
     b \<leftarrow> lor (incompatible A e) (lor (incompatible X e) (incompatible Y e));
     let rs = throw_if b rs RS_ERROR_INVALID_ELEMENT;
     b \<leftarrow> lor (vector_2d X) (vector_2d Y);
     let rs = throw_if b rs RS_ERROR_INVALID_PARAMETER;
     let rs = throw_if (incX \<le> 0 \<or> incY \<le> 0) rs RS_ERROR_INVALID_PARAMETER;
     expectedXDim \<leftarrow> expectedDim (if TransA = RsBlasNoTrans then N else M) incX;
     expectedYDim \<leftarrow> expectedDim (if TransA = RsBlasNoTrans then M else N) incY;
     b \<leftarrow> lor (differ (dimX X) expectedXDim) (differ (dimX Y) expectedYDim);
     Some (throw_if b rs RS_ERROR_INVALID_PARAMETER) }"

definition validateTRMV :: "BRS \<Rightarrow> CElement \<Rightarrow> RsBlasUplo \<Rightarrow> RsBlasTranspose \<Rightarrow> RsBlasDiag \<Rightarrow> CAllocation option \<Rightarrow>
    CAllocation option \<Rightarrow> int \<Rightarrow> BRS option" where
  "validateTRMV rs e Uplo TransA Diag A X incX = do {
     N \<leftarrow> dimY A;
     b \<leftarrow> differ (dimX A) N;
     let rs = throw_if b rs RS_ERROR_INVALID_PARAMETER;
     b \<leftarrow> lor (incompatible A e) (incompatible X e);
     let rs = throw_if b rs RS_ERROR_INVALID_ELEMENT;
     b \<leftarrow> vector_2d X;
     let rs = throw_if b rs RS_ERROR_INVALID_PARAMETER;
     let rs = throw_if (incX \<le> 0) rs RS_ERROR_INVALID_PARAMETER;
     expectedXDim \<leftarrow> expectedDim N incX;
     b \<leftarrow> differ (dimX X) expectedXDim;
     Some (throw_if b rs RS_ERROR_INVALID_PARAMETER) }"

definition validateTPMV :: "BRS \<Rightarrow> CElement \<Rightarrow> RsBlasUplo \<Rightarrow> RsBlasTranspose \<Rightarrow> RsBlasDiag \<Rightarrow> CAllocation option \<Rightarrow>
    CAllocation option \<Rightarrow> int \<Rightarrow> (BRS \<times> int) option" where
  "validateTPMV rs e Uplo TransA Diag Ap X incX = do {
     b \<leftarrow> lor (incompatible Ap e) (incompatible X e);
     let rs = throw_if b rs RS_ERROR_INVALID_ELEMENT;
     b \<leftarrow> vector_2d X;
     let rs = throw_if b rs RS_ERROR_INVALID_PARAMETER;
     b \<leftarrow> vector_2d Ap;
     let rs = throw_if b rs RS_ERROR_INVALID_PARAMETER;
     N \<leftarrow> packed_rows Ap;
     b \<leftarrow> packed_bad Ap N;
     let rs = throw_if b rs RS_ERROR_INVALID_PARAMETER;
     let rs = throw_if (incX \<le> 0) rs RS_ERROR_INVALID_PARAMETER;
     expectedXDim \<leftarrow> expectedDim N incX;
     b \<leftarrow> differ (dimX X) expectedXDim;
     Some (throw_if b rs RS_ERROR_INVALID_PARAMETER, N) }"

definition validateSYMV :: "BRS \<Rightarrow> CElement \<Rightarrow> RsBlasUplo \<Rightarrow> CAllocation option \<Rightarrow> CAllocation option \<Rightarrow>
    CAllocation option \<Rightarrow> int \<Rightarrow> int \<Rightarrow> (BRS \<times> int) option" where
  "validateSYMV rs e Uplo A X Y incX incY = do {
     N \<leftarrow> dimY A;
     b \<leftarrow> differ (dimX A) N;
     let rs = throw_if b rs RS_ERROR_INVALID_PARAMETER;
     b \<leftarrow> lor (incompatible A e) (lor (incompatible X e) (incompatible Y e));
     let rs = throw_if b rs RS_ERROR_INVALID_ELEMENT;
     b \<leftarrow> lor (vector_2d X) (vector_2d Y);
     let rs = throw_if b rs RS_ERROR_INVALID_PARAMETER;
     let rs = throw_if (incX \<le> 0 \<or> incY \<le> 0) rs RS_ERROR_INVALID_PARAMETER;
     expectedXDim \<leftarrow> expectedDim N incX;
     b \<leftarrow> differ (dimX X) expectedXDim;
     let rs = throw_if b rs RS_ERROR_INVALID_PARAMETER;
     expectedYDim \<leftarrow> expectedDim N incY;
     b \<leftarrow> differ (dimX Y) expectedYDim;
     Some (throw_if b rs RS_ERROR_INVALID_PARAMETER, N) }"

definition validateSPMV :: "BRS \<Rightarrow> CElement \<Rightarrow> RsBlasUplo \<Rightarrow> CAllocation option \<Rightarrow> CAllocation option \<Rightarrow> int \<Rightarrow>
    CAllocation option \<Rightarrow> int \<Rightarrow> (BRS \<times> int) option" where
  "validateSPMV rs e Uplo Ap X incX Y incY = do {
     b \<leftarrow> lor (incompatible Ap e) (lor (incompatible X e) (incompatible Y e));
     let rs = throw_if b rs RS_ERROR_INVALID_ELEMENT;
     b \<leftarrow> lor (vector_2d X) (vector_2d Y);
     let rs = throw_if b rs RS_ERROR_INVALID_PARAMETER;
     b \<leftarrow> vector_2d Ap;
     let rs = throw_if b rs RS_ERROR_INVALID_PARAMETER;
     N \<leftarrow> packed_rows Ap;
     b \<leftarrow> packed_bad Ap N;
     let rs = throw_if b rs RS_ERROR_INVALID_PARAMETER;
     let rs = throw_if (incX \<le> 0 \<or> incY \<le> 0) rs RS_ERROR_INVALID_PARAMETER;
     expectedXDim \<leftarrow> expectedDim N incX;
     b \<leftarrow> differ (dimX X) expectedXDim;
     let rs = throw_if b rs RS_ERROR_INVALID_PARAMETER;
     expectedYDim \<leftarrow> expectedDim N incY;
     b \<leftarrow> differ (dimX Y) expectedYDim;
     Some (throw_if b rs RS_ERROR_INVALID_PARAMETER, N) }"

definition validateGER :: "BRS \<Rightarrow> CElement \<Rightarrow> CAllocation option \<Rightarrow> int \<Rightarrow> CAllocation option \<Rightarrow> int \<Rightarrow>
    CAllocation option \<Rightarrow> BRS option" where
  "validateGER rs e X incX Y incY A = do {
     b \<leftarrow> lor (incompatible A e) (lor (incompatible X e) (incompatible Y e));
     let rs = throw_if b rs RS_ERROR_INVALID_ELEMENT;
     b \<leftarrow> lor (vector_2d X) (vector_2d Y);
     let rs = throw_if b rs RS_ERROR_INVALID_PARAMETER;
     M \<leftarrow> dimY A;
     N \<leftarrow> dimX A;
     let rs = throw_if (N < 1 \<or> M < 1) rs RS_ERROR_INVALID_PARAMETER;
     let rs = throw_if (incX \<le> 0 \<or> incY \<le> 0) rs RS_ERROR_INVALID_PARAMETER;
     expectedXDim \<leftarrow> expectedDim M incX;
     b \<leftarrow> differ (dimX X) expectedXDim;
     let rs = throw_if b rs RS_ERROR_INVALID_PARAMETER;
     expectedYDim \<leftarrow> expectedDim N incY;
     b \<leftarrow> differ (dimX Y) expectedYDim;
     Some (throw_if b rs RS_ERROR_INVALID_PARAMETER) }"

definition validateSYR :: "BRS \<Rightarrow> CElement \<Rightarrow> RsBlasUplo \<Rightarrow> CAllocation option \<Rightarrow> int \<Rightarrow> CAllocation option \<Rightarrow>
    (BRS \<times> int) option" where
  "validateSYR rs e Uplo X incX A = do {
     b \<leftarrow> lor (incompatible A e) (incompatible X e);
     let rs = throw_if b rs RS_ERROR_INVALID_ELEMENT;
     N \<leftarrow> dimX A;
     b \<leftarrow> vector_2d X;
     let rs = throw_if b rs RS_ERROR_INVALID_PARAMETER;
     b \<leftarrow> differ (dimY A) N;
     let rs = throw_if b rs RS_ERROR_INVALID_PARAMETER;
     let rs = throw_if (incX \<le> 0) rs RS_ERROR_INVALID_PARAMETER;
     expectedXDim \<leftarrow> expectedDim N incX;
     b \<leftarrow> differ (dimX X) expectedXDim;
     Some (throw_if b rs RS_ERROR_INVALID_PARAMETER, N) }"

definition validateSPR :: "BRS \<Rightarrow> CElement \<Rightarrow> RsBlasUplo \<Rightarrow> CAllocation option \<Rightarrow> int \<Rightarrow> CAllocation option \<Rightarrow>
    (BRS \<times> int) option" where
  "validateSPR rs e Uplo X incX Ap = do {
     b \<leftarrow> lor (incompatible Ap e) (incompatible X e);
     let rs = throw_if b rs RS_ERROR_INVALID_ELEMENT;
     b \<leftarrow> vector_2d X;
     let rs = throw_if b rs RS_ERROR_INVALID_PARAMETER;
     b \<leftarrow> vector_2d Ap;
     let rs = throw_if b rs RS_ERROR_INVALID_PARAMETER;
     N \<leftarrow> packed_rows Ap;
     b \<leftarrow> packed_bad Ap N;
     let rs = throw_if b rs RS_ERROR_INVALID_PARAMETER;
     let rs = throw_if (incX \<le> 0) rs RS_ERROR_INVALID_PARAMETER;
     expectedXDim \<leftarrow> expectedDim N incX;
     b \<leftarrow> differ (dimX X) expectedXDim;
     Some (throw_if b rs RS_ERROR_INVALID_PARAMETER, N) }"

definition validateSYR2 :: "BRS \<Rightarrow> CElement \<Rightarrow> RsBlasUplo \<Rightarrow> CAllocation option \<Rightarrow> int \<Rightarrow> CAllocation option \<Rightarrow> int \<Rightarrow>
    CAllocation option \<Rightarrow> (BRS \<times> int) option" where
  "validateSYR2 rs e Uplo X incX Y incY A = do {
     b \<leftarrow> lor (incompatible A e) (lor (incompatible X e) (incompatible Y e));
     let rs = throw_if b rs RS_ERROR_INVALID_ELEMENT;
     b \<leftarrow> lor (vector_2d X) (vector_2d Y);
     let rs = throw_if b rs RS_ERROR_INVALID_PARAMETER;
     N \<leftarrow> dimX A;
     b \<leftarrow> differ (dimY A) N;
     let rs = throw_if b rs RS_ERROR_INVALID_PARAMETER;
     let rs = throw_if (incX \<le> 0 \<or> incY \<le> 0) rs RS_ERROR_INVALID_PARAMETER;
     expectedXDim \<leftarrow> expectedDim N incX;
     expectedYDim \<leftarrow> expectedDim N incY;
     b \<leftarrow> lor (differ (dimX X) expectedXDim) (differ (dimX Y) expectedYDim);
     Some (throw_if b rs RS_ERROR_INVALID_PARAMETER, N) }"

definition validateSPR2 :: "BRS \<Rightarrow> CElement \<Rightarrow> RsBlasUplo \<Rightarrow> CAllocation option \<Rightarrow> int \<Rightarrow> CAllocation option \<Rightarrow> int \<Rightarrow>
    CAllocation option \<Rightarrow> (BRS \<times> int) option" where
  "validateSPR2 rs e Uplo X incX Y incY Ap = do {
     b \<leftarrow> lor (incompatible Ap e) (lor (incompatible X e) (incompatible Y e));
     let rs = throw_if b rs RS_ERROR_INVALID_ELEMENT;
     b \<leftarrow> lor (vector_2d X) (vector_2d Y);
     let rs = throw_if b rs RS_ERROR_INVALID_PARAMETER;
     b \<leftarrow> vector_2d Ap;
     let rs = throw_if b rs RS_ERROR_INVALID_PARAMETER;
     N \<leftarrow> packed_rows Ap;
     b \<leftarrow> packed_bad Ap N;
     let rs = throw_if b rs RS_ERROR_INVALID_PARAMETER;
     let rs = throw_if (incX \<le> 0 \<or> incY \<le> 0) rs RS_ERROR_INVALID_PARAMETER;
     expectedXDim \<leftarrow> expectedDim N incX;
     expectedYDim \<leftarrow> expectedDim N incY;
     b \<leftarrow> lor (differ (dimX X) expectedXDim) (differ (dimX Y) expectedYDim);
     Some (throw_if b rs RS_ERROR_INVALID_PARAMETER, N) }"

definition validateGERU :: "BRS \<Rightarrow> CElement \<Rightarrow> CAllocation option \<Rightarrow> int \<Rightarrow> CAllocation option \<Rightarrow> int \<Rightarrow>
    CAllocation option \<Rightarrow> BRS option" where
  "validateGERU rs e X incX Y incY A = do {
     b \<leftarrow> lor (incompatible A e) (lor (incompatible X e) (incompatible Y e));
     let rs = throw_if b rs RS_ERROR_INVALID_ELEMENT;
     b \<leftarrow> lor (vector_2d X) (vector_2d Y);
     let rs = throw_if b rs RS_ERROR_INVALID_PARAMETER;
     M \<leftarrow> dimY A;
     N \<leftarrow> dimX A;
     let rs = throw_if (incX \<le> 0 \<or> incY \<le> 0) rs RS_ERROR_INVALID_PARAMETER;
     expectedXDim \<leftarrow> expectedDim M incX;
     b \<leftarrow> differ (dimX X) expectedXDim;
     let rs = throw_if b rs RS_ERROR_INVALID_PARAMETER;
     expectedYDim \<leftarrow> expectedDim N incY;
     b \<leftarrow> differ (dimX Y) expectedYDim;
     Some (throw_if b rs RS_ERROR_INVALID_PARAMETER) }"

section \<open>Level 3\<close>

text \<open>\<^verbatim>\<open>A != nullptr && !isCompatible\<close>, as \<open>validateL3\<close> tests it.\<close>

definition present_wrong :: "CAllocation option \<Rightarrow> CElement \<Rightarrow> bool" where
  "present_wrong A e = (case A of None \<Rightarrow> False | Some a \<Rightarrow> \<not> isCompatible (ctElement (caType a)) e)"

definition l3_right :: "CAllocation option \<Rightarrow> CAllocation option \<Rightarrow> (int \<times> int \<times> int \<times> int) option" where
  "l3_right A B = do {
     (bM, bN) \<leftarrow> (if B \<noteq> None then do { m \<leftarrow> dimY A; n \<leftarrow> dimX A; Some (m, n) } else Some (- 1, - 1));
     (aM, aN) \<leftarrow> (if A \<noteq> None then do { m \<leftarrow> dimY B; n \<leftarrow> dimX B; Some (m, n) } else Some (- 1, - 1));
     Some (aM, aN, bM, bN) }"

definition l3_operand :: "CAllocation option \<Rightarrow> int \<Rightarrow> int \<times> int" where
  "l3_operand A Trans = (case A of None \<Rightarrow> (- 1, - 1)
     | Some a \<Rightarrow>
        if Trans = trans_val RsBlasTrans \<or> Trans = trans_val RsBlasConjTrans
        then (sint (ctDimX (caType a)), sint (ctDimY (caType a)))
        else (sint (ctDimY (caType a)), sint (ctDimX (caType a))))"

definition validateL3 :: "BRS \<Rightarrow> CElement \<Rightarrow> int \<Rightarrow> int \<Rightarrow> int \<Rightarrow> CAllocation option \<Rightarrow> CAllocation option \<Rightarrow>
    CAllocation option \<Rightarrow> BRS option" where
  "validateL3 rs e TransA TransB Side A B C = do {
     let rs = throw_if (present_wrong A e \<or> present_wrong B e \<or> present_wrong C e) rs RS_ERROR_INVALID_ELEMENT;
     let rs = throw_if (C = None) rs RS_ERROR_INVALID_PARAMETER;
     cM \<leftarrow> dimY C;
     cN \<leftarrow> dimX C;
     let rs = throw_if (Side = side_val RsBlasRight \<and> (A = None \<and> B \<noteq> None \<or> A \<noteq> None \<and> B = None)) rs
       RS_ERROR_INVALID_PARAMETER;
     (aM, aN, bM, bN) \<leftarrow> (if Side = side_val RsBlasRight then l3_right A B
       else (let (aM, aN) = l3_operand A TransA; (bM, bN) = l3_operand B TransB in Some (aM, aN, bM, bN)));
     Some (if A \<noteq> None \<and> B \<noteq> None \<and> C \<noteq> None then
         throw_if (aN \<noteq> bM \<or> aM \<noteq> cM \<or> bN \<noteq> cN) rs RS_ERROR_INVALID_PARAMETER
       else if A \<noteq> None \<and> C \<noteq> None then
         throw_if (aM \<noteq> cM) (throw_if (cM \<noteq> cN) rs RS_ERROR_INVALID_PARAMETER) RS_ERROR_INVALID_PARAMETER
       else if A \<noteq> None \<and> B \<noteq> None then throw_if (aN \<noteq> bM) rs RS_ERROR_INVALID_PARAMETER
       else rs) }"

definition validateSYR2K :: "BRS \<Rightarrow> CElement \<Rightarrow> RsBlasTranspose \<Rightarrow> CAllocation option \<Rightarrow> CAllocation option \<Rightarrow>
    CAllocation option \<Rightarrow> BRS option" where
  "validateSYR2K rs e Trans A B C = do {
     b \<leftarrow> lor (incompatible A e) (lor (incompatible B e) (incompatible C e));
     let rs = throw_if b rs RS_ERROR_INVALID_ELEMENT;
     Cdim \<leftarrow> (if Trans = RsBlasTrans then dimX A else dimY A);
     b \<leftarrow> lor (differ (dimX C) Cdim) (differ (dimY C) Cdim);
     let rs = throw_if b rs RS_ERROR_INVALID_PARAMETER;
     aX \<leftarrow> dimX A;
     aY \<leftarrow> dimY A;
     b \<leftarrow> lor (differ (dimX B) aX) (differ (dimY B) aY);
     Some (throw_if b rs RS_ERROR_INVALID_PARAMETER) }"

definition validateTRMM :: "BRS \<Rightarrow> CElement \<Rightarrow> RsBlasSide \<Rightarrow> RsBlasTranspose \<Rightarrow> CAllocation option \<Rightarrow>
    CAllocation option \<Rightarrow> BRS option" where
  "validateTRMM rs e Side TransA A B = do {
     b \<leftarrow> lor (incompatible A e) (incompatible B e);
     let rs = throw_if b rs RS_ERROR_INVALID_ELEMENT;
     aM \<leftarrow> dimY A;
     aN \<leftarrow> dimX A;
     let rs = throw_if (aM \<noteq> aN) rs RS_ERROR_INVALID_PARAMETER;
     bM \<leftarrow> dimY B;
     bN \<leftarrow> dimX B;
     Some (if Side = RsBlasLeft then throw_if (aN \<noteq> bM) rs RS_ERROR_INVALID_PARAMETER
       else throw_if (bN \<noteq> aM) rs RS_ERROR_INVALID_PARAMETER) }"

definition validateTRSM :: "BRS \<Rightarrow> CElement \<Rightarrow> RsBlasSide \<Rightarrow> RsBlasTranspose \<Rightarrow> CAllocation option \<Rightarrow>
    CAllocation option \<Rightarrow> BRS option" where
  "validateTRSM rs e Side TransA A B = do {
     b \<leftarrow> lor (incompatible A e) (incompatible B e);
     let rs = throw_if b rs RS_ERROR_INVALID_ELEMENT;
     adim \<leftarrow> dimX A;
     b \<leftarrow> differ (dimY A) adim;
     let rs = throw_if b rs RS_ERROR_INVALID_PARAMETER;
     bM \<leftarrow> dimY B;
     bN \<leftarrow> dimX B;
     Some (if Side = RsBlasLeft then throw_if (adim \<noteq> bM) rs RS_ERROR_INVALID_PARAMETER
       else throw_if (adim \<noteq> bN) rs RS_ERROR_INVALID_PARAMETER) }"

definition validateHEMM :: "BRS \<Rightarrow> CElement \<Rightarrow> RsBlasSide \<Rightarrow> CAllocation option \<Rightarrow> CAllocation option \<Rightarrow>
    CAllocation option \<Rightarrow> BRS option" where
  "validateHEMM rs e Side A B C = do {
     b \<leftarrow> lor (incompatible A e) (lor (incompatible B e) (incompatible C e));
     let rs = throw_if b rs RS_ERROR_INVALID_ELEMENT;
     adim \<leftarrow> dimX A;
     b \<leftarrow> differ (dimY A) adim;
     let rs = throw_if b rs RS_ERROR_INVALID_PARAMETER;
     b \<leftarrow> (case Side of RsBlasLeft \<Rightarrow> differ (dimY B) adim | RsBlasRight \<Rightarrow> differ (dimX B) adim);
     let rs = throw_if b rs RS_ERROR_INVALID_PARAMETER;
     bX \<leftarrow> dimX B;
     bY \<leftarrow> dimY B;
     b \<leftarrow> lor (differ (dimX C) bX) (differ (dimY C) bY);
     Some (throw_if b rs RS_ERROR_INVALID_PARAMETER) }"

definition validateHERK :: "BRS \<Rightarrow> CElement \<Rightarrow> RsBlasTranspose \<Rightarrow> CAllocation option \<Rightarrow> CAllocation option \<Rightarrow>
    BRS option" where
  "validateHERK rs e Trans A C = do {
     b \<leftarrow> lor (incompatible A e) (incompatible C e);
     let rs = throw_if b rs RS_ERROR_INVALID_ELEMENT;
     let rs = throw_if (Trans \<noteq> RsBlasNoTrans \<and> Trans \<noteq> RsBlasConjTrans) rs RS_ERROR_INVALID_PARAMETER;
     cdim \<leftarrow> dimX C;
     b \<leftarrow> differ (dimY C) cdim;
     let rs = throw_if b rs RS_ERROR_INVALID_PARAMETER;
     b \<leftarrow> differ (if Trans = RsBlasNoTrans then dimY A else dimX A) cdim;
     Some (throw_if b rs RS_ERROR_INVALID_PARAMETER) }"

definition validateHER2K :: "BRS \<Rightarrow> CElement \<Rightarrow> RsBlasTranspose \<Rightarrow> CAllocation option \<Rightarrow> CAllocation option \<Rightarrow>
    CAllocation option \<Rightarrow> BRS option" where
  "validateHER2K rs e Trans A B C = do {
     b \<leftarrow> lor (incompatible A e) (lor (incompatible B e) (incompatible C e));
     let rs = throw_if b rs RS_ERROR_INVALID_ELEMENT;
     let rs = throw_if (Trans \<noteq> RsBlasNoTrans \<and> Trans \<noteq> RsBlasConjTrans) rs RS_ERROR_INVALID_PARAMETER;
     cdim \<leftarrow> dimX C;
     b \<leftarrow> differ (dimY C) cdim;
     let rs = throw_if b rs RS_ERROR_INVALID_PARAMETER;
     b \<leftarrow> differ (if Trans = RsBlasNoTrans then dimY A else dimX A) cdim;
     let rs = throw_if b rs RS_ERROR_INVALID_PARAMETER;
     aX \<leftarrow> dimX A;
     aY \<leftarrow> dimY A;
     b \<leftarrow> lor (differ (dimX B) aX) (differ (dimY B) aY);
     Some (throw_if b rs RS_ERROR_INVALID_PARAMETER) }"

section \<open>What a passed check guarantees\<close>

lemma lor_Some [simp]: "lor (Some b) (Some c) = Some (b \<or> c)"
  by (cases b) simp_all

lemma lor_None_right [simp]: "lor (Some b) None = Some c \<longleftrightarrow> b \<and> c"
  by (cases b) auto

lemma expectedDim_eq: "expectedDim n inc = Some d \<Longrightarrow> d = 1 + (n - 1) * inc"
  by (auto simp: expectedDim_def int_add_def int_sub_def int_mul_def int_val_def)

lemma packed_bad_eq: "packed_bad (Some a) n = Some b \<Longrightarrow> b \<longleftrightarrow> sint (ctDimX (caType a)) \<noteq> n * (n + 1) div 2"
  by (auto simp: packed_bad_def int_add_def int_mul_def int_val_def)

lemma validate_simps [simp]:
  "vector_2d (Some a) = Some (ctDimY (caType a) > 1)" "vector_2d None = None"
  "differ (Some d) n = Some (d \<noteq> n)" "differ None n = None"
  "packed_rows (Some a) = Some (int (isqrt (unat (ctDimX (caType a)) * 2)))" "packed_rows None = None"
  by (simp_all add: vector_2d_def differ_def packed_rows_def)

text \<open>A check changes nothing but the error state, and never clears an error.\<close>

definition err_only :: "BRS \<Rightarrow> BRS \<Rightarrow> bool" where
  "err_only rs rs' \<longleftrightarrow> (\<exists>k. rs' = rs\<lparr>mCurrentError := k\<rparr> \<and>
     (mCurrentError rs = RS_SUCCESS \<or> k = mCurrentError rs))"

lemma err_only_refl [simp, intro!]: "err_only rs rs"
  unfolding err_only_def by (rule exI [of _ "mCurrentError rs"]) simp

lemma err_only_throw [simp]: "err_only rs rs' \<Longrightarrow> err_only rs (throw_if b rs' k)"
  by (auto simp: err_only_def throw_if_def throwError_def)

lemma err_only_sel:
  assumes "err_only rs rs'"
  shows "mForEach rs' = mForEach rs" and "mElems rs' = mElems rs" and "mNextThis rs' = mNextThis rs"
    and "mCurrentError rs = RS_SUCCESS \<or> mCurrentError rs' = mCurrentError rs"
  using assms by (auto simp: err_only_def)

lemma throw_if_ok [simp]:
  "k \<noteq> RS_SUCCESS \<Longrightarrow> mCurrentError (throw_if b rs k) = RS_SUCCESS \<longleftrightarrow> mCurrentError rs = RS_SUCCESS \<and> \<not> b"
  by (simp add: throw_if_def throwError_def)

text \<open>
  The conditions, for a matrix of \<open>r\<close> rows and \<open>c\<close> columns, a vector of \<open>n\<close> cells at distance \<open>inc\<close>,
  and a triangular matrix of \<open>n\<close> rows packed into one dimension.
\<close>

definition mat_ok :: "CElement \<Rightarrow> CAllocation option \<Rightarrow> int \<Rightarrow> int \<Rightarrow> bool" where
  "mat_ok e A r c \<longleftrightarrow> (\<exists>a. A = Some a \<and> isCompatible (ctElement (caType a)) e \<and>
     sint (ctDimY (caType a)) = r \<and> sint (ctDimX (caType a)) = c)"

definition vec_ok :: "CElement \<Rightarrow> CAllocation option \<Rightarrow> int \<Rightarrow> int \<Rightarrow> bool" where
  "vec_ok e X n inc \<longleftrightarrow> (\<exists>x. X = Some x \<and> isCompatible (ctElement (caType x)) e \<and> 0 < inc \<and>
     sint (ctDimX (caType x)) = 1 + (n - 1) * inc)"

definition packed_ok :: "CElement \<Rightarrow> CAllocation option \<Rightarrow> int \<Rightarrow> bool" where
  "packed_ok e A n \<longleftrightarrow> (\<exists>a. A = Some a \<and> isCompatible (ctElement (caType a)) e \<and>
     sint (ctDimX (caType a)) = n * (n + 1) div 2)"

lemmas ok_defs = mat_ok_def vec_ok_def packed_ok_def

lemma mat_ok_dims: "mat_ok e A r c \<Longrightarrow> dimY A = Some r \<and> dimX A = Some c"
  by (auto simp: mat_ok_def)

text \<open>
  The contract that the methods rely on: a check only touches the error state, and when there is no
  error afterwards its condition holds. A check may return a number of rows; the others return
  nothing.
\<close>

locale validator =
  fixes V :: "BRS \<Rightarrow> CElement \<Rightarrow> (BRS \<times> 'r) option" and P :: "CElement \<Rightarrow> 'r \<Rightarrow> bool"
  assumes check_err: "V rs e = Some (rs', r) \<Longrightarrow> err_only rs rs'"
    and check_sound: "V rs e = Some (rs', r) \<Longrightarrow> mCurrentError rs' = RS_SUCCESS \<Longrightarrow> P e r"
begin

lemma check_sticky:
  assumes "V rs e = Some (rs', r)" and "mCurrentError rs \<noteq> RS_SUCCESS"
  shows "mCurrentError rs' = mCurrentError rs"
  using err_only_sel(4) [OF check_err [OF assms(1)]] assms(2) by simp

end

definition void :: "BRS option \<Rightarrow> (BRS \<times> unit) option" where
  "void m = map_option (\<lambda>rs. (rs, ())) m"

lemma void_eq [simp]: "void m = Some (rs, u) \<longleftrightarrow> m = Some rs"
  by (auto simp: void_def)

interpretation gemv: validator "\<lambda>rs e. void (validateGEMV rs e TransA A X incX Y incY)"
  "\<lambda>e _. \<exists>M N. mat_ok e A M N \<and> vec_ok e X (if TransA = RsBlasNoTrans then N else M) incX \<and>
      vec_ok e Y (if TransA = RsBlasNoTrans then M else N) incY"
  for TransA A X incX Y incY
  by (unfold_locales; cases A; cases X; cases Y; auto simp: validateGEMV_def ok_defs dest!: expectedDim_eq)

interpretation trmv: validator "\<lambda>rs e. void (validateTRMV rs e Uplo TransA Diag A X incX)"
  "\<lambda>e _. \<exists>N. mat_ok e A N N \<and> vec_ok e X N incX" for Uplo TransA Diag A X incX
  by (unfold_locales; cases A; cases X; auto simp: validateTRMV_def ok_defs dest!: expectedDim_eq)

interpretation tpmv: validator "\<lambda>rs e. validateTPMV rs e Uplo TransA Diag Ap X incX"
  "\<lambda>e N. packed_ok e Ap N \<and> vec_ok e X N incX" for Uplo TransA Diag Ap X incX
  by (unfold_locales; cases Ap; cases X; auto simp: validateTPMV_def ok_defs dest!: expectedDim_eq packed_bad_eq)

interpretation symv: validator "\<lambda>rs e. validateSYMV rs e Uplo A X Y incX incY"
  "\<lambda>e N. mat_ok e A N N \<and> vec_ok e X N incX \<and> vec_ok e Y N incY" for Uplo A X Y incX incY
  by (unfold_locales; cases A; cases X; cases Y; auto simp: validateSYMV_def ok_defs dest!: expectedDim_eq)

interpretation spmv: validator "\<lambda>rs e. validateSPMV rs e Uplo Ap X incX Y incY"
  "\<lambda>e N. packed_ok e Ap N \<and> vec_ok e X N incX \<and> vec_ok e Y N incY" for Uplo Ap X incX Y incY
  by (unfold_locales; cases Ap; cases X; cases Y;
    auto simp: validateSPMV_def ok_defs dest!: expectedDim_eq packed_bad_eq)

interpretation ger: validator "\<lambda>rs e. void (validateGER rs e X incX Y incY A)"
  "\<lambda>e _. \<exists>M N. mat_ok e A M N \<and> vec_ok e X M incX \<and> vec_ok e Y N incY" for X incX Y incY A
  by (unfold_locales; cases A; cases X; cases Y; auto simp: validateGER_def ok_defs dest!: expectedDim_eq)

interpretation syr: validator "\<lambda>rs e. validateSYR rs e Uplo X incX A"
  "\<lambda>e N. mat_ok e A N N \<and> vec_ok e X N incX" for Uplo X incX A
  by (unfold_locales; cases A; cases X; auto simp: validateSYR_def ok_defs dest!: expectedDim_eq)

interpretation spr: validator "\<lambda>rs e. validateSPR rs e Uplo X incX Ap"
  "\<lambda>e N. packed_ok e Ap N \<and> vec_ok e X N incX" for Uplo X incX Ap
  by (unfold_locales; cases Ap; cases X; auto simp: validateSPR_def ok_defs dest!: expectedDim_eq packed_bad_eq)

interpretation syr2: validator "\<lambda>rs e. validateSYR2 rs e Uplo X incX Y incY A"
  "\<lambda>e N. mat_ok e A N N \<and> vec_ok e X N incX \<and> vec_ok e Y N incY" for Uplo X incX Y incY A
  by (unfold_locales; cases A; cases X; cases Y; auto simp: validateSYR2_def ok_defs dest!: expectedDim_eq)

interpretation spr2: validator "\<lambda>rs e. validateSPR2 rs e Uplo X incX Y incY Ap"
  "\<lambda>e N. packed_ok e Ap N \<and> vec_ok e X N incX \<and> vec_ok e Y N incY" for Uplo X incX Y incY Ap
  by (unfold_locales; cases Ap; cases X; cases Y;
    auto simp: validateSPR2_def ok_defs dest!: expectedDim_eq packed_bad_eq)

interpretation geru: validator "\<lambda>rs e. void (validateGERU rs e X incX Y incY A)"
  "\<lambda>e _. \<exists>M N. mat_ok e A M N \<and> vec_ok e X M incX \<and> vec_ok e Y N incY" for X incX Y incY A
  by (unfold_locales; cases A; cases X; cases Y; auto simp: validateGERU_def ok_defs dest!: expectedDim_eq)

text \<open>
  A matrix that may be used transposed, and one on the left or on the right of another.
\<close>

definition trans_mat_ok :: "CElement \<Rightarrow> CAllocation option \<Rightarrow> bool \<Rightarrow> int \<Rightarrow> int \<Rightarrow> bool" where
  "trans_mat_ok e A t r c \<longleftrightarrow> (if t then mat_ok e A c r else mat_ok e A r c)"

definition side_ok :: "CElement \<Rightarrow> CAllocation option \<Rightarrow> RsBlasSide \<Rightarrow> int \<Rightarrow> int \<Rightarrow> bool" where
  "side_ok e A Side m n \<longleftrightarrow> (case Side of RsBlasLeft \<Rightarrow> mat_ok e A m m | RsBlasRight \<Rightarrow> mat_ok e A n n)"

lemmas ok3_defs = mat_ok_def trans_mat_ok_def side_ok_def

text \<open>The three ways \<open>validateL3\<close> is used: a product, a product with a symmetric side, a rank update.\<close>

lemma validateL3_err:
  assumes "validateL3 rs e ta tb side A B C = Some rs'"
  shows "err_only rs rs'"
  using assms by (cases C; auto simp: validateL3_def Let_def split: if_splits prod.splits)

interpretation product: validator "\<lambda>rs e. void (validateL3 rs e (trans_val TransA) (trans_val TransB) 0 A B C)"
  "\<lambda>e _. A \<noteq> None \<longrightarrow> B \<noteq> None \<longrightarrow> (\<exists>M N K. trans_mat_ok e A (TransA \<noteq> RsBlasNoTrans) M K \<and>
      trans_mat_ok e B (TransB \<noteq> RsBlasNoTrans) K N \<and> mat_ok e C M N)" for TransA TransB A B C
  by (unfold_locales, erule validateL3_err [OF void_eq [THEN iffD1]])
    (cases A; cases B; cases C; cases TransA; cases TransB; auto simp: validateL3_def l3_operand_def present_wrong_def ok3_defs)

interpretation symmetric: validator "\<lambda>rs e. void (validateL3 rs e 0 0 (side_val Side) A B C)"
  "\<lambda>e _. A \<noteq> None \<longrightarrow> B \<noteq> None \<longrightarrow> udimX A = udimY A \<longrightarrow>
      (\<exists>M N. side_ok e A Side M N \<and> mat_ok e B M N \<and> mat_ok e C M N)" for Side A B C
  by (unfold_locales, erule validateL3_err [OF void_eq [THEN iffD1]])
    (cases A; cases B; cases C; cases Side; auto simp: validateL3_def l3_operand_def l3_right_def present_wrong_def ok3_defs)

interpretation rank: validator "\<lambda>rs e. void (validateL3 rs e (trans_val Trans) 0 0 A None C)"
  "\<lambda>e _. A \<noteq> None \<longrightarrow> (\<exists>N K. trans_mat_ok e A (Trans \<noteq> RsBlasNoTrans) N K \<and> mat_ok e C N N)" for Trans A C
  by (unfold_locales, erule validateL3_err [OF void_eq [THEN iffD1]])
    (cases A; cases C; cases Trans; auto simp: validateL3_def l3_operand_def present_wrong_def ok3_defs)

interpretation syr2k: validator "\<lambda>rs e. void (validateSYR2K rs e Trans A B C)"
  "\<lambda>e _. \<exists>N K. trans_mat_ok e A (Trans = RsBlasTrans) N K \<and> trans_mat_ok e B (Trans = RsBlasTrans) N K \<and>
      mat_ok e C N N" for Trans A B C
  by (unfold_locales; cases A; cases B; cases C; auto simp: validateSYR2K_def ok3_defs split: if_splits)

interpretation trmm: validator "\<lambda>rs e. void (validateTRMM rs e Side TransA A B)"
  "\<lambda>e _. \<exists>M N. side_ok e A Side M N \<and> mat_ok e B M N" for Side TransA A B
  by (unfold_locales; cases A; cases B; cases Side; auto simp: validateTRMM_def ok3_defs)

interpretation trsm: validator "\<lambda>rs e. void (validateTRSM rs e Side TransA A B)"
  "\<lambda>e _. \<exists>M N. side_ok e A Side M N \<and> mat_ok e B M N" for Side TransA A B
  by (unfold_locales; cases A; cases B; cases Side; auto simp: validateTRSM_def ok3_defs)

interpretation hemm: validator "\<lambda>rs e. void (validateHEMM rs e Side A B C)"
  "\<lambda>e _. \<exists>M N. side_ok e A Side M N \<and> mat_ok e B M N \<and> mat_ok e C M N" for Side A B C
  by (unfold_locales; cases A; cases B; cases C; cases Side; auto simp: validateHEMM_def ok3_defs)

interpretation herk: validator "\<lambda>rs e. void (validateHERK rs e Trans A C)"
  "\<lambda>e _. Trans \<noteq> RsBlasTrans \<and> (\<exists>N K. trans_mat_ok e A (Trans \<noteq> RsBlasNoTrans) N K \<and> mat_ok e C N N)"
  for Trans A C
  by (unfold_locales; cases A; cases C; cases Trans; auto simp: validateHERK_def ok3_defs)

interpretation her2k: validator "\<lambda>rs e. void (validateHER2K rs e Trans A B C)"
  "\<lambda>e _. Trans \<noteq> RsBlasTrans \<and> (\<exists>N K. trans_mat_ok e A (Trans \<noteq> RsBlasNoTrans) N K \<and>
      trans_mat_ok e B (Trans \<noteq> RsBlasNoTrans) N K \<and> mat_ok e C N N)" for Trans A B C
  by (unfold_locales; cases A; cases B; cases C; cases Trans; auto simp: validateHER2K_def ok3_defs)

end
