(* ===== verification/Blas_Api.thy ===== *)
theory Blas_Api
  imports Blas_Validate
begin

text \<open>
  The public methods of \<^verbatim>\<open>ScriptIntrinsicBLAS\<close> in \<^verbatim>\<open>cpp/ScriptIntrinsicBLAS.cpp\<close>: each gets the
  predefined element of its precision, checks its arguments, reads the dimensions and sends the
  command. \<open>self\<close> is the handle of the script, and a parameter of type \<open>CAllocation option\<close> is a
  pointer that may be null.
\<close>

definition element_of :: "bool \<Rightarrow> BRS \<Rightarrow> string \<Rightarrow> (BRS \<times> CElement) option" where
  "element_of lp64 rs n = do {
     (rs, e) \<leftarrow> predefined lp64 rs n;
     e \<leftarrow> e;
     Some (rs, e) }"

section \<open>Level 2: products with a general matrix\<close>

definition SGEMV :: "bool \<Rightarrow> nat \<Rightarrow> BRS \<Rightarrow> RsBlasTranspose \<Rightarrow> u32 \<Rightarrow> CAllocation option \<Rightarrow>
    CAllocation option \<Rightarrow> int \<Rightarrow> u32 \<Rightarrow> CAllocation option \<Rightarrow> int \<Rightarrow> BRS option" where
  SGEMV_def [blas_method]: "SGEMV lp64 self rs TransA alpha A X incX beta Y incY = do {
     (rs, e) \<leftarrow> element_of lp64 rs ''F32'';
     rs \<leftarrow> validateGEMV rs e TransA A X incX Y incY;
     M \<leftarrow> dimY A;
     N \<leftarrow> dimX A;
     Aid \<leftarrow> getID A;
     Xid \<leftarrow> getID X;
     Yid \<leftarrow> getID Y;
     Some (nScriptIntrinsicBLAS_Single rs self RsBlas_sgemv (trans_val TransA) 0 0 0 0 M N 0 alpha Aid Xid
       beta Yid incX incY 0 0) }"

definition DGEMV :: "bool \<Rightarrow> nat \<Rightarrow> BRS \<Rightarrow> RsBlasTranspose \<Rightarrow> u64 \<Rightarrow> CAllocation option \<Rightarrow>
    CAllocation option \<Rightarrow> int \<Rightarrow> u64 \<Rightarrow> CAllocation option \<Rightarrow> int \<Rightarrow> BRS option" where
  DGEMV_def [blas_method]: "DGEMV lp64 self rs TransA alpha A X incX beta Y incY = do {
     (rs, e) \<leftarrow> element_of lp64 rs ''F64'';
     rs \<leftarrow> validateGEMV rs e TransA A X incX Y incY;
     M \<leftarrow> dimY A;
     N \<leftarrow> dimX A;
     Aid \<leftarrow> getID A;
     Xid \<leftarrow> getID X;
     Yid \<leftarrow> getID Y;
     Some (nScriptIntrinsicBLAS_Double rs self RsBlas_dgemv (trans_val TransA) 0 0 0 0 M N 0 alpha Aid Xid
       beta Yid incX incY 0 0) }"

definition CGEMV :: "bool \<Rightarrow> nat \<Rightarrow> BRS \<Rightarrow> RsBlasTranspose \<Rightarrow> (u32 \<times> u32) \<Rightarrow> CAllocation option \<Rightarrow>
    CAllocation option \<Rightarrow> int \<Rightarrow> (u32 \<times> u32) \<Rightarrow> CAllocation option \<Rightarrow> int \<Rightarrow> BRS option" where
  CGEMV_def [blas_method]: "CGEMV lp64 self rs TransA alpha A X incX beta Y incY = do {
     (rs, e) \<leftarrow> element_of lp64 rs ''F32_2'';
     rs \<leftarrow> validateGEMV rs e TransA A X incX Y incY;
     M \<leftarrow> dimY A;
     N \<leftarrow> dimX A;
     Aid \<leftarrow> getID A;
     Xid \<leftarrow> getID X;
     Yid \<leftarrow> getID Y;
     Some (nScriptIntrinsicBLAS_Complex rs self RsBlas_cgemv (trans_val TransA) 0 0 0 0 M N 0 (fst alpha)
       (snd alpha) Aid Xid (fst beta) (snd beta) Yid incX incY 0 0) }"

definition ZGEMV :: "bool \<Rightarrow> nat \<Rightarrow> BRS \<Rightarrow> RsBlasTranspose \<Rightarrow> (u64 \<times> u64) \<Rightarrow> CAllocation option \<Rightarrow>
    CAllocation option \<Rightarrow> int \<Rightarrow> (u64 \<times> u64) \<Rightarrow> CAllocation option \<Rightarrow> int \<Rightarrow> BRS option" where
  ZGEMV_def [blas_method]: "ZGEMV lp64 self rs TransA alpha A X incX beta Y incY = do {
     (rs, e) \<leftarrow> element_of lp64 rs ''F64_2'';
     rs \<leftarrow> validateGEMV rs e TransA A X incX Y incY;
     M \<leftarrow> dimY A;
     N \<leftarrow> dimX A;
     Aid \<leftarrow> getID A;
     Xid \<leftarrow> getID X;
     Yid \<leftarrow> getID Y;
     Some (nScriptIntrinsicBLAS_Z rs self RsBlas_zgemv (trans_val TransA) 0 0 0 0 M N 0 (fst alpha) (snd
       alpha) Aid Xid (fst beta) (snd beta) Yid incX incY 0 0) }"

definition SGBMV :: "bool \<Rightarrow> nat \<Rightarrow> BRS \<Rightarrow> RsBlasTranspose \<Rightarrow> int \<Rightarrow> int \<Rightarrow> u32 \<Rightarrow> CAllocation option \<Rightarrow>
    CAllocation option \<Rightarrow> int \<Rightarrow> u32 \<Rightarrow> CAllocation option \<Rightarrow> int \<Rightarrow> BRS option" where
  SGBMV_def [blas_method]: "SGBMV lp64 self rs TransA KL KU alpha A X incX beta Y incY = do {
     (rs, e) \<leftarrow> element_of lp64 rs ''F32'';
     rs \<leftarrow> validateGEMV rs e TransA A X incX Y incY;
     let rs = throw_if (KL < 0 \<or> KU < 0) rs RS_ERROR_INVALID_PARAMETER;
     M \<leftarrow> dimY A;
     N \<leftarrow> dimX A;
     Aid \<leftarrow> getID A;
     Xid \<leftarrow> getID X;
     Yid \<leftarrow> getID Y;
     Some (nScriptIntrinsicBLAS_Single rs self RsBlas_sgbmv (trans_val TransA) 0 0 0 0 M N 0 alpha Aid Xid
       beta Yid incX incY KL KU) }"

definition DGBMV :: "bool \<Rightarrow> nat \<Rightarrow> BRS \<Rightarrow> RsBlasTranspose \<Rightarrow> int \<Rightarrow> int \<Rightarrow> u64 \<Rightarrow> CAllocation option \<Rightarrow>
    CAllocation option \<Rightarrow> int \<Rightarrow> u64 \<Rightarrow> CAllocation option \<Rightarrow> int \<Rightarrow> BRS option" where
  DGBMV_def [blas_method]: "DGBMV lp64 self rs TransA KL KU alpha A X incX beta Y incY = do {
     (rs, e) \<leftarrow> element_of lp64 rs ''F64'';
     rs \<leftarrow> validateGEMV rs e TransA A X incX Y incY;
     let rs = throw_if (KL < 0 \<or> KU < 0) rs RS_ERROR_INVALID_PARAMETER;
     M \<leftarrow> dimY A;
     N \<leftarrow> dimX A;
     Aid \<leftarrow> getID A;
     Xid \<leftarrow> getID X;
     Yid \<leftarrow> getID Y;
     Some (nScriptIntrinsicBLAS_Double rs self RsBlas_dgbmv (trans_val TransA) 0 0 0 0 M N 0 alpha Aid Xid
       beta Yid incX incY KL KU) }"

definition CGBMV :: "bool \<Rightarrow> nat \<Rightarrow> BRS \<Rightarrow> RsBlasTranspose \<Rightarrow> int \<Rightarrow> int \<Rightarrow> (u32 \<times> u32) \<Rightarrow> CAllocation option \<Rightarrow>
    CAllocation option \<Rightarrow> int \<Rightarrow> (u32 \<times> u32) \<Rightarrow> CAllocation option \<Rightarrow> int \<Rightarrow> BRS option" where
  CGBMV_def [blas_method]: "CGBMV lp64 self rs TransA KL KU alpha A X incX beta Y incY = do {
     (rs, e) \<leftarrow> element_of lp64 rs ''F32_2'';
     rs \<leftarrow> validateGEMV rs e TransA A X incX Y incY;
     let rs = throw_if (KL < 0 \<or> KU < 0) rs RS_ERROR_INVALID_PARAMETER;
     M \<leftarrow> dimY A;
     N \<leftarrow> dimX A;
     Aid \<leftarrow> getID A;
     Xid \<leftarrow> getID X;
     Yid \<leftarrow> getID Y;
     Some (nScriptIntrinsicBLAS_Complex rs self RsBlas_cgbmv (trans_val TransA) 0 0 0 0 M N 0 (fst alpha)
       (snd alpha) Aid Xid (fst beta) (snd beta) Yid incX incY KL KU) }"

definition ZGBMV :: "bool \<Rightarrow> nat \<Rightarrow> BRS \<Rightarrow> RsBlasTranspose \<Rightarrow> int \<Rightarrow> int \<Rightarrow> (u64 \<times> u64) \<Rightarrow> CAllocation option \<Rightarrow>
    CAllocation option \<Rightarrow> int \<Rightarrow> (u64 \<times> u64) \<Rightarrow> CAllocation option \<Rightarrow> int \<Rightarrow> BRS option" where
  ZGBMV_def [blas_method]: "ZGBMV lp64 self rs TransA KL KU alpha A X incX beta Y incY = do {
     (rs, e) \<leftarrow> element_of lp64 rs ''F64_2'';
     rs \<leftarrow> validateGEMV rs e TransA A X incX Y incY;
     let rs = throw_if (KL < 0 \<or> KU < 0) rs RS_ERROR_INVALID_PARAMETER;
     M \<leftarrow> dimY A;
     N \<leftarrow> dimX A;
     Aid \<leftarrow> getID A;
     Xid \<leftarrow> getID X;
     Yid \<leftarrow> getID Y;
     Some (nScriptIntrinsicBLAS_Z rs self RsBlas_zgbmv (trans_val TransA) 0 0 0 0 M N 0 (fst alpha) (snd
       alpha) Aid Xid (fst beta) (snd beta) Yid incX incY KL KU) }"

section \<open>Level 2: triangular matrices\<close>

definition STRMV :: "bool \<Rightarrow> nat \<Rightarrow> BRS \<Rightarrow> RsBlasUplo \<Rightarrow> RsBlasTranspose \<Rightarrow> RsBlasDiag \<Rightarrow> CAllocation option \<Rightarrow>
    CAllocation option \<Rightarrow> int \<Rightarrow> BRS option" where
  STRMV_def [blas_method]: "STRMV lp64 self rs Uplo TransA Diag A X incX = do {
     (rs, e) \<leftarrow> element_of lp64 rs ''F32'';
     rs \<leftarrow> validateTRMV rs e Uplo TransA Diag A X incX;
     N \<leftarrow> dimY A;
     Aid \<leftarrow> getID A;
     Xid \<leftarrow> getID X;
     Some (nScriptIntrinsicBLAS_Single rs self RsBlas_strmv (trans_val TransA) 0 0 (uplo_val Uplo) (diag_val
       Diag) 0 N 0 0 Aid Xid 0 0 incX 0 0 0) }"

definition DTRMV :: "bool \<Rightarrow> nat \<Rightarrow> BRS \<Rightarrow> RsBlasUplo \<Rightarrow> RsBlasTranspose \<Rightarrow> RsBlasDiag \<Rightarrow> CAllocation option \<Rightarrow>
    CAllocation option \<Rightarrow> int \<Rightarrow> BRS option" where
  DTRMV_def [blas_method]: "DTRMV lp64 self rs Uplo TransA Diag A X incX = do {
     (rs, e) \<leftarrow> element_of lp64 rs ''F64'';
     rs \<leftarrow> validateTRMV rs e Uplo TransA Diag A X incX;
     N \<leftarrow> dimY A;
     Aid \<leftarrow> getID A;
     Xid \<leftarrow> getID X;
     Some (nScriptIntrinsicBLAS_Double rs self RsBlas_dtrmv (trans_val TransA) 0 0 (uplo_val Uplo) (diag_val
       Diag) 0 N 0 0 Aid Xid 0 0 incX 0 0 0) }"

definition CTRMV :: "bool \<Rightarrow> nat \<Rightarrow> BRS \<Rightarrow> RsBlasUplo \<Rightarrow> RsBlasTranspose \<Rightarrow> RsBlasDiag \<Rightarrow> CAllocation option \<Rightarrow>
    CAllocation option \<Rightarrow> int \<Rightarrow> BRS option" where
  CTRMV_def [blas_method]: "CTRMV lp64 self rs Uplo TransA Diag A X incX = do {
     (rs, e) \<leftarrow> element_of lp64 rs ''F32_2'';
     rs \<leftarrow> validateTRMV rs e Uplo TransA Diag A X incX;
     N \<leftarrow> dimY A;
     Aid \<leftarrow> getID A;
     Xid \<leftarrow> getID X;
     Some (nScriptIntrinsicBLAS_Complex rs self RsBlas_ctrmv (trans_val TransA) 0 0 (uplo_val Uplo) (diag_val
       Diag) 0 N 0 0 0 Aid Xid 0 0 0 incX 0 0 0) }"

definition ZTRMV :: "bool \<Rightarrow> nat \<Rightarrow> BRS \<Rightarrow> RsBlasUplo \<Rightarrow> RsBlasTranspose \<Rightarrow> RsBlasDiag \<Rightarrow> CAllocation option \<Rightarrow>
    CAllocation option \<Rightarrow> int \<Rightarrow> BRS option" where
  ZTRMV_def [blas_method]: "ZTRMV lp64 self rs Uplo TransA Diag A X incX = do {
     (rs, e) \<leftarrow> element_of lp64 rs ''F64_2'';
     rs \<leftarrow> validateTRMV rs e Uplo TransA Diag A X incX;
     N \<leftarrow> dimY A;
     Aid \<leftarrow> getID A;
     Xid \<leftarrow> getID X;
     Some (nScriptIntrinsicBLAS_Z rs self RsBlas_ztrmv (trans_val TransA) 0 0 (uplo_val Uplo) (diag_val Diag)
       0 N 0 0 0 Aid Xid 0 0 0 incX 0 0 0) }"

definition STBMV :: "bool \<Rightarrow> nat \<Rightarrow> BRS \<Rightarrow> RsBlasUplo \<Rightarrow> RsBlasTranspose \<Rightarrow> RsBlasDiag \<Rightarrow> int \<Rightarrow>
    CAllocation option \<Rightarrow> CAllocation option \<Rightarrow> int \<Rightarrow> BRS option" where
  STBMV_def [blas_method]: "STBMV lp64 self rs Uplo TransA Diag K A X incX = do {
     let rs = throw_if (K < 0) rs RS_ERROR_INVALID_PARAMETER;
     (rs, e) \<leftarrow> element_of lp64 rs ''F32'';
     rs \<leftarrow> validateTRMV rs e Uplo TransA Diag A X incX;
     N \<leftarrow> dimY A;
     Aid \<leftarrow> getID A;
     Xid \<leftarrow> getID X;
     Some (nScriptIntrinsicBLAS_Single rs self RsBlas_stbmv (trans_val TransA) 0 0 (uplo_val Uplo) (diag_val
       Diag) 0 N K 0 Aid Xid 0 0 incX 0 0 0) }"

definition DTBMV :: "bool \<Rightarrow> nat \<Rightarrow> BRS \<Rightarrow> RsBlasUplo \<Rightarrow> RsBlasTranspose \<Rightarrow> RsBlasDiag \<Rightarrow> int \<Rightarrow>
    CAllocation option \<Rightarrow> CAllocation option \<Rightarrow> int \<Rightarrow> BRS option" where
  DTBMV_def [blas_method]: "DTBMV lp64 self rs Uplo TransA Diag K A X incX = do {
     let rs = throw_if (K < 0) rs RS_ERROR_INVALID_PARAMETER;
     (rs, e) \<leftarrow> element_of lp64 rs ''F64'';
     rs \<leftarrow> validateTRMV rs e Uplo TransA Diag A X incX;
     N \<leftarrow> dimY A;
     Aid \<leftarrow> getID A;
     Xid \<leftarrow> getID X;
     Some (nScriptIntrinsicBLAS_Double rs self RsBlas_dtbmv (trans_val TransA) 0 0 (uplo_val Uplo) (diag_val
       Diag) 0 N K 0 Aid Xid 0 0 incX 0 0 0) }"

definition CTBMV :: "bool \<Rightarrow> nat \<Rightarrow> BRS \<Rightarrow> RsBlasUplo \<Rightarrow> RsBlasTranspose \<Rightarrow> RsBlasDiag \<Rightarrow> int \<Rightarrow>
    CAllocation option \<Rightarrow> CAllocation option \<Rightarrow> int \<Rightarrow> BRS option" where
  CTBMV_def [blas_method]: "CTBMV lp64 self rs Uplo TransA Diag K A X incX = do {
     let rs = throw_if (K < 0) rs RS_ERROR_INVALID_PARAMETER;
     (rs, e) \<leftarrow> element_of lp64 rs ''F32_2'';
     rs \<leftarrow> validateTRMV rs e Uplo TransA Diag A X incX;
     N \<leftarrow> dimY A;
     Aid \<leftarrow> getID A;
     Xid \<leftarrow> getID X;
     Some (nScriptIntrinsicBLAS_Complex rs self RsBlas_ctbmv (trans_val TransA) 0 0 (uplo_val Uplo) (diag_val
       Diag) 0 N K 0 0 Aid Xid 0 0 0 incX 0 0 0) }"

definition ZTBMV :: "bool \<Rightarrow> nat \<Rightarrow> BRS \<Rightarrow> RsBlasUplo \<Rightarrow> RsBlasTranspose \<Rightarrow> RsBlasDiag \<Rightarrow> int \<Rightarrow>
    CAllocation option \<Rightarrow> CAllocation option \<Rightarrow> int \<Rightarrow> BRS option" where
  ZTBMV_def [blas_method]: "ZTBMV lp64 self rs Uplo TransA Diag K A X incX = do {
     let rs = throw_if (K < 0) rs RS_ERROR_INVALID_PARAMETER;
     (rs, e) \<leftarrow> element_of lp64 rs ''F64_2'';
     rs \<leftarrow> validateTRMV rs e Uplo TransA Diag A X incX;
     N \<leftarrow> dimY A;
     Aid \<leftarrow> getID A;
     Xid \<leftarrow> getID X;
     Some (nScriptIntrinsicBLAS_Z rs self RsBlas_ztbmv (trans_val TransA) 0 0 (uplo_val Uplo) (diag_val Diag)
       0 N K 0 0 Aid Xid 0 0 0 incX 0 0 0) }"

definition STPMV :: "bool \<Rightarrow> nat \<Rightarrow> BRS \<Rightarrow> RsBlasUplo \<Rightarrow> RsBlasTranspose \<Rightarrow> RsBlasDiag \<Rightarrow> CAllocation option \<Rightarrow>
    CAllocation option \<Rightarrow> int \<Rightarrow> BRS option" where
  STPMV_def [blas_method]: "STPMV lp64 self rs Uplo TransA Diag Ap X incX = do {
     (rs, e) \<leftarrow> element_of lp64 rs ''F32'';
     (rs, N) \<leftarrow> validateTPMV rs e Uplo TransA Diag Ap X incX;
     Apid \<leftarrow> getID Ap;
     Xid \<leftarrow> getID X;
     Some (nScriptIntrinsicBLAS_Single rs self RsBlas_stpmv (trans_val TransA) 0 0 (uplo_val Uplo) (diag_val
       Diag) 0 N 0 0 Apid Xid 0 0 incX 0 0 0) }"

definition DTPMV :: "bool \<Rightarrow> nat \<Rightarrow> BRS \<Rightarrow> RsBlasUplo \<Rightarrow> RsBlasTranspose \<Rightarrow> RsBlasDiag \<Rightarrow> CAllocation option \<Rightarrow>
    CAllocation option \<Rightarrow> int \<Rightarrow> BRS option" where
  DTPMV_def [blas_method]: "DTPMV lp64 self rs Uplo TransA Diag Ap X incX = do {
     (rs, e) \<leftarrow> element_of lp64 rs ''F64'';
     (rs, N) \<leftarrow> validateTPMV rs e Uplo TransA Diag Ap X incX;
     Apid \<leftarrow> getID Ap;
     Xid \<leftarrow> getID X;
     Some (nScriptIntrinsicBLAS_Double rs self RsBlas_dtpmv (trans_val TransA) 0 0 (uplo_val Uplo) (diag_val
       Diag) 0 N 0 0 Apid Xid 0 0 incX 0 0 0) }"

definition CTPMV :: "bool \<Rightarrow> nat \<Rightarrow> BRS \<Rightarrow> RsBlasUplo \<Rightarrow> RsBlasTranspose \<Rightarrow> RsBlasDiag \<Rightarrow> CAllocation option \<Rightarrow>
    CAllocation option \<Rightarrow> int \<Rightarrow> BRS option" where
  CTPMV_def [blas_method]: "CTPMV lp64 self rs Uplo TransA Diag Ap X incX = do {
     (rs, e) \<leftarrow> element_of lp64 rs ''F32_2'';
     (rs, N) \<leftarrow> validateTPMV rs e Uplo TransA Diag Ap X incX;
     Apid \<leftarrow> getID Ap;
     Xid \<leftarrow> getID X;
     Some (nScriptIntrinsicBLAS_Complex rs self RsBlas_ctpmv (trans_val TransA) 0 0 (uplo_val Uplo) (diag_val
       Diag) 0 N 0 0 0 Apid Xid 0 0 0 incX 0 0 0) }"

definition ZTPMV :: "bool \<Rightarrow> nat \<Rightarrow> BRS \<Rightarrow> RsBlasUplo \<Rightarrow> RsBlasTranspose \<Rightarrow> RsBlasDiag \<Rightarrow> CAllocation option \<Rightarrow>
    CAllocation option \<Rightarrow> int \<Rightarrow> BRS option" where
  ZTPMV_def [blas_method]: "ZTPMV lp64 self rs Uplo TransA Diag Ap X incX = do {
     (rs, e) \<leftarrow> element_of lp64 rs ''F64_2'';
     (rs, N) \<leftarrow> validateTPMV rs e Uplo TransA Diag Ap X incX;
     Apid \<leftarrow> getID Ap;
     Xid \<leftarrow> getID X;
     Some (nScriptIntrinsicBLAS_Z rs self RsBlas_ztpmv (trans_val TransA) 0 0 (uplo_val Uplo) (diag_val Diag)
       0 N 0 0 0 Apid Xid 0 0 0 incX 0 0 0) }"

definition STRSV :: "bool \<Rightarrow> nat \<Rightarrow> BRS \<Rightarrow> RsBlasUplo \<Rightarrow> RsBlasTranspose \<Rightarrow> RsBlasDiag \<Rightarrow> CAllocation option \<Rightarrow>
    CAllocation option \<Rightarrow> int \<Rightarrow> BRS option" where
  STRSV_def [blas_method]: "STRSV lp64 self rs Uplo TransA Diag A X incX = do {
     (rs, e) \<leftarrow> element_of lp64 rs ''F32'';
     rs \<leftarrow> validateTRMV rs e Uplo TransA Diag A X incX;
     N \<leftarrow> dimY A;
     Aid \<leftarrow> getID A;
     Xid \<leftarrow> getID X;
     Some (nScriptIntrinsicBLAS_Single rs self RsBlas_strsv (trans_val TransA) 0 0 (uplo_val Uplo) (diag_val
       Diag) 0 N 0 0 Aid Xid 0 0 incX 0 0 0) }"

definition DTRSV :: "bool \<Rightarrow> nat \<Rightarrow> BRS \<Rightarrow> RsBlasUplo \<Rightarrow> RsBlasTranspose \<Rightarrow> RsBlasDiag \<Rightarrow> CAllocation option \<Rightarrow>
    CAllocation option \<Rightarrow> int \<Rightarrow> BRS option" where
  DTRSV_def [blas_method]: "DTRSV lp64 self rs Uplo TransA Diag A X incX = do {
     (rs, e) \<leftarrow> element_of lp64 rs ''F64'';
     rs \<leftarrow> validateTRMV rs e Uplo TransA Diag A X incX;
     N \<leftarrow> dimY A;
     Aid \<leftarrow> getID A;
     Xid \<leftarrow> getID X;
     Some (nScriptIntrinsicBLAS_Double rs self RsBlas_dtrsv (trans_val TransA) 0 0 (uplo_val Uplo) (diag_val
       Diag) 0 N 0 0 Aid Xid 0 0 incX 0 0 0) }"

definition CTRSV :: "bool \<Rightarrow> nat \<Rightarrow> BRS \<Rightarrow> RsBlasUplo \<Rightarrow> RsBlasTranspose \<Rightarrow> RsBlasDiag \<Rightarrow> CAllocation option \<Rightarrow>
    CAllocation option \<Rightarrow> int \<Rightarrow> BRS option" where
  CTRSV_def [blas_method]: "CTRSV lp64 self rs Uplo TransA Diag A X incX = do {
     (rs, e) \<leftarrow> element_of lp64 rs ''F32_2'';
     rs \<leftarrow> validateTRMV rs e Uplo TransA Diag A X incX;
     N \<leftarrow> dimY A;
     Aid \<leftarrow> getID A;
     Xid \<leftarrow> getID X;
     Some (nScriptIntrinsicBLAS_Complex rs self RsBlas_ctrsv (trans_val TransA) 0 0 (uplo_val Uplo) (diag_val
       Diag) 0 N 0 0 0 Aid Xid 0 0 0 incX 0 0 0) }"

definition ZTRSV :: "bool \<Rightarrow> nat \<Rightarrow> BRS \<Rightarrow> RsBlasUplo \<Rightarrow> RsBlasTranspose \<Rightarrow> RsBlasDiag \<Rightarrow> CAllocation option \<Rightarrow>
    CAllocation option \<Rightarrow> int \<Rightarrow> BRS option" where
  ZTRSV_def [blas_method]: "ZTRSV lp64 self rs Uplo TransA Diag A X incX = do {
     (rs, e) \<leftarrow> element_of lp64 rs ''F64_2'';
     rs \<leftarrow> validateTRMV rs e Uplo TransA Diag A X incX;
     N \<leftarrow> dimY A;
     Aid \<leftarrow> getID A;
     Xid \<leftarrow> getID X;
     Some (nScriptIntrinsicBLAS_Z rs self RsBlas_ztrsv (trans_val TransA) 0 0 (uplo_val Uplo) (diag_val Diag)
       0 N 0 0 0 Aid Xid 0 0 0 incX 0 0 0) }"

definition STBSV :: "bool \<Rightarrow> nat \<Rightarrow> BRS \<Rightarrow> RsBlasUplo \<Rightarrow> RsBlasTranspose \<Rightarrow> RsBlasDiag \<Rightarrow> int \<Rightarrow>
    CAllocation option \<Rightarrow> CAllocation option \<Rightarrow> int \<Rightarrow> BRS option" where
  STBSV_def [blas_method]: "STBSV lp64 self rs Uplo TransA Diag K A X incX = do {
     (rs, e) \<leftarrow> element_of lp64 rs ''F32'';
     rs \<leftarrow> validateTRMV rs e Uplo TransA Diag A X incX;
     N \<leftarrow> dimY A;
     let rs = throw_if (K < 0) rs RS_ERROR_INVALID_PARAMETER;
     Aid \<leftarrow> getID A;
     Xid \<leftarrow> getID X;
     Some (nScriptIntrinsicBLAS_Single rs self RsBlas_stbsv (trans_val TransA) 0 0 (uplo_val Uplo) (diag_val
       Diag) 0 N K 0 Aid Xid 0 0 incX 0 0 0) }"

definition DTBSV :: "bool \<Rightarrow> nat \<Rightarrow> BRS \<Rightarrow> RsBlasUplo \<Rightarrow> RsBlasTranspose \<Rightarrow> RsBlasDiag \<Rightarrow> int \<Rightarrow>
    CAllocation option \<Rightarrow> CAllocation option \<Rightarrow> int \<Rightarrow> BRS option" where
  DTBSV_def [blas_method]: "DTBSV lp64 self rs Uplo TransA Diag K A X incX = do {
     (rs, e) \<leftarrow> element_of lp64 rs ''F64'';
     rs \<leftarrow> validateTRMV rs e Uplo TransA Diag A X incX;
     N \<leftarrow> dimY A;
     let rs = throw_if (K < 0) rs RS_ERROR_INVALID_PARAMETER;
     Aid \<leftarrow> getID A;
     Xid \<leftarrow> getID X;
     Some (nScriptIntrinsicBLAS_Double rs self RsBlas_dtbsv (trans_val TransA) 0 0 (uplo_val Uplo) (diag_val
       Diag) 0 N K 0 Aid Xid 0 0 incX 0 0 0) }"

definition CTBSV :: "bool \<Rightarrow> nat \<Rightarrow> BRS \<Rightarrow> RsBlasUplo \<Rightarrow> RsBlasTranspose \<Rightarrow> RsBlasDiag \<Rightarrow> int \<Rightarrow>
    CAllocation option \<Rightarrow> CAllocation option \<Rightarrow> int \<Rightarrow> BRS option" where
  CTBSV_def [blas_method]: "CTBSV lp64 self rs Uplo TransA Diag K A X incX = do {
     (rs, e) \<leftarrow> element_of lp64 rs ''F32_2'';
     rs \<leftarrow> validateTRMV rs e Uplo TransA Diag A X incX;
     N \<leftarrow> dimY A;
     let rs = throw_if (K < 0) rs RS_ERROR_INVALID_PARAMETER;
     Aid \<leftarrow> getID A;
     Xid \<leftarrow> getID X;
     Some (nScriptIntrinsicBLAS_Complex rs self RsBlas_ctbsv (trans_val TransA) 0 0 (uplo_val Uplo) (diag_val
       Diag) 0 N K 0 0 Aid Xid 0 0 0 incX 0 0 0) }"

definition ZTBSV :: "bool \<Rightarrow> nat \<Rightarrow> BRS \<Rightarrow> RsBlasUplo \<Rightarrow> RsBlasTranspose \<Rightarrow> RsBlasDiag \<Rightarrow> int \<Rightarrow>
    CAllocation option \<Rightarrow> CAllocation option \<Rightarrow> int \<Rightarrow> BRS option" where
  ZTBSV_def [blas_method]: "ZTBSV lp64 self rs Uplo TransA Diag K A X incX = do {
     (rs, e) \<leftarrow> element_of lp64 rs ''F64_2'';
     rs \<leftarrow> validateTRMV rs e Uplo TransA Diag A X incX;
     N \<leftarrow> dimY A;
     let rs = throw_if (K < 0) rs RS_ERROR_INVALID_PARAMETER;
     Aid \<leftarrow> getID A;
     Xid \<leftarrow> getID X;
     Some (nScriptIntrinsicBLAS_Z rs self RsBlas_ztbsv (trans_val TransA) 0 0 (uplo_val Uplo) (diag_val Diag)
       0 N K 0 0 Aid Xid 0 0 0 incX 0 0 0) }"

definition STPSV :: "bool \<Rightarrow> nat \<Rightarrow> BRS \<Rightarrow> RsBlasUplo \<Rightarrow> RsBlasTranspose \<Rightarrow> RsBlasDiag \<Rightarrow> CAllocation option \<Rightarrow>
    CAllocation option \<Rightarrow> int \<Rightarrow> BRS option" where
  STPSV_def [blas_method]: "STPSV lp64 self rs Uplo TransA Diag Ap X incX = do {
     (rs, e) \<leftarrow> element_of lp64 rs ''F32'';
     (rs, N) \<leftarrow> validateTPMV rs e Uplo TransA Diag Ap X incX;
     Apid \<leftarrow> getID Ap;
     Xid \<leftarrow> getID X;
     Some (nScriptIntrinsicBLAS_Single rs self RsBlas_stpsv (trans_val TransA) 0 0 (uplo_val Uplo) (diag_val
       Diag) 0 N 0 0 Apid Xid 0 0 incX 0 0 0) }"

definition DTPSV :: "bool \<Rightarrow> nat \<Rightarrow> BRS \<Rightarrow> RsBlasUplo \<Rightarrow> RsBlasTranspose \<Rightarrow> RsBlasDiag \<Rightarrow> CAllocation option \<Rightarrow>
    CAllocation option \<Rightarrow> int \<Rightarrow> BRS option" where
  DTPSV_def [blas_method]: "DTPSV lp64 self rs Uplo TransA Diag Ap X incX = do {
     (rs, e) \<leftarrow> element_of lp64 rs ''F64'';
     (rs, N) \<leftarrow> validateTPMV rs e Uplo TransA Diag Ap X incX;
     Apid \<leftarrow> getID Ap;
     Xid \<leftarrow> getID X;
     Some (nScriptIntrinsicBLAS_Double rs self RsBlas_dtpsv (trans_val TransA) 0 0 (uplo_val Uplo) (diag_val
       Diag) 0 N 0 0 Apid Xid 0 0 incX 0 0 0) }"

definition CTPSV :: "bool \<Rightarrow> nat \<Rightarrow> BRS \<Rightarrow> RsBlasUplo \<Rightarrow> RsBlasTranspose \<Rightarrow> RsBlasDiag \<Rightarrow> CAllocation option \<Rightarrow>
    CAllocation option \<Rightarrow> int \<Rightarrow> BRS option" where
  CTPSV_def [blas_method]: "CTPSV lp64 self rs Uplo TransA Diag Ap X incX = do {
     (rs, e) \<leftarrow> element_of lp64 rs ''F32_2'';
     (rs, N) \<leftarrow> validateTPMV rs e Uplo TransA Diag Ap X incX;
     Apid \<leftarrow> getID Ap;
     Xid \<leftarrow> getID X;
     Some (nScriptIntrinsicBLAS_Complex rs self RsBlas_ctpsv (trans_val TransA) 0 0 (uplo_val Uplo) (diag_val
       Diag) 0 N 0 0 0 Apid Xid 0 0 0 incX 0 0 0) }"

definition ZTPSV :: "bool \<Rightarrow> nat \<Rightarrow> BRS \<Rightarrow> RsBlasUplo \<Rightarrow> RsBlasTranspose \<Rightarrow> RsBlasDiag \<Rightarrow> CAllocation option \<Rightarrow>
    CAllocation option \<Rightarrow> int \<Rightarrow> BRS option" where
  ZTPSV_def [blas_method]: "ZTPSV lp64 self rs Uplo TransA Diag Ap X incX = do {
     (rs, e) \<leftarrow> element_of lp64 rs ''F64_2'';
     (rs, N) \<leftarrow> validateTPMV rs e Uplo TransA Diag Ap X incX;
     Apid \<leftarrow> getID Ap;
     Xid \<leftarrow> getID X;
     Some (nScriptIntrinsicBLAS_Z rs self RsBlas_ztpsv (trans_val TransA) 0 0 (uplo_val Uplo) (diag_val Diag)
       0 N 0 0 0 Apid Xid 0 0 0 incX 0 0 0) }"

section \<open>Level 2, single and double precision only\<close>

definition SSYMV :: "bool \<Rightarrow> nat \<Rightarrow> BRS \<Rightarrow> RsBlasUplo \<Rightarrow> u32 \<Rightarrow> CAllocation option \<Rightarrow> CAllocation option \<Rightarrow>
    int \<Rightarrow> u32 \<Rightarrow> CAllocation option \<Rightarrow> int \<Rightarrow> BRS option" where
  SSYMV_def [blas_method]: "SSYMV lp64 self rs Uplo alpha A X incX beta Y incY = do {
     (rs, e) \<leftarrow> element_of lp64 rs ''F32'';
     (rs, N) \<leftarrow> validateSYMV rs e Uplo A X Y incX incY;
     Aid \<leftarrow> getID A;
     Xid \<leftarrow> getID X;
     Yid \<leftarrow> getID Y;
     Some (nScriptIntrinsicBLAS_Single rs self RsBlas_ssymv 0 0 0 (uplo_val Uplo) 0 0 N 0 alpha Aid Xid beta
       Yid incX incY 0 0) }"

definition SSBMV :: "bool \<Rightarrow> nat \<Rightarrow> BRS \<Rightarrow> RsBlasUplo \<Rightarrow> int \<Rightarrow> u32 \<Rightarrow> CAllocation option \<Rightarrow>
    CAllocation option \<Rightarrow> int \<Rightarrow> u32 \<Rightarrow> CAllocation option \<Rightarrow> int \<Rightarrow> BRS option" where
  SSBMV_def [blas_method]: "SSBMV lp64 self rs Uplo K alpha A X incX beta Y incY = do {
     let rs = throw_if (K < 0) rs RS_ERROR_INVALID_PARAMETER;
     (rs, e) \<leftarrow> element_of lp64 rs ''F32'';
     (rs, N) \<leftarrow> validateSYMV rs e Uplo A X Y incX incY;
     Aid \<leftarrow> getID A;
     Xid \<leftarrow> getID X;
     Yid \<leftarrow> getID Y;
     Some (nScriptIntrinsicBLAS_Single rs self RsBlas_ssbmv 0 0 0 (uplo_val Uplo) 0 0 N K alpha Aid Xid beta
       Yid incX incY 0 0) }"

definition SSPMV :: "bool \<Rightarrow> nat \<Rightarrow> BRS \<Rightarrow> RsBlasUplo \<Rightarrow> u32 \<Rightarrow> CAllocation option \<Rightarrow> CAllocation option \<Rightarrow>
    int \<Rightarrow> u32 \<Rightarrow> CAllocation option \<Rightarrow> int \<Rightarrow> BRS option" where
  SSPMV_def [blas_method]: "SSPMV lp64 self rs Uplo alpha Ap X incX beta Y incY = do {
     (rs, e) \<leftarrow> element_of lp64 rs ''F32'';
     (rs, N) \<leftarrow> validateSPMV rs e Uplo Ap X incX Y incY;
     Apid \<leftarrow> getID Ap;
     Xid \<leftarrow> getID X;
     Yid \<leftarrow> getID Y;
     Some (nScriptIntrinsicBLAS_Single rs self RsBlas_sspmv 0 0 0 (uplo_val Uplo) 0 0 N 0 alpha Apid Xid beta
       Yid incX incY 0 0) }"

definition SGER :: "bool \<Rightarrow> nat \<Rightarrow> BRS \<Rightarrow> u32 \<Rightarrow> CAllocation option \<Rightarrow> int \<Rightarrow> CAllocation option \<Rightarrow> int \<Rightarrow>
    CAllocation option \<Rightarrow> BRS option" where
  SGER_def [blas_method]: "SGER lp64 self rs alpha X incX Y incY A = do {
     M \<leftarrow> dimY A;
     N \<leftarrow> dimX A;
     (rs, e) \<leftarrow> element_of lp64 rs ''F32'';
     rs \<leftarrow> validateGER rs e X incX Y incY A;
     Xid \<leftarrow> getID X;
     Yid \<leftarrow> getID Y;
     Aid \<leftarrow> getID A;
     Some (nScriptIntrinsicBLAS_Single rs self RsBlas_sger 0 0 0 0 0 M N 0 alpha Xid Yid 0 Aid incX incY 0 0)
       }"

definition SSYR :: "bool \<Rightarrow> nat \<Rightarrow> BRS \<Rightarrow> RsBlasUplo \<Rightarrow> u32 \<Rightarrow> CAllocation option \<Rightarrow> int \<Rightarrow>
    CAllocation option \<Rightarrow> BRS option" where
  SSYR_def [blas_method]: "SSYR lp64 self rs Uplo alpha X incX A = do {
     (rs, e) \<leftarrow> element_of lp64 rs ''F32'';
     (rs, N) \<leftarrow> validateSYR rs e Uplo X incX A;
     Xid \<leftarrow> getID X;
     Aid \<leftarrow> getID A;
     Some (nScriptIntrinsicBLAS_Single rs self RsBlas_ssyr 0 0 0 (uplo_val Uplo) 0 0 N 0 alpha Xid Aid 0 0
       incX 0 0 0) }"

definition SSPR :: "bool \<Rightarrow> nat \<Rightarrow> BRS \<Rightarrow> RsBlasUplo \<Rightarrow> u32 \<Rightarrow> CAllocation option \<Rightarrow> int \<Rightarrow>
    CAllocation option \<Rightarrow> BRS option" where
  SSPR_def [blas_method]: "SSPR lp64 self rs Uplo alpha X incX Ap = do {
     (rs, e) \<leftarrow> element_of lp64 rs ''F32'';
     (rs, N) \<leftarrow> validateSPR rs e Uplo X incX Ap;
     Xid \<leftarrow> getID X;
     Apid \<leftarrow> getID Ap;
     Some (nScriptIntrinsicBLAS_Single rs self RsBlas_sspr 0 0 0 (uplo_val Uplo) 0 0 N 0 alpha Xid Apid 0 0
       incX 0 0 0) }"

definition SSYR2 :: "bool \<Rightarrow> nat \<Rightarrow> BRS \<Rightarrow> RsBlasUplo \<Rightarrow> u32 \<Rightarrow> CAllocation option \<Rightarrow> int \<Rightarrow>
    CAllocation option \<Rightarrow> int \<Rightarrow> CAllocation option \<Rightarrow> BRS option" where
  SSYR2_def [blas_method]: "SSYR2 lp64 self rs Uplo alpha X incX Y incY A = do {
     (rs, e) \<leftarrow> element_of lp64 rs ''F32'';
     (rs, N) \<leftarrow> validateSYR2 rs e Uplo X incX Y incY A;
     Xid \<leftarrow> getID X;
     Yid \<leftarrow> getID Y;
     Aid \<leftarrow> getID A;
     Some (nScriptIntrinsicBLAS_Single rs self RsBlas_ssyr2 0 0 0 (uplo_val Uplo) 0 0 N 0 alpha Xid Yid 0 Aid
       incX incY 0 0) }"

definition SSPR2 :: "bool \<Rightarrow> nat \<Rightarrow> BRS \<Rightarrow> RsBlasUplo \<Rightarrow> u32 \<Rightarrow> CAllocation option \<Rightarrow> int \<Rightarrow>
    CAllocation option \<Rightarrow> int \<Rightarrow> CAllocation option \<Rightarrow> BRS option" where
  SSPR2_def [blas_method]: "SSPR2 lp64 self rs Uplo alpha X incX Y incY Ap = do {
     (rs, e) \<leftarrow> element_of lp64 rs ''F32'';
     (rs, N) \<leftarrow> validateSPR2 rs e Uplo X incX Y incY Ap;
     Xid \<leftarrow> getID X;
     Yid \<leftarrow> getID Y;
     Apid \<leftarrow> getID Ap;
     Some (nScriptIntrinsicBLAS_Single rs self RsBlas_sspr2 0 0 0 (uplo_val Uplo) 0 0 N 0 alpha Xid Yid 0
       Apid incX incY 0 0) }"

definition DSYMV :: "bool \<Rightarrow> nat \<Rightarrow> BRS \<Rightarrow> RsBlasUplo \<Rightarrow> u64 \<Rightarrow> CAllocation option \<Rightarrow> CAllocation option \<Rightarrow>
    int \<Rightarrow> u64 \<Rightarrow> CAllocation option \<Rightarrow> int \<Rightarrow> BRS option" where
  DSYMV_def [blas_method]: "DSYMV lp64 self rs Uplo alpha A X incX beta Y incY = do {
     (rs, e) \<leftarrow> element_of lp64 rs ''F64'';
     (rs, N) \<leftarrow> validateSYMV rs e Uplo A X Y incX incY;
     Aid \<leftarrow> getID A;
     Xid \<leftarrow> getID X;
     Yid \<leftarrow> getID Y;
     Some (nScriptIntrinsicBLAS_Double rs self RsBlas_dsymv 0 0 0 (uplo_val Uplo) 0 0 N 0 alpha Aid Xid beta
       Yid incX incY 0 0) }"

definition DSBMV :: "bool \<Rightarrow> nat \<Rightarrow> BRS \<Rightarrow> RsBlasUplo \<Rightarrow> int \<Rightarrow> u64 \<Rightarrow> CAllocation option \<Rightarrow>
    CAllocation option \<Rightarrow> int \<Rightarrow> u64 \<Rightarrow> CAllocation option \<Rightarrow> int \<Rightarrow> BRS option" where
  DSBMV_def [blas_method]: "DSBMV lp64 self rs Uplo K alpha A X incX beta Y incY = do {
     let rs = throw_if (K < 0) rs RS_ERROR_INVALID_PARAMETER;
     (rs, e) \<leftarrow> element_of lp64 rs ''F64'';
     (rs, N) \<leftarrow> validateSYMV rs e Uplo A X Y incX incY;
     Aid \<leftarrow> getID A;
     Xid \<leftarrow> getID X;
     Yid \<leftarrow> getID Y;
     Some (nScriptIntrinsicBLAS_Double rs self RsBlas_dsbmv 0 0 0 (uplo_val Uplo) 0 0 N K alpha Aid Xid beta
       Yid incX incY 0 0) }"

definition DSPMV :: "bool \<Rightarrow> nat \<Rightarrow> BRS \<Rightarrow> RsBlasUplo \<Rightarrow> u64 \<Rightarrow> CAllocation option \<Rightarrow> CAllocation option \<Rightarrow>
    int \<Rightarrow> u64 \<Rightarrow> CAllocation option \<Rightarrow> int \<Rightarrow> BRS option" where
  DSPMV_def [blas_method]: "DSPMV lp64 self rs Uplo alpha Ap X incX beta Y incY = do {
     (rs, e) \<leftarrow> element_of lp64 rs ''F64'';
     (rs, N) \<leftarrow> validateSPMV rs e Uplo Ap X incX Y incY;
     Apid \<leftarrow> getID Ap;
     Xid \<leftarrow> getID X;
     Yid \<leftarrow> getID Y;
     Some (nScriptIntrinsicBLAS_Double rs self RsBlas_dspmv 0 0 0 (uplo_val Uplo) 0 0 N 0 alpha Apid Xid beta
       Yid incX incY 0 0) }"

definition DGER :: "bool \<Rightarrow> nat \<Rightarrow> BRS \<Rightarrow> u64 \<Rightarrow> CAllocation option \<Rightarrow> int \<Rightarrow> CAllocation option \<Rightarrow> int \<Rightarrow>
    CAllocation option \<Rightarrow> BRS option" where
  DGER_def [blas_method]: "DGER lp64 self rs alpha X incX Y incY A = do {
     M \<leftarrow> dimY A;
     N \<leftarrow> dimX A;
     (rs, e) \<leftarrow> element_of lp64 rs ''F64'';
     rs \<leftarrow> validateGER rs e X incX Y incY A;
     Xid \<leftarrow> getID X;
     Yid \<leftarrow> getID Y;
     Aid \<leftarrow> getID A;
     Some (nScriptIntrinsicBLAS_Double rs self RsBlas_dger 0 0 0 0 0 M N 0 alpha Xid Yid 0 Aid incX incY 0 0)
       }"

definition DSYR :: "bool \<Rightarrow> nat \<Rightarrow> BRS \<Rightarrow> RsBlasUplo \<Rightarrow> u64 \<Rightarrow> CAllocation option \<Rightarrow> int \<Rightarrow>
    CAllocation option \<Rightarrow> BRS option" where
  DSYR_def [blas_method]: "DSYR lp64 self rs Uplo alpha X incX A = do {
     (rs, e) \<leftarrow> element_of lp64 rs ''F64'';
     (rs, N) \<leftarrow> validateSYR rs e Uplo X incX A;
     Xid \<leftarrow> getID X;
     Aid \<leftarrow> getID A;
     Some (nScriptIntrinsicBLAS_Double rs self RsBlas_dsyr 0 0 0 (uplo_val Uplo) 0 0 N 0 alpha Xid Aid 0 0
       incX 0 0 0) }"

definition DSPR :: "bool \<Rightarrow> nat \<Rightarrow> BRS \<Rightarrow> RsBlasUplo \<Rightarrow> u64 \<Rightarrow> CAllocation option \<Rightarrow> int \<Rightarrow>
    CAllocation option \<Rightarrow> BRS option" where
  DSPR_def [blas_method]: "DSPR lp64 self rs Uplo alpha X incX Ap = do {
     (rs, e) \<leftarrow> element_of lp64 rs ''F64'';
     (rs, N) \<leftarrow> validateSPR rs e Uplo X incX Ap;
     Xid \<leftarrow> getID X;
     Apid \<leftarrow> getID Ap;
     Some (nScriptIntrinsicBLAS_Double rs self RsBlas_dspr 0 0 0 (uplo_val Uplo) 0 0 N 0 alpha Xid Apid 0 0
       incX 0 0 0) }"

definition DSYR2 :: "bool \<Rightarrow> nat \<Rightarrow> BRS \<Rightarrow> RsBlasUplo \<Rightarrow> u64 \<Rightarrow> CAllocation option \<Rightarrow> int \<Rightarrow>
    CAllocation option \<Rightarrow> int \<Rightarrow> CAllocation option \<Rightarrow> BRS option" where
  DSYR2_def [blas_method]: "DSYR2 lp64 self rs Uplo alpha X incX Y incY A = do {
     (rs, e) \<leftarrow> element_of lp64 rs ''F64'';
     (rs, N) \<leftarrow> validateSYR2 rs e Uplo X incX Y incY A;
     Xid \<leftarrow> getID X;
     Yid \<leftarrow> getID Y;
     Aid \<leftarrow> getID A;
     Some (nScriptIntrinsicBLAS_Double rs self RsBlas_dsyr2 0 0 0 (uplo_val Uplo) 0 0 N 0 alpha Xid Yid 0 Aid
       incX incY 0 0) }"

definition DSPR2 :: "bool \<Rightarrow> nat \<Rightarrow> BRS \<Rightarrow> RsBlasUplo \<Rightarrow> u64 \<Rightarrow> CAllocation option \<Rightarrow> int \<Rightarrow>
    CAllocation option \<Rightarrow> int \<Rightarrow> CAllocation option \<Rightarrow> BRS option" where
  DSPR2_def [blas_method]: "DSPR2 lp64 self rs Uplo alpha X incX Y incY Ap = do {
     (rs, e) \<leftarrow> element_of lp64 rs ''F64'';
     (rs, N) \<leftarrow> validateSPR2 rs e Uplo X incX Y incY Ap;
     Xid \<leftarrow> getID X;
     Yid \<leftarrow> getID Y;
     Apid \<leftarrow> getID Ap;
     Some (nScriptIntrinsicBLAS_Double rs self RsBlas_dspr2 0 0 0 (uplo_val Uplo) 0 0 N 0 alpha Xid Yid 0
       Apid incX incY 0 0) }"

section \<open>Level 2, complex only\<close>

definition CHEMV :: "bool \<Rightarrow> nat \<Rightarrow> BRS \<Rightarrow> RsBlasUplo \<Rightarrow> (u32 \<times> u32) \<Rightarrow> CAllocation option \<Rightarrow>
    CAllocation option \<Rightarrow> int \<Rightarrow> (u32 \<times> u32) \<Rightarrow> CAllocation option \<Rightarrow> int \<Rightarrow> BRS option" where
  CHEMV_def [blas_method]: "CHEMV lp64 self rs Uplo alpha A X incX beta Y incY = do {
     (rs, e) \<leftarrow> element_of lp64 rs ''F32_2'';
     (rs, N) \<leftarrow> validateSYR2 rs e Uplo X incX Y incY A;
     Aid \<leftarrow> getID A;
     Xid \<leftarrow> getID X;
     Yid \<leftarrow> getID Y;
     Some (nScriptIntrinsicBLAS_Complex rs self RsBlas_chemv 0 0 0 (uplo_val Uplo) 0 0 N 0 (fst alpha) (snd
       alpha) Aid Xid (fst beta) (snd beta) Yid incX incY 0 0) }"

definition CHBMV :: "bool \<Rightarrow> nat \<Rightarrow> BRS \<Rightarrow> RsBlasUplo \<Rightarrow> int \<Rightarrow> (u32 \<times> u32) \<Rightarrow> CAllocation option \<Rightarrow>
    CAllocation option \<Rightarrow> int \<Rightarrow> (u32 \<times> u32) \<Rightarrow> CAllocation option \<Rightarrow> int \<Rightarrow> BRS option" where
  CHBMV_def [blas_method]: "CHBMV lp64 self rs Uplo K alpha A X incX beta Y incY = do {
     (rs, e) \<leftarrow> element_of lp64 rs ''F32_2'';
     (rs, N) \<leftarrow> validateSYR2 rs e Uplo X incX Y incY A;
     let rs = throw_if (K < 0) rs RS_ERROR_INVALID_PARAMETER;
     Aid \<leftarrow> getID A;
     Xid \<leftarrow> getID X;
     Yid \<leftarrow> getID Y;
     Some (nScriptIntrinsicBLAS_Complex rs self RsBlas_chbmv 0 0 0 (uplo_val Uplo) 0 0 N K (fst alpha) (snd
       alpha) Aid Xid (fst beta) (snd beta) Yid incX incY 0 0) }"

definition CHPMV :: "bool \<Rightarrow> nat \<Rightarrow> BRS \<Rightarrow> RsBlasUplo \<Rightarrow> (u32 \<times> u32) \<Rightarrow> CAllocation option \<Rightarrow>
    CAllocation option \<Rightarrow> int \<Rightarrow> (u32 \<times> u32) \<Rightarrow> CAllocation option \<Rightarrow> int \<Rightarrow> BRS option" where
  CHPMV_def [blas_method]: "CHPMV lp64 self rs Uplo alpha Ap X incX beta Y incY = do {
     (rs, e) \<leftarrow> element_of lp64 rs ''F32_2'';
     (rs, N) \<leftarrow> validateSPR2 rs e Uplo X incX Y incY Ap;
     Apid \<leftarrow> getID Ap;
     Xid \<leftarrow> getID X;
     Yid \<leftarrow> getID Y;
     Some (nScriptIntrinsicBLAS_Complex rs self RsBlas_chpmv 0 0 0 (uplo_val Uplo) 0 0 N 0 (fst alpha) (snd
       alpha) Apid Xid (fst beta) (snd beta) Yid incX incY 0 0) }"

definition CGERU :: "bool \<Rightarrow> nat \<Rightarrow> BRS \<Rightarrow> (u32 \<times> u32) \<Rightarrow> CAllocation option \<Rightarrow> int \<Rightarrow> CAllocation option \<Rightarrow>
    int \<Rightarrow> CAllocation option \<Rightarrow> BRS option" where
  CGERU_def [blas_method]: "CGERU lp64 self rs alpha X incX Y incY A = do {
     (rs, e) \<leftarrow> element_of lp64 rs ''F32_2'';
     rs \<leftarrow> validateGERU rs e X incX Y incY A;
     M \<leftarrow> dimY A;
     N \<leftarrow> dimX A;
     Xid \<leftarrow> getID X;
     Yid \<leftarrow> getID Y;
     Aid \<leftarrow> getID A;
     Some (nScriptIntrinsicBLAS_Complex rs self RsBlas_cgeru 0 0 0 0 0 M N 0 (fst alpha) (snd alpha) Xid Yid
       0 0 Aid incX incY 0 0) }"

definition CGERC :: "bool \<Rightarrow> nat \<Rightarrow> BRS \<Rightarrow> (u32 \<times> u32) \<Rightarrow> CAllocation option \<Rightarrow> int \<Rightarrow> CAllocation option \<Rightarrow>
    int \<Rightarrow> CAllocation option \<Rightarrow> BRS option" where
  CGERC_def [blas_method]: "CGERC lp64 self rs alpha X incX Y incY A = do {
     (rs, e) \<leftarrow> element_of lp64 rs ''F32_2'';
     rs \<leftarrow> validateGERU rs e X incX Y incY A;
     M \<leftarrow> dimY A;
     N \<leftarrow> dimX A;
     Xid \<leftarrow> getID X;
     Yid \<leftarrow> getID Y;
     Aid \<leftarrow> getID A;
     Some (nScriptIntrinsicBLAS_Complex rs self RsBlas_cgerc 0 0 0 0 0 M N 0 (fst alpha) (snd alpha) Xid Yid
       0 0 Aid incX incY 0 0) }"

definition CHER :: "bool \<Rightarrow> nat \<Rightarrow> BRS \<Rightarrow> RsBlasUplo \<Rightarrow> u32 \<Rightarrow> CAllocation option \<Rightarrow> int \<Rightarrow>
    CAllocation option \<Rightarrow> BRS option" where
  CHER_def [blas_method]: "CHER lp64 self rs Uplo alpha X incX A = do {
     (rs, e) \<leftarrow> element_of lp64 rs ''F32_2'';
     (rs, N) \<leftarrow> validateSYR rs e Uplo X incX A;
     Xid \<leftarrow> getID X;
     Aid \<leftarrow> getID A;
     Some (nScriptIntrinsicBLAS_Complex rs self RsBlas_cher 0 0 0 (uplo_val Uplo) 0 0 N 0 alpha 0 Xid 0 0 0
       Aid incX 0 0 0) }"

definition CHPR :: "bool \<Rightarrow> nat \<Rightarrow> BRS \<Rightarrow> RsBlasUplo \<Rightarrow> u32 \<Rightarrow> CAllocation option \<Rightarrow> int \<Rightarrow>
    CAllocation option \<Rightarrow> BRS option" where
  CHPR_def [blas_method]: "CHPR lp64 self rs Uplo alpha X incX Ap = do {
     (rs, e) \<leftarrow> element_of lp64 rs ''F32_2'';
     (rs, N) \<leftarrow> validateSPR rs e Uplo X incX Ap;
     Xid \<leftarrow> getID X;
     Apid \<leftarrow> getID Ap;
     Some (nScriptIntrinsicBLAS_Complex rs self RsBlas_chpr 0 0 0 (uplo_val Uplo) 0 0 N 0 alpha 0 Xid 0 0 0
       Apid incX 0 0 0) }"

definition CHER2 :: "bool \<Rightarrow> nat \<Rightarrow> BRS \<Rightarrow> RsBlasUplo \<Rightarrow> (u32 \<times> u32) \<Rightarrow> CAllocation option \<Rightarrow> int \<Rightarrow>
    CAllocation option \<Rightarrow> int \<Rightarrow> CAllocation option \<Rightarrow> BRS option" where
  CHER2_def [blas_method]: "CHER2 lp64 self rs Uplo alpha X incX Y incY A = do {
     (rs, e) \<leftarrow> element_of lp64 rs ''F32_2'';
     (rs, N) \<leftarrow> validateSYR2 rs e Uplo X incX Y incY A;
     Xid \<leftarrow> getID X;
     Yid \<leftarrow> getID Y;
     Aid \<leftarrow> getID A;
     Some (nScriptIntrinsicBLAS_Complex rs self RsBlas_cher2 0 0 0 (uplo_val Uplo) 0 0 N 0 (fst alpha) (snd
       alpha) Xid Yid 0 0 Aid incX incY 0 0) }"

definition CHPR2 :: "bool \<Rightarrow> nat \<Rightarrow> BRS \<Rightarrow> RsBlasUplo \<Rightarrow> (u32 \<times> u32) \<Rightarrow> CAllocation option \<Rightarrow> int \<Rightarrow>
    CAllocation option \<Rightarrow> int \<Rightarrow> CAllocation option \<Rightarrow> BRS option" where
  CHPR2_def [blas_method]: "CHPR2 lp64 self rs Uplo alpha X incX Y incY Ap = do {
     (rs, e) \<leftarrow> element_of lp64 rs ''F32_2'';
     (rs, N) \<leftarrow> validateSPR2 rs e Uplo X incX Y incY Ap;
     Xid \<leftarrow> getID X;
     Yid \<leftarrow> getID Y;
     Apid \<leftarrow> getID Ap;
     Some (nScriptIntrinsicBLAS_Complex rs self RsBlas_chpr2 0 0 0 (uplo_val Uplo) 0 0 N 0 (fst alpha) (snd
       alpha) Xid Yid 0 0 Apid incX incY 0 0) }"

definition ZHEMV :: "bool \<Rightarrow> nat \<Rightarrow> BRS \<Rightarrow> RsBlasUplo \<Rightarrow> (u64 \<times> u64) \<Rightarrow> CAllocation option \<Rightarrow>
    CAllocation option \<Rightarrow> int \<Rightarrow> (u64 \<times> u64) \<Rightarrow> CAllocation option \<Rightarrow> int \<Rightarrow> BRS option" where
  ZHEMV_def [blas_method]: "ZHEMV lp64 self rs Uplo alpha A X incX beta Y incY = do {
     (rs, e) \<leftarrow> element_of lp64 rs ''F64_2'';
     (rs, N) \<leftarrow> validateSYR2 rs e Uplo X incX Y incY A;
     Aid \<leftarrow> getID A;
     Xid \<leftarrow> getID X;
     Yid \<leftarrow> getID Y;
     Some (nScriptIntrinsicBLAS_Z rs self RsBlas_zhemv 0 0 0 (uplo_val Uplo) 0 0 N 0 (fst alpha) (snd alpha)
       Aid Xid (fst beta) (snd beta) Yid incX incY 0 0) }"

definition ZHBMV :: "bool \<Rightarrow> nat \<Rightarrow> BRS \<Rightarrow> RsBlasUplo \<Rightarrow> int \<Rightarrow> (u64 \<times> u64) \<Rightarrow> CAllocation option \<Rightarrow>
    CAllocation option \<Rightarrow> int \<Rightarrow> (u64 \<times> u64) \<Rightarrow> CAllocation option \<Rightarrow> int \<Rightarrow> BRS option" where
  ZHBMV_def [blas_method]: "ZHBMV lp64 self rs Uplo K alpha A X incX beta Y incY = do {
     (rs, e) \<leftarrow> element_of lp64 rs ''F64_2'';
     (rs, N) \<leftarrow> validateSYR2 rs e Uplo X incX Y incY A;
     let rs = throw_if (K < 0) rs RS_ERROR_INVALID_PARAMETER;
     Aid \<leftarrow> getID A;
     Xid \<leftarrow> getID X;
     Yid \<leftarrow> getID Y;
     Some (nScriptIntrinsicBLAS_Z rs self RsBlas_zhbmv 0 0 0 (uplo_val Uplo) 0 0 N K (fst alpha) (snd alpha)
       Aid Xid (fst beta) (snd beta) Yid incX incY 0 0) }"

definition ZHPMV :: "bool \<Rightarrow> nat \<Rightarrow> BRS \<Rightarrow> RsBlasUplo \<Rightarrow> (u64 \<times> u64) \<Rightarrow> CAllocation option \<Rightarrow>
    CAllocation option \<Rightarrow> int \<Rightarrow> (u64 \<times> u64) \<Rightarrow> CAllocation option \<Rightarrow> int \<Rightarrow> BRS option" where
  ZHPMV_def [blas_method]: "ZHPMV lp64 self rs Uplo alpha Ap X incX beta Y incY = do {
     (rs, e) \<leftarrow> element_of lp64 rs ''F64_2'';
     (rs, N) \<leftarrow> validateSPR2 rs e Uplo X incX Y incY Ap;
     Apid \<leftarrow> getID Ap;
     Xid \<leftarrow> getID X;
     Yid \<leftarrow> getID Y;
     Some (nScriptIntrinsicBLAS_Z rs self RsBlas_zhpmv 0 0 0 (uplo_val Uplo) 0 0 N 0 (fst alpha) (snd alpha)
       Apid Xid (fst beta) (snd beta) Yid incX incY 0 0) }"

definition ZGERU :: "bool \<Rightarrow> nat \<Rightarrow> BRS \<Rightarrow> (u64 \<times> u64) \<Rightarrow> CAllocation option \<Rightarrow> int \<Rightarrow> CAllocation option \<Rightarrow>
    int \<Rightarrow> CAllocation option \<Rightarrow> BRS option" where
  ZGERU_def [blas_method]: "ZGERU lp64 self rs alpha X incX Y incY A = do {
     (rs, e) \<leftarrow> element_of lp64 rs ''F64_2'';
     rs \<leftarrow> validateGERU rs e X incX Y incY A;
     M \<leftarrow> dimY A;
     N \<leftarrow> dimX A;
     Xid \<leftarrow> getID X;
     Yid \<leftarrow> getID Y;
     Aid \<leftarrow> getID A;
     Some (nScriptIntrinsicBLAS_Z rs self RsBlas_zgeru 0 0 0 0 0 M N 0 (fst alpha) (snd alpha) Xid Yid 0 0
       Aid incX incY 0 0) }"

definition ZGERC :: "bool \<Rightarrow> nat \<Rightarrow> BRS \<Rightarrow> (u64 \<times> u64) \<Rightarrow> CAllocation option \<Rightarrow> int \<Rightarrow> CAllocation option \<Rightarrow>
    int \<Rightarrow> CAllocation option \<Rightarrow> BRS option" where
  ZGERC_def [blas_method]: "ZGERC lp64 self rs alpha X incX Y incY A = do {
     (rs, e) \<leftarrow> element_of lp64 rs ''F64_2'';
     rs \<leftarrow> validateGERU rs e X incX Y incY A;
     M \<leftarrow> dimY A;
     N \<leftarrow> dimX A;
     Xid \<leftarrow> getID X;
     Yid \<leftarrow> getID Y;
     Aid \<leftarrow> getID A;
     Some (nScriptIntrinsicBLAS_Z rs self RsBlas_zgerc 0 0 0 0 0 M N 0 (fst alpha) (snd alpha) Xid Yid 0 0
       Aid incX incY 0 0) }"

definition ZHER :: "bool \<Rightarrow> nat \<Rightarrow> BRS \<Rightarrow> RsBlasUplo \<Rightarrow> u64 \<Rightarrow> CAllocation option \<Rightarrow> int \<Rightarrow>
    CAllocation option \<Rightarrow> BRS option" where
  ZHER_def [blas_method]: "ZHER lp64 self rs Uplo alpha X incX A = do {
     (rs, e) \<leftarrow> element_of lp64 rs ''F64_2'';
     (rs, N) \<leftarrow> validateSYR rs e Uplo X incX A;
     Xid \<leftarrow> getID X;
     Aid \<leftarrow> getID A;
     Some (nScriptIntrinsicBLAS_Z rs self RsBlas_zher 0 0 0 (uplo_val Uplo) 0 0 N 0 alpha 0 Xid 0 0 0 Aid
       incX 0 0 0) }"

definition ZHPR :: "bool \<Rightarrow> nat \<Rightarrow> BRS \<Rightarrow> RsBlasUplo \<Rightarrow> u64 \<Rightarrow> CAllocation option \<Rightarrow> int \<Rightarrow>
    CAllocation option \<Rightarrow> BRS option" where
  ZHPR_def [blas_method]: "ZHPR lp64 self rs Uplo alpha X incX Ap = do {
     (rs, e) \<leftarrow> element_of lp64 rs ''F64_2'';
     (rs, N) \<leftarrow> validateSPR rs e Uplo X incX Ap;
     Xid \<leftarrow> getID X;
     Apid \<leftarrow> getID Ap;
     Some (nScriptIntrinsicBLAS_Z rs self RsBlas_zhpr 0 0 0 (uplo_val Uplo) 0 0 N 0 alpha 0 Xid 0 0 0 Apid
       incX 0 0 0) }"

definition ZHER2 :: "bool \<Rightarrow> nat \<Rightarrow> BRS \<Rightarrow> RsBlasUplo \<Rightarrow> (u64 \<times> u64) \<Rightarrow> CAllocation option \<Rightarrow> int \<Rightarrow>
    CAllocation option \<Rightarrow> int \<Rightarrow> CAllocation option \<Rightarrow> BRS option" where
  ZHER2_def [blas_method]: "ZHER2 lp64 self rs Uplo alpha X incX Y incY A = do {
     (rs, e) \<leftarrow> element_of lp64 rs ''F64_2'';
     (rs, N) \<leftarrow> validateSYR2 rs e Uplo X incX Y incY A;
     Xid \<leftarrow> getID X;
     Yid \<leftarrow> getID Y;
     Aid \<leftarrow> getID A;
     Some (nScriptIntrinsicBLAS_Z rs self RsBlas_zher2 0 0 0 (uplo_val Uplo) 0 0 N 0 (fst alpha) (snd alpha)
       Xid Yid 0 0 Aid incX incY 0 0) }"

definition ZHPR2 :: "bool \<Rightarrow> nat \<Rightarrow> BRS \<Rightarrow> RsBlasUplo \<Rightarrow> (u64 \<times> u64) \<Rightarrow> CAllocation option \<Rightarrow> int \<Rightarrow>
    CAllocation option \<Rightarrow> int \<Rightarrow> CAllocation option \<Rightarrow> BRS option" where
  ZHPR2_def [blas_method]: "ZHPR2 lp64 self rs Uplo alpha X incX Y incY Ap = do {
     (rs, e) \<leftarrow> element_of lp64 rs ''F64_2'';
     (rs, N) \<leftarrow> validateSPR2 rs e Uplo X incX Y incY Ap;
     Xid \<leftarrow> getID X;
     Yid \<leftarrow> getID Y;
     Apid \<leftarrow> getID Ap;
     Some (nScriptIntrinsicBLAS_Z rs self RsBlas_zhpr2 0 0 0 (uplo_val Uplo) 0 0 N 0 (fst alpha) (snd alpha)
       Xid Yid 0 0 Apid incX incY 0 0) }"

section \<open>Level 3: general products\<close>

definition SGEMM :: "bool \<Rightarrow> nat \<Rightarrow> BRS \<Rightarrow> RsBlasTranspose \<Rightarrow> RsBlasTranspose \<Rightarrow> u32 \<Rightarrow> CAllocation option \<Rightarrow>
    CAllocation option \<Rightarrow> u32 \<Rightarrow> CAllocation option \<Rightarrow> BRS option" where
  SGEMM_def [blas_method]: "SGEMM lp64 self rs TransA TransB alpha A B beta C = do {
     (rs, e) \<leftarrow> element_of lp64 rs ''F32'';
     rs \<leftarrow> validateL3 rs e (trans_val TransA) (trans_val TransB) 0 A B C;
     (M, K) \<leftarrow> (if TransA \<noteq> RsBlasNoTrans then do { M \<leftarrow> dimX A; K \<leftarrow> dimY A; Some (M, K) }
        else do { M \<leftarrow> dimY A; K \<leftarrow> dimX A; Some (M, K) });
     N \<leftarrow> (if TransB \<noteq> RsBlasNoTrans then dimY B else dimX B);
     Aid \<leftarrow> getID A;
     Bid \<leftarrow> getID B;
     Cid \<leftarrow> getID C;
     Some (nScriptIntrinsicBLAS_Single rs self RsBlas_sgemm (trans_val TransA) (trans_val TransB) 0 0 0 M N K
       alpha Aid Bid beta Cid 0 0 0 0) }"

definition DGEMM :: "bool \<Rightarrow> nat \<Rightarrow> BRS \<Rightarrow> RsBlasTranspose \<Rightarrow> RsBlasTranspose \<Rightarrow> u64 \<Rightarrow> CAllocation option \<Rightarrow>
    CAllocation option \<Rightarrow> u64 \<Rightarrow> CAllocation option \<Rightarrow> BRS option" where
  DGEMM_def [blas_method]: "DGEMM lp64 self rs TransA TransB alpha A B beta C = do {
     (rs, e) \<leftarrow> element_of lp64 rs ''F64'';
     rs \<leftarrow> validateL3 rs e (trans_val TransA) (trans_val TransB) 0 A B C;
     (M, K) \<leftarrow> (if TransA \<noteq> RsBlasNoTrans then do { M \<leftarrow> dimX A; K \<leftarrow> dimY A; Some (M, K) }
        else do { M \<leftarrow> dimY A; K \<leftarrow> dimX A; Some (M, K) });
     N \<leftarrow> (if TransB \<noteq> RsBlasNoTrans then dimY B else dimX B);
     Aid \<leftarrow> getID A;
     Bid \<leftarrow> getID B;
     Cid \<leftarrow> getID C;
     Some (nScriptIntrinsicBLAS_Double rs self RsBlas_dgemm (trans_val TransA) (trans_val TransB) 0 0 0 M N K
       alpha Aid Bid beta Cid 0 0 0 0) }"

definition CGEMM :: "bool \<Rightarrow> nat \<Rightarrow> BRS \<Rightarrow> RsBlasTranspose \<Rightarrow> RsBlasTranspose \<Rightarrow> (u32 \<times> u32) \<Rightarrow>
    CAllocation option \<Rightarrow> CAllocation option \<Rightarrow> (u32 \<times> u32) \<Rightarrow> CAllocation option \<Rightarrow> BRS option" where
  CGEMM_def [blas_method]: "CGEMM lp64 self rs TransA TransB alpha A B beta C = do {
     (rs, e) \<leftarrow> element_of lp64 rs ''F32_2'';
     rs \<leftarrow> validateL3 rs e (trans_val TransA) (trans_val TransB) 0 A B C;
     (M, K) \<leftarrow> (if TransA \<noteq> RsBlasNoTrans then do { M \<leftarrow> dimX A; K \<leftarrow> dimY A; Some (M, K) }
        else do { M \<leftarrow> dimY A; K \<leftarrow> dimX A; Some (M, K) });
     N \<leftarrow> (if TransB \<noteq> RsBlasNoTrans then dimY B else dimX B);
     Aid \<leftarrow> getID A;
     Bid \<leftarrow> getID B;
     Cid \<leftarrow> getID C;
     Some (nScriptIntrinsicBLAS_Complex rs self RsBlas_cgemm (trans_val TransA) (trans_val TransB) 0 0 0 M N
       K (fst alpha) (snd alpha) Aid Bid (fst beta) (snd beta) Cid 0 0 0 0) }"

definition ZGEMM :: "bool \<Rightarrow> nat \<Rightarrow> BRS \<Rightarrow> RsBlasTranspose \<Rightarrow> RsBlasTranspose \<Rightarrow> (u64 \<times> u64) \<Rightarrow>
    CAllocation option \<Rightarrow> CAllocation option \<Rightarrow> (u64 \<times> u64) \<Rightarrow> CAllocation option \<Rightarrow> BRS option" where
  ZGEMM_def [blas_method]: "ZGEMM lp64 self rs TransA TransB alpha A B beta C = do {
     (rs, e) \<leftarrow> element_of lp64 rs ''F64_2'';
     rs \<leftarrow> validateL3 rs e (trans_val TransA) (trans_val TransB) 0 A B C;
     (M, K) \<leftarrow> (if TransA \<noteq> RsBlasNoTrans then do { M \<leftarrow> dimX A; K \<leftarrow> dimY A; Some (M, K) }
        else do { M \<leftarrow> dimY A; K \<leftarrow> dimX A; Some (M, K) });
     N \<leftarrow> (if TransB \<noteq> RsBlasNoTrans then dimY B else dimX B);
     Aid \<leftarrow> getID A;
     Bid \<leftarrow> getID B;
     Cid \<leftarrow> getID C;
     Some (nScriptIntrinsicBLAS_Z rs self RsBlas_zgemm (trans_val TransA) (trans_val TransB) 0 0 0 M N K (fst
       alpha) (snd alpha) Aid Bid (fst beta) (snd beta) Cid 0 0 0 0) }"

section \<open>Level 3: symmetric matrices\<close>

definition SSYMM :: "bool \<Rightarrow> nat \<Rightarrow> BRS \<Rightarrow> RsBlasSide \<Rightarrow> RsBlasUplo \<Rightarrow> u32 \<Rightarrow> CAllocation option \<Rightarrow>
    CAllocation option \<Rightarrow> u32 \<Rightarrow> CAllocation option \<Rightarrow> BRS option" where
  SSYMM_def [blas_method]: "SSYMM lp64 self rs Side Uplo alpha A B beta C = do {
     ax \<leftarrow> udimX A;
     ay \<leftarrow> udimY A;
     let rs = throw_if (ax \<noteq> ay) rs RS_ERROR_INVALID_PARAMETER;
     (rs, e) \<leftarrow> element_of lp64 rs ''F32'';
     rs \<leftarrow> validateL3 rs e 0 0 (side_val Side) A B C;
     CdY \<leftarrow> dimY C;
     CdX \<leftarrow> dimX C;
     Aid \<leftarrow> getID A;
     Bid \<leftarrow> getID B;
     Cid \<leftarrow> getID C;
     Some (nScriptIntrinsicBLAS_Single rs self RsBlas_ssymm 0 0 (side_val Side) (uplo_val Uplo) 0 CdY CdX 0
       alpha Aid Bid beta Cid 0 0 0 0) }"

definition DSYMM :: "bool \<Rightarrow> nat \<Rightarrow> BRS \<Rightarrow> RsBlasSide \<Rightarrow> RsBlasUplo \<Rightarrow> u64 \<Rightarrow> CAllocation option \<Rightarrow>
    CAllocation option \<Rightarrow> u64 \<Rightarrow> CAllocation option \<Rightarrow> BRS option" where
  DSYMM_def [blas_method]: "DSYMM lp64 self rs Side Uplo alpha A B beta C = do {
     ax \<leftarrow> udimX A;
     ay \<leftarrow> udimY A;
     let rs = throw_if (ax \<noteq> ay) rs RS_ERROR_INVALID_PARAMETER;
     (rs, e) \<leftarrow> element_of lp64 rs ''F64'';
     rs \<leftarrow> validateL3 rs e 0 0 (side_val Side) A B C;
     CdY \<leftarrow> dimY C;
     CdX \<leftarrow> dimX C;
     Aid \<leftarrow> getID A;
     Bid \<leftarrow> getID B;
     Cid \<leftarrow> getID C;
     Some (nScriptIntrinsicBLAS_Double rs self RsBlas_dsymm 0 0 (side_val Side) (uplo_val Uplo) 0 CdY CdX 0
       alpha Aid Bid beta Cid 0 0 0 0) }"

definition CSYMM :: "bool \<Rightarrow> nat \<Rightarrow> BRS \<Rightarrow> RsBlasSide \<Rightarrow> RsBlasUplo \<Rightarrow> (u32 \<times> u32) \<Rightarrow> CAllocation option \<Rightarrow>
    CAllocation option \<Rightarrow> (u32 \<times> u32) \<Rightarrow> CAllocation option \<Rightarrow> BRS option" where
  CSYMM_def [blas_method]: "CSYMM lp64 self rs Side Uplo alpha A B beta C = do {
     ax \<leftarrow> udimX A;
     ay \<leftarrow> udimY A;
     let rs = throw_if (ax \<noteq> ay) rs RS_ERROR_INVALID_PARAMETER;
     (rs, e) \<leftarrow> element_of lp64 rs ''F32_2'';
     rs \<leftarrow> validateL3 rs e 0 0 (side_val Side) A B C;
     CdY \<leftarrow> dimY C;
     CdX \<leftarrow> dimX C;
     Aid \<leftarrow> getID A;
     Bid \<leftarrow> getID B;
     Cid \<leftarrow> getID C;
     Some (nScriptIntrinsicBLAS_Complex rs self RsBlas_csymm 0 0 (side_val Side) (uplo_val Uplo) 0 CdY CdX 0
       (fst alpha) (snd alpha) Aid Bid (fst beta) (snd beta) Cid 0 0 0 0) }"

definition ZSYMM :: "bool \<Rightarrow> nat \<Rightarrow> BRS \<Rightarrow> RsBlasSide \<Rightarrow> RsBlasUplo \<Rightarrow> (u64 \<times> u64) \<Rightarrow> CAllocation option \<Rightarrow>
    CAllocation option \<Rightarrow> (u64 \<times> u64) \<Rightarrow> CAllocation option \<Rightarrow> BRS option" where
  ZSYMM_def [blas_method]: "ZSYMM lp64 self rs Side Uplo alpha A B beta C = do {
     ax \<leftarrow> udimX A;
     ay \<leftarrow> udimY A;
     let rs = throw_if (ax \<noteq> ay) rs RS_ERROR_INVALID_PARAMETER;
     (rs, e) \<leftarrow> element_of lp64 rs ''F64_2'';
     rs \<leftarrow> validateL3 rs e 0 0 (side_val Side) A B C;
     CdY \<leftarrow> dimY C;
     CdX \<leftarrow> dimX C;
     Aid \<leftarrow> getID A;
     Bid \<leftarrow> getID B;
     Cid \<leftarrow> getID C;
     Some (nScriptIntrinsicBLAS_Z rs self RsBlas_zsymm 0 0 (side_val Side) (uplo_val Uplo) 0 CdY CdX 0 (fst
       alpha) (snd alpha) Aid Bid (fst beta) (snd beta) Cid 0 0 0 0) }"

definition SSYRK :: "bool \<Rightarrow> nat \<Rightarrow> BRS \<Rightarrow> RsBlasUplo \<Rightarrow> RsBlasTranspose \<Rightarrow> u32 \<Rightarrow> CAllocation option \<Rightarrow> u32 \<Rightarrow>
    CAllocation option \<Rightarrow> BRS option" where
  SSYRK_def [blas_method]: "SSYRK lp64 self rs Uplo Trans alpha A beta C = do {
     (rs, e) \<leftarrow> element_of lp64 rs ''F32'';
     rs \<leftarrow> validateL3 rs e (trans_val Trans) 0 0 A None C;
     K \<leftarrow> (if Trans \<noteq> RsBlasNoTrans then dimY A else dimX A);
     CdX \<leftarrow> dimX C;
     Aid \<leftarrow> getID A;
     Cid \<leftarrow> getID C;
     Some (nScriptIntrinsicBLAS_Single rs self RsBlas_ssyrk (trans_val Trans) 0 0 (uplo_val Uplo) 0 0 CdX K
       alpha Aid 0 beta Cid 0 0 0 0) }"

definition DSYRK :: "bool \<Rightarrow> nat \<Rightarrow> BRS \<Rightarrow> RsBlasUplo \<Rightarrow> RsBlasTranspose \<Rightarrow> u64 \<Rightarrow> CAllocation option \<Rightarrow> u64 \<Rightarrow>
    CAllocation option \<Rightarrow> BRS option" where
  DSYRK_def [blas_method]: "DSYRK lp64 self rs Uplo Trans alpha A beta C = do {
     (rs, e) \<leftarrow> element_of lp64 rs ''F64'';
     rs \<leftarrow> validateL3 rs e (trans_val Trans) 0 0 A None C;
     K \<leftarrow> (if Trans \<noteq> RsBlasNoTrans then dimY A else dimX A);
     CdX \<leftarrow> dimX C;
     Aid \<leftarrow> getID A;
     Cid \<leftarrow> getID C;
     Some (nScriptIntrinsicBLAS_Double rs self RsBlas_dsyrk (trans_val Trans) 0 0 (uplo_val Uplo) 0 0 CdX K
       alpha Aid 0 beta Cid 0 0 0 0) }"

definition CSYRK :: "bool \<Rightarrow> nat \<Rightarrow> BRS \<Rightarrow> RsBlasUplo \<Rightarrow> RsBlasTranspose \<Rightarrow> (u32 \<times> u32) \<Rightarrow>
    CAllocation option \<Rightarrow> (u32 \<times> u32) \<Rightarrow> CAllocation option \<Rightarrow> BRS option" where
  CSYRK_def [blas_method]: "CSYRK lp64 self rs Uplo Trans alpha A beta C = do {
     (rs, e) \<leftarrow> element_of lp64 rs ''F32_2'';
     rs \<leftarrow> validateL3 rs e (trans_val Trans) 0 0 A None C;
     K \<leftarrow> (if Trans \<noteq> RsBlasNoTrans then dimY A else dimX A);
     CdX \<leftarrow> dimX C;
     Aid \<leftarrow> getID A;
     Cid \<leftarrow> getID C;
     Some (nScriptIntrinsicBLAS_Complex rs self RsBlas_csyrk (trans_val Trans) 0 0 (uplo_val Uplo) 0 0 CdX K
       (fst alpha) (snd alpha) Aid 0 (fst beta) (snd beta) Cid 0 0 0 0) }"

definition ZSYRK :: "bool \<Rightarrow> nat \<Rightarrow> BRS \<Rightarrow> RsBlasUplo \<Rightarrow> RsBlasTranspose \<Rightarrow> (u64 \<times> u64) \<Rightarrow>
    CAllocation option \<Rightarrow> (u64 \<times> u64) \<Rightarrow> CAllocation option \<Rightarrow> BRS option" where
  ZSYRK_def [blas_method]: "ZSYRK lp64 self rs Uplo Trans alpha A beta C = do {
     (rs, e) \<leftarrow> element_of lp64 rs ''F64_2'';
     rs \<leftarrow> validateL3 rs e (trans_val Trans) 0 0 A None C;
     K \<leftarrow> (if Trans \<noteq> RsBlasNoTrans then dimY A else dimX A);
     CdX \<leftarrow> dimX C;
     Aid \<leftarrow> getID A;
     Cid \<leftarrow> getID C;
     Some (nScriptIntrinsicBLAS_Z rs self RsBlas_zsyrk (trans_val Trans) 0 0 (uplo_val Uplo) 0 0 CdX K (fst
       alpha) (snd alpha) Aid 0 (fst beta) (snd beta) Cid 0 0 0 0) }"

definition SSYR2K :: "bool \<Rightarrow> nat \<Rightarrow> BRS \<Rightarrow> RsBlasUplo \<Rightarrow> RsBlasTranspose \<Rightarrow> u32 \<Rightarrow> CAllocation option \<Rightarrow>
    CAllocation option \<Rightarrow> u32 \<Rightarrow> CAllocation option \<Rightarrow> BRS option" where
  SSYR2K_def [blas_method]: "SSYR2K lp64 self rs Uplo Trans alpha A B beta C = do {
     (rs, e) \<leftarrow> element_of lp64 rs ''F32'';
     rs \<leftarrow> validateSYR2K rs e Trans A B C;
     K \<leftarrow> (if Trans \<noteq> RsBlasNoTrans then dimY A else dimX A);
     CdX \<leftarrow> dimX C;
     Aid \<leftarrow> getID A;
     Bid \<leftarrow> getID B;
     Cid \<leftarrow> getID C;
     Some (nScriptIntrinsicBLAS_Single rs self RsBlas_ssyr2k (trans_val Trans) 0 0 (uplo_val Uplo) 0 0 CdX K
       alpha Aid Bid beta Cid 0 0 0 0) }"

definition DSYR2K :: "bool \<Rightarrow> nat \<Rightarrow> BRS \<Rightarrow> RsBlasUplo \<Rightarrow> RsBlasTranspose \<Rightarrow> u64 \<Rightarrow> CAllocation option \<Rightarrow>
    CAllocation option \<Rightarrow> u64 \<Rightarrow> CAllocation option \<Rightarrow> BRS option" where
  DSYR2K_def [blas_method]: "DSYR2K lp64 self rs Uplo Trans alpha A B beta C = do {
     (rs, e) \<leftarrow> element_of lp64 rs ''F64'';
     rs \<leftarrow> validateSYR2K rs e Trans A B C;
     K \<leftarrow> (if Trans \<noteq> RsBlasNoTrans then dimY A else dimX A);
     CdX \<leftarrow> dimX C;
     Aid \<leftarrow> getID A;
     Bid \<leftarrow> getID B;
     Cid \<leftarrow> getID C;
     Some (nScriptIntrinsicBLAS_Double rs self RsBlas_dsyr2k (trans_val Trans) 0 0 (uplo_val Uplo) 0 0 CdX K
       alpha Aid Bid beta Cid 0 0 0 0) }"

definition CSYR2K :: "bool \<Rightarrow> nat \<Rightarrow> BRS \<Rightarrow> RsBlasUplo \<Rightarrow> RsBlasTranspose \<Rightarrow> (u32 \<times> u32) \<Rightarrow>
    CAllocation option \<Rightarrow> CAllocation option \<Rightarrow> (u32 \<times> u32) \<Rightarrow> CAllocation option \<Rightarrow> BRS option" where
  CSYR2K_def [blas_method]: "CSYR2K lp64 self rs Uplo Trans alpha A B beta C = do {
     (rs, e) \<leftarrow> element_of lp64 rs ''F32_2'';
     rs \<leftarrow> validateSYR2K rs e Trans A B C;
     K \<leftarrow> (if Trans \<noteq> RsBlasNoTrans then dimY A else dimX A);
     CdX \<leftarrow> dimX C;
     Aid \<leftarrow> getID A;
     Bid \<leftarrow> getID B;
     Cid \<leftarrow> getID C;
     Some (nScriptIntrinsicBLAS_Complex rs self RsBlas_csyr2k (trans_val Trans) 0 0 (uplo_val Uplo) 0 0 CdX K
       (fst alpha) (snd alpha) Aid Bid (fst beta) (snd beta) Cid 0 0 0 0) }"

definition ZSYR2K :: "bool \<Rightarrow> nat \<Rightarrow> BRS \<Rightarrow> RsBlasUplo \<Rightarrow> RsBlasTranspose \<Rightarrow> (u64 \<times> u64) \<Rightarrow>
    CAllocation option \<Rightarrow> CAllocation option \<Rightarrow> (u64 \<times> u64) \<Rightarrow> CAllocation option \<Rightarrow> BRS option" where
  ZSYR2K_def [blas_method]: "ZSYR2K lp64 self rs Uplo Trans alpha A B beta C = do {
     (rs, e) \<leftarrow> element_of lp64 rs ''F64_2'';
     rs \<leftarrow> validateSYR2K rs e Trans A B C;
     K \<leftarrow> (if Trans \<noteq> RsBlasNoTrans then dimY A else dimX A);
     CdX \<leftarrow> dimX C;
     Aid \<leftarrow> getID A;
     Bid \<leftarrow> getID B;
     Cid \<leftarrow> getID C;
     Some (nScriptIntrinsicBLAS_Z rs self RsBlas_zsyr2k (trans_val Trans) 0 0 (uplo_val Uplo) 0 0 CdX K (fst
       alpha) (snd alpha) Aid Bid (fst beta) (snd beta) Cid 0 0 0 0) }"

section \<open>Level 3: triangular matrices\<close>

definition STRMM :: "bool \<Rightarrow> nat \<Rightarrow> BRS \<Rightarrow> RsBlasSide \<Rightarrow> RsBlasUplo \<Rightarrow> RsBlasTranspose \<Rightarrow> RsBlasDiag \<Rightarrow> u32 \<Rightarrow>
    CAllocation option \<Rightarrow> CAllocation option \<Rightarrow> BRS option" where
  STRMM_def [blas_method]: "STRMM lp64 self rs Side Uplo TransA Diag alpha A B = do {
     (rs, e) \<leftarrow> element_of lp64 rs ''F32'';
     rs \<leftarrow> validateTRMM rs e Side TransA A B;
     BdY \<leftarrow> dimY B;
     BdX \<leftarrow> dimX B;
     Aid \<leftarrow> getID A;
     Bid \<leftarrow> getID B;
     Some (nScriptIntrinsicBLAS_Single rs self RsBlas_strmm (trans_val TransA) 0 (side_val Side) (uplo_val
       Uplo) (diag_val Diag) BdY BdX 0 alpha Aid Bid 0 0 0 0 0 0) }"

definition DTRMM :: "bool \<Rightarrow> nat \<Rightarrow> BRS \<Rightarrow> RsBlasSide \<Rightarrow> RsBlasUplo \<Rightarrow> RsBlasTranspose \<Rightarrow> RsBlasDiag \<Rightarrow> u64 \<Rightarrow>
    CAllocation option \<Rightarrow> CAllocation option \<Rightarrow> BRS option" where
  DTRMM_def [blas_method]: "DTRMM lp64 self rs Side Uplo TransA Diag alpha A B = do {
     (rs, e) \<leftarrow> element_of lp64 rs ''F64'';
     rs \<leftarrow> validateTRMM rs e Side TransA A B;
     BdY \<leftarrow> dimY B;
     BdX \<leftarrow> dimX B;
     Aid \<leftarrow> getID A;
     Bid \<leftarrow> getID B;
     Some (nScriptIntrinsicBLAS_Double rs self RsBlas_dtrmm (trans_val TransA) 0 (side_val Side) (uplo_val
       Uplo) (diag_val Diag) BdY BdX 0 alpha Aid Bid 0 0 0 0 0 0) }"

definition CTRMM :: "bool \<Rightarrow> nat \<Rightarrow> BRS \<Rightarrow> RsBlasSide \<Rightarrow> RsBlasUplo \<Rightarrow> RsBlasTranspose \<Rightarrow> RsBlasDiag \<Rightarrow>
    (u32 \<times> u32) \<Rightarrow> CAllocation option \<Rightarrow> CAllocation option \<Rightarrow> BRS option" where
  CTRMM_def [blas_method]: "CTRMM lp64 self rs Side Uplo TransA Diag alpha A B = do {
     (rs, e) \<leftarrow> element_of lp64 rs ''F32_2'';
     rs \<leftarrow> validateTRMM rs e Side TransA A B;
     BdY \<leftarrow> dimY B;
     BdX \<leftarrow> dimX B;
     Aid \<leftarrow> getID A;
     Bid \<leftarrow> getID B;
     Some (nScriptIntrinsicBLAS_Complex rs self RsBlas_ctrmm (trans_val TransA) 0 (side_val Side) (uplo_val
       Uplo) (diag_val Diag) BdY BdX 0 (fst alpha) (snd alpha) Aid Bid 0 0 0 0 0 0 0) }"

definition ZTRMM :: "bool \<Rightarrow> nat \<Rightarrow> BRS \<Rightarrow> RsBlasSide \<Rightarrow> RsBlasUplo \<Rightarrow> RsBlasTranspose \<Rightarrow> RsBlasDiag \<Rightarrow>
    (u64 \<times> u64) \<Rightarrow> CAllocation option \<Rightarrow> CAllocation option \<Rightarrow> BRS option" where
  ZTRMM_def [blas_method]: "ZTRMM lp64 self rs Side Uplo TransA Diag alpha A B = do {
     (rs, e) \<leftarrow> element_of lp64 rs ''F64_2'';
     rs \<leftarrow> validateTRMM rs e Side TransA A B;
     BdY \<leftarrow> dimY B;
     BdX \<leftarrow> dimX B;
     Aid \<leftarrow> getID A;
     Bid \<leftarrow> getID B;
     Some (nScriptIntrinsicBLAS_Z rs self RsBlas_ztrmm (trans_val TransA) 0 (side_val Side) (uplo_val Uplo)
       (diag_val Diag) BdY BdX 0 (fst alpha) (snd alpha) Aid Bid 0 0 0 0 0 0 0) }"

definition STRSM :: "bool \<Rightarrow> nat \<Rightarrow> BRS \<Rightarrow> RsBlasSide \<Rightarrow> RsBlasUplo \<Rightarrow> RsBlasTranspose \<Rightarrow> RsBlasDiag \<Rightarrow> u32 \<Rightarrow>
    CAllocation option \<Rightarrow> CAllocation option \<Rightarrow> BRS option" where
  STRSM_def [blas_method]: "STRSM lp64 self rs Side Uplo TransA Diag alpha A B = do {
     (rs, e) \<leftarrow> element_of lp64 rs ''F32'';
     rs \<leftarrow> validateTRSM rs e Side TransA A B;
     BdY \<leftarrow> dimY B;
     BdX \<leftarrow> dimX B;
     Aid \<leftarrow> getID A;
     Bid \<leftarrow> getID B;
     Some (nScriptIntrinsicBLAS_Single rs self RsBlas_strsm (trans_val TransA) 0 (side_val Side) (uplo_val
       Uplo) (diag_val Diag) BdY BdX 0 alpha Aid Bid 0 0 0 0 0 0) }"

definition DTRSM :: "bool \<Rightarrow> nat \<Rightarrow> BRS \<Rightarrow> RsBlasSide \<Rightarrow> RsBlasUplo \<Rightarrow> RsBlasTranspose \<Rightarrow> RsBlasDiag \<Rightarrow> u64 \<Rightarrow>
    CAllocation option \<Rightarrow> CAllocation option \<Rightarrow> BRS option" where
  DTRSM_def [blas_method]: "DTRSM lp64 self rs Side Uplo TransA Diag alpha A B = do {
     (rs, e) \<leftarrow> element_of lp64 rs ''F64'';
     rs \<leftarrow> validateTRSM rs e Side TransA A B;
     BdY \<leftarrow> dimY B;
     BdX \<leftarrow> dimX B;
     Aid \<leftarrow> getID A;
     Bid \<leftarrow> getID B;
     Some (nScriptIntrinsicBLAS_Double rs self RsBlas_dtrsm (trans_val TransA) 0 (side_val Side) (uplo_val
       Uplo) (diag_val Diag) BdY BdX 0 alpha Aid Bid 0 0 0 0 0 0) }"

definition CTRSM :: "bool \<Rightarrow> nat \<Rightarrow> BRS \<Rightarrow> RsBlasSide \<Rightarrow> RsBlasUplo \<Rightarrow> RsBlasTranspose \<Rightarrow> RsBlasDiag \<Rightarrow>
    (u32 \<times> u32) \<Rightarrow> CAllocation option \<Rightarrow> CAllocation option \<Rightarrow> BRS option" where
  CTRSM_def [blas_method]: "CTRSM lp64 self rs Side Uplo TransA Diag alpha A B = do {
     (rs, e) \<leftarrow> element_of lp64 rs ''F32_2'';
     rs \<leftarrow> validateTRSM rs e Side TransA A B;
     BdY \<leftarrow> dimY B;
     BdX \<leftarrow> dimX B;
     Aid \<leftarrow> getID A;
     Bid \<leftarrow> getID B;
     Some (nScriptIntrinsicBLAS_Complex rs self RsBlas_ctrsm (trans_val TransA) 0 (side_val Side) (uplo_val
       Uplo) (diag_val Diag) BdY BdX 0 (fst alpha) (snd alpha) Aid Bid 0 0 0 0 0 0 0) }"

definition ZTRSM :: "bool \<Rightarrow> nat \<Rightarrow> BRS \<Rightarrow> RsBlasSide \<Rightarrow> RsBlasUplo \<Rightarrow> RsBlasTranspose \<Rightarrow> RsBlasDiag \<Rightarrow>
    (u64 \<times> u64) \<Rightarrow> CAllocation option \<Rightarrow> CAllocation option \<Rightarrow> BRS option" where
  ZTRSM_def [blas_method]: "ZTRSM lp64 self rs Side Uplo TransA Diag alpha A B = do {
     (rs, e) \<leftarrow> element_of lp64 rs ''F64_2'';
     rs \<leftarrow> validateTRSM rs e Side TransA A B;
     BdY \<leftarrow> dimY B;
     BdX \<leftarrow> dimX B;
     Aid \<leftarrow> getID A;
     Bid \<leftarrow> getID B;
     Some (nScriptIntrinsicBLAS_Z rs self RsBlas_ztrsm (trans_val TransA) 0 (side_val Side) (uplo_val Uplo)
       (diag_val Diag) BdY BdX 0 (fst alpha) (snd alpha) Aid Bid 0 0 0 0 0 0 0) }"

section \<open>Level 3, complex only\<close>

definition CHEMM :: "bool \<Rightarrow> nat \<Rightarrow> BRS \<Rightarrow> RsBlasSide \<Rightarrow> RsBlasUplo \<Rightarrow> (u32 \<times> u32) \<Rightarrow> CAllocation option \<Rightarrow>
    CAllocation option \<Rightarrow> (u32 \<times> u32) \<Rightarrow> CAllocation option \<Rightarrow> BRS option" where
  CHEMM_def [blas_method]: "CHEMM lp64 self rs Side Uplo alpha A B beta C = do {
     (rs, e) \<leftarrow> element_of lp64 rs ''F32_2'';
     rs \<leftarrow> validateHEMM rs e Side A B C;
     CdY \<leftarrow> dimY C;
     CdX \<leftarrow> dimX C;
     Aid \<leftarrow> getID A;
     Bid \<leftarrow> getID B;
     Cid \<leftarrow> getID C;
     Some (nScriptIntrinsicBLAS_Complex rs self RsBlas_chemm 0 0 (side_val Side) (uplo_val Uplo) 0 CdY CdX 0
       (fst alpha) (snd alpha) Aid Bid (fst beta) (snd beta) Cid 0 0 0 0) }"

definition ZHEMM :: "bool \<Rightarrow> nat \<Rightarrow> BRS \<Rightarrow> RsBlasSide \<Rightarrow> RsBlasUplo \<Rightarrow> (u64 \<times> u64) \<Rightarrow> CAllocation option \<Rightarrow>
    CAllocation option \<Rightarrow> (u64 \<times> u64) \<Rightarrow> CAllocation option \<Rightarrow> BRS option" where
  ZHEMM_def [blas_method]: "ZHEMM lp64 self rs Side Uplo alpha A B beta C = do {
     (rs, e) \<leftarrow> element_of lp64 rs ''F64_2'';
     rs \<leftarrow> validateHEMM rs e Side A B C;
     CdY \<leftarrow> dimY C;
     CdX \<leftarrow> dimX C;
     Aid \<leftarrow> getID A;
     Bid \<leftarrow> getID B;
     Cid \<leftarrow> getID C;
     Some (nScriptIntrinsicBLAS_Z rs self RsBlas_zhemm 0 0 (side_val Side) (uplo_val Uplo) 0 CdY CdX 0 (fst
       alpha) (snd alpha) Aid Bid (fst beta) (snd beta) Cid 0 0 0 0) }"

definition CHERK :: "bool \<Rightarrow> nat \<Rightarrow> BRS \<Rightarrow> RsBlasUplo \<Rightarrow> RsBlasTranspose \<Rightarrow> u32 \<Rightarrow> CAllocation option \<Rightarrow> u32 \<Rightarrow>
    CAllocation option \<Rightarrow> BRS option" where
  CHERK_def [blas_method]: "CHERK lp64 self rs Uplo Trans alpha A beta C = do {
     (rs, e) \<leftarrow> element_of lp64 rs ''F32_2'';
     rs \<leftarrow> validateHERK rs e Trans A C;
     k \<leftarrow> (if Trans = RsBlasConjTrans then dimY A else dimX A);
     CdX \<leftarrow> dimX C;
     Aid \<leftarrow> getID A;
     Cid \<leftarrow> getID C;
     Some (nScriptIntrinsicBLAS_Complex rs self RsBlas_cherk (trans_val Trans) 0 0 (uplo_val Uplo) 0 0 CdX k
       alpha 0 Aid 0 beta 0 Cid 0 0 0 0) }"

definition ZHERK :: "bool \<Rightarrow> nat \<Rightarrow> BRS \<Rightarrow> RsBlasUplo \<Rightarrow> RsBlasTranspose \<Rightarrow> u64 \<Rightarrow> CAllocation option \<Rightarrow> u64 \<Rightarrow>
    CAllocation option \<Rightarrow> BRS option" where
  ZHERK_def [blas_method]: "ZHERK lp64 self rs Uplo Trans alpha A beta C = do {
     (rs, e) \<leftarrow> element_of lp64 rs ''F64_2'';
     rs \<leftarrow> validateHERK rs e Trans A C;
     k \<leftarrow> (if Trans = RsBlasConjTrans then dimY A else dimX A);
     CdX \<leftarrow> dimX C;
     Aid \<leftarrow> getID A;
     Cid \<leftarrow> getID C;
     Some (nScriptIntrinsicBLAS_Z rs self RsBlas_zherk (trans_val Trans) 0 0 (uplo_val Uplo) 0 0 CdX k alpha
       0 Aid 0 beta 0 Cid 0 0 0 0) }"

definition CHER2K :: "bool \<Rightarrow> nat \<Rightarrow> BRS \<Rightarrow> RsBlasUplo \<Rightarrow> RsBlasTranspose \<Rightarrow> (u32 \<times> u32) \<Rightarrow>
    CAllocation option \<Rightarrow> CAllocation option \<Rightarrow> u32 \<Rightarrow> CAllocation option \<Rightarrow> BRS option" where
  CHER2K_def [blas_method]: "CHER2K lp64 self rs Uplo Trans alpha A B beta C = do {
     (rs, e) \<leftarrow> element_of lp64 rs ''F32_2'';
     rs \<leftarrow> validateHER2K rs e Trans A B C;
     k \<leftarrow> (if Trans = RsBlasNoTrans then dimX A else dimY A);
     CdX \<leftarrow> dimX C;
     Aid \<leftarrow> getID A;
     Bid \<leftarrow> getID B;
     Cid \<leftarrow> getID C;
     Some (nScriptIntrinsicBLAS_Complex rs self RsBlas_cher2k (trans_val Trans) 0 0 (uplo_val Uplo) 0 0 CdX k
       (fst alpha) (snd alpha) Aid Bid beta 0 Cid 0 0 0 0) }"

definition ZHER2K :: "bool \<Rightarrow> nat \<Rightarrow> BRS \<Rightarrow> RsBlasUplo \<Rightarrow> RsBlasTranspose \<Rightarrow> (u64 \<times> u64) \<Rightarrow>
    CAllocation option \<Rightarrow> CAllocation option \<Rightarrow> u64 \<Rightarrow> CAllocation option \<Rightarrow> BRS option" where
  ZHER2K_def [blas_method]: "ZHER2K lp64 self rs Uplo Trans alpha A B beta C = do {
     (rs, e) \<leftarrow> element_of lp64 rs ''F64_2'';
     rs \<leftarrow> validateHER2K rs e Trans A B C;
     k \<leftarrow> (if Trans = RsBlasNoTrans then dimX A else dimY A);
     CdX \<leftarrow> dimX C;
     Aid \<leftarrow> getID A;
     Bid \<leftarrow> getID B;
     Cid \<leftarrow> getID C;
     Some (nScriptIntrinsicBLAS_Z rs self RsBlas_zher2k (trans_val Trans) 0 0 (uplo_val Uplo) 0 0 CdX k (fst
       alpha) (snd alpha) Aid Bid beta 0 Cid 0 0 0 0) }"

section \<open>Eight-bit product\<close>

definition BNNM :: "bool \<Rightarrow> nat \<Rightarrow> BRS \<Rightarrow> CAllocation option \<Rightarrow> int \<Rightarrow> CAllocation option \<Rightarrow> int \<Rightarrow>
    CAllocation option \<Rightarrow> int \<Rightarrow> int \<Rightarrow> BRS option" where
  BNNM_def [blas_method]: "BNNM lp64 self rs A a_offset B b_offset C c_offset c_mult = do {
     (rs, e) \<leftarrow> element_of lp64 rs ''U8'';
     rs \<leftarrow> validateL3 rs e (trans_val RsBlasNoTrans) (trans_val RsBlasTrans) 0 A B C;
     let rs = throw_if (a_offset < 0 \<or> a_offset > 255) rs RS_ERROR_INVALID_PARAMETER;
     let rs = throw_if (b_offset < 0 \<or> b_offset > 255) rs RS_ERROR_INVALID_PARAMETER;
     M \<leftarrow> dimY A;
     N \<leftarrow> dimY B;
     K \<leftarrow> dimX A;
     Aid \<leftarrow> getID A;
     Bid \<leftarrow> getID B;
     Cid \<leftarrow> getID C;
     Some (nScriptIntrinsicBLAS_BNNM rs self M N K Aid a_offset Bid b_offset Cid c_offset c_mult) }"

end
