(* ===== verification/Blas_Legal.thy ===== *)
theory Blas_Legal
  imports Blas_Api
begin

text \<open>
  When a command of the BLAS client is legal: what the argument checks establish, and what a function
  references beyond that; the step relation of a client that calls the methods in any order; and the
  invariant of the commands sent, with the two gaps that the checks leave.
\<close>

section \<open>Families of functions\<close>

definition gemv_fns :: "int set" where
  "gemv_fns = {RsBlas_sgemv, RsBlas_dgemv, RsBlas_cgemv, RsBlas_zgemv, RsBlas_sgbmv, RsBlas_dgbmv,
     RsBlas_cgbmv, RsBlas_zgbmv}"

definition trmv_fns :: "int set" where
  "trmv_fns = {RsBlas_strmv, RsBlas_dtrmv, RsBlas_ctrmv, RsBlas_ztrmv, RsBlas_stbmv, RsBlas_dtbmv,
     RsBlas_ctbmv, RsBlas_ztbmv, RsBlas_strsv, RsBlas_dtrsv, RsBlas_ctrsv, RsBlas_ztrsv, RsBlas_stbsv,
     RsBlas_dtbsv, RsBlas_ctbsv, RsBlas_ztbsv}"

definition tpmv_fns :: "int set" where
  "tpmv_fns = {RsBlas_stpmv, RsBlas_dtpmv, RsBlas_ctpmv, RsBlas_ztpmv, RsBlas_stpsv, RsBlas_dtpsv,
     RsBlas_ctpsv, RsBlas_ztpsv}"

definition symv_fns :: "int set" where
  "symv_fns = {RsBlas_ssymv, RsBlas_ssbmv, RsBlas_dsymv, RsBlas_dsbmv, RsBlas_chemv, RsBlas_chbmv,
     RsBlas_zhemv, RsBlas_zhbmv}"

definition spmv_fns :: "int set" where
  "spmv_fns = {RsBlas_sspmv, RsBlas_dspmv, RsBlas_chpmv, RsBlas_zhpmv}"

definition ger_fns :: "int set" where
  "ger_fns = {RsBlas_sger, RsBlas_dger, RsBlas_cgeru, RsBlas_cgerc, RsBlas_zgeru, RsBlas_zgerc}"

definition syr_fns :: "int set" where
  "syr_fns = {RsBlas_ssyr, RsBlas_dsyr}"

definition her_fns :: "int set" where
  "her_fns = {RsBlas_cher, RsBlas_zher}"

definition spr_fns :: "int set" where
  "spr_fns = {RsBlas_sspr, RsBlas_dspr}"

definition hpr_fns :: "int set" where
  "hpr_fns = {RsBlas_chpr, RsBlas_zhpr}"

definition syr2_fns :: "int set" where
  "syr2_fns = {RsBlas_ssyr2, RsBlas_dsyr2, RsBlas_cher2, RsBlas_zher2}"

definition spr2_fns :: "int set" where
  "spr2_fns = {RsBlas_sspr2, RsBlas_dspr2, RsBlas_chpr2, RsBlas_zhpr2}"

definition gemm_fns :: "int set" where
  "gemm_fns = {RsBlas_sgemm, RsBlas_dgemm, RsBlas_cgemm, RsBlas_zgemm}"

definition symm_fns :: "int set" where
  "symm_fns = {RsBlas_ssymm, RsBlas_dsymm, RsBlas_csymm, RsBlas_zsymm, RsBlas_chemm, RsBlas_zhemm}"

definition syrk_fns :: "int set" where
  "syrk_fns = {RsBlas_ssyrk, RsBlas_dsyrk, RsBlas_csyrk, RsBlas_zsyrk, RsBlas_cherk, RsBlas_zherk}"

definition syr2k_fns :: "int set" where
  "syr2k_fns = {RsBlas_ssyr2k, RsBlas_dsyr2k, RsBlas_csyr2k, RsBlas_zsyr2k}"

definition her2k_fns :: "int set" where
  "her2k_fns = {RsBlas_cher2k, RsBlas_zher2k}"

definition trmm_fns :: "int set" where
  "trmm_fns = {RsBlas_strmm, RsBlas_dtrmm, RsBlas_ctrmm, RsBlas_ztrmm, RsBlas_strsm, RsBlas_dtrsm,
     RsBlas_ctrsm, RsBlas_ztrsm}"

definition bnnm_fns :: "int set" where
  "bnnm_fns = {RsBlas_bnnm}"

definition single_fns :: "int set" where
  "single_fns = {RsBlas_sgemv, RsBlas_sgbmv, RsBlas_strmv, RsBlas_stbmv, RsBlas_stpmv, RsBlas_strsv,
     RsBlas_stbsv, RsBlas_stpsv, RsBlas_ssymv, RsBlas_ssbmv, RsBlas_sspmv, RsBlas_sger, RsBlas_ssyr,
     RsBlas_sspr, RsBlas_ssyr2, RsBlas_sspr2, RsBlas_sgemm, RsBlas_ssymm, RsBlas_ssyrk, RsBlas_ssyr2k,
     RsBlas_strmm, RsBlas_strsm}"

definition double_fns :: "int set" where
  "double_fns = {RsBlas_dgemv, RsBlas_dgbmv, RsBlas_dtrmv, RsBlas_dtbmv, RsBlas_dtpmv, RsBlas_dtrsv,
     RsBlas_dtbsv, RsBlas_dtpsv, RsBlas_dsymv, RsBlas_dsbmv, RsBlas_dspmv, RsBlas_dger, RsBlas_dsyr,
     RsBlas_dspr, RsBlas_dsyr2, RsBlas_dspr2, RsBlas_dgemm, RsBlas_dsymm, RsBlas_dsyrk, RsBlas_dsyr2k,
     RsBlas_dtrmm, RsBlas_dtrsm}"

definition complex_fns :: "int set" where
  "complex_fns = {RsBlas_cgemv, RsBlas_cgbmv, RsBlas_ctrmv, RsBlas_ctbmv, RsBlas_ctpmv, RsBlas_ctrsv,
     RsBlas_ctbsv, RsBlas_ctpsv, RsBlas_chemv, RsBlas_chbmv, RsBlas_chpmv, RsBlas_cgeru, RsBlas_cgerc,
     RsBlas_cher, RsBlas_chpr, RsBlas_cher2, RsBlas_chpr2, RsBlas_cgemm, RsBlas_csymm, RsBlas_csyrk,
     RsBlas_csyr2k, RsBlas_ctrmm, RsBlas_ctrsm, RsBlas_chemm, RsBlas_cherk, RsBlas_cher2k}"

definition zcomplex_fns :: "int set" where
  "zcomplex_fns = {RsBlas_zgemv, RsBlas_zgbmv, RsBlas_ztrmv, RsBlas_ztbmv, RsBlas_ztpmv, RsBlas_ztrsv,
     RsBlas_ztbsv, RsBlas_ztpsv, RsBlas_zhemv, RsBlas_zhbmv, RsBlas_zhpmv, RsBlas_zgeru, RsBlas_zgerc,
     RsBlas_zher, RsBlas_zhpr, RsBlas_zher2, RsBlas_zhpr2, RsBlas_zgemm, RsBlas_zsymm, RsBlas_zsyrk,
     RsBlas_zsyr2k, RsBlas_ztrmm, RsBlas_ztrsm, RsBlas_zhemm, RsBlas_zherk, RsBlas_zher2k}"

definition func_bytes :: "int \<Rightarrow> u64" where
  "func_bytes f = (if f \<in> single_fns then 4 else if f \<in> double_fns then 8 else if f \<in> complex_fns then 8
     else if f \<in> zcomplex_fns then 16 else 1)"

text \<open>The functions on band matrices.\<close>

definition gbmv_fns :: "int set" where
  "gbmv_fns = {RsBlas_sgbmv, RsBlas_dgbmv, RsBlas_cgbmv, RsBlas_zgbmv}"

definition tbmv_fns :: "int set" where
  "tbmv_fns = {RsBlas_stbmv, RsBlas_dtbmv, RsBlas_ctbmv, RsBlas_ztbmv, RsBlas_stbsv, RsBlas_dtbsv,
     RsBlas_ctbsv, RsBlas_ztbsv, RsBlas_ssbmv, RsBlas_dsbmv, RsBlas_chbmv, RsBlas_zhbmv}"

lemmas fns_defs = gbmv_fns_def tbmv_fns_def gemv_fns_def trmv_fns_def tpmv_fns_def symv_fns_def spmv_fns_def ger_fns_def syr_fns_def
  her_fns_def spr_fns_def hpr_fns_def syr2_fns_def spr2_fns_def gemm_fns_def symm_fns_def syrk_fns_def
  syr2k_fns_def her2k_fns_def trmm_fns_def bnnm_fns_def single_fns_def double_fns_def complex_fns_def zcomplex_fns_def

section \<open>Legal commands\<close>

text \<open>
  \<open>T\<close> maps a handle to the type of the allocation behind it. A row-major matrix, a strided vector
  and a packed triangle lie inside an allocation whose cells have \<open>s\<close> bytes.
\<close>

definition in_mat :: "(nat \<Rightarrow> CType option) \<Rightarrow> u64 \<Rightarrow> nat \<Rightarrow> int \<Rightarrow> int \<Rightarrow> bool" where
  "in_mat T s h r c \<longleftrightarrow> (\<exists>t. T h = Some t \<and> ceSizeBytes (ctElement t) = s \<and>
     r \<le> uint (ctDimY t) \<and> c \<le> uint (ctDimX t))"

definition in_vec :: "(nat \<Rightarrow> CType option) \<Rightarrow> u64 \<Rightarrow> nat \<Rightarrow> int \<Rightarrow> int \<Rightarrow> bool" where
  "in_vec T s h n inc \<longleftrightarrow> 0 < inc \<and> (\<exists>t. T h = Some t \<and> ceSizeBytes (ctElement t) = s \<and>
     (\<forall>i. 0 \<le> i \<and> i < n \<longrightarrow> i * inc < uint (ctDimX t)))"

definition in_packed :: "(nat \<Rightarrow> CType option) \<Rightarrow> u64 \<Rightarrow> nat \<Rightarrow> int \<Rightarrow> bool" where
  "in_packed T s h n \<longleftrightarrow> (\<exists>t. T h = Some t \<and> ceSizeBytes (ctElement t) = s \<and>
     n * (n + 1) div 2 \<le> uint (ctDimX t))"

definition in_tmat :: "(nat \<Rightarrow> CType option) \<Rightarrow> u64 \<Rightarrow> nat \<Rightarrow> int \<Rightarrow> int \<Rightarrow> int \<Rightarrow> bool" where
  "in_tmat T s h tr r c \<longleftrightarrow>
     (if tr = trans_val RsBlasNoTrans then in_mat T s h r c else in_mat T s h c r)"

definition in_side :: "(nat \<Rightarrow> CType option) \<Rightarrow> u64 \<Rightarrow> nat \<Rightarrow> int \<Rightarrow> int \<Rightarrow> int \<Rightarrow> bool" where
  "in_side T s h side m n \<longleftrightarrow> (if side = side_val RsBlasLeft then in_mat T s h m m else in_mat T s h n n)"

text \<open>
  What the argument checks establish for each family, on the call and the three handles; the cells of
  the allocations have the size \<open>s\<close> of the function's precision. Those of \<open>syr2k_fns\<close> are stated for the
  two transpositions that its check distinguishes.
\<close>

definition call_of :: "BlasCmd \<Rightarrow> u64 \<Rightarrow> int set \<Rightarrow> bool" where
  "call_of c s F \<longleftrightarrow> bFunc (cCall c) \<in> F \<and> func_bytes (bFunc (cCall c)) = s"

abbreviation "cM c \<equiv> bM (cCall c)"
abbreviation "cN c \<equiv> bN (cCall c)"
abbreviation "cK c \<equiv> bK (cCall c)"
abbreviation "cIncX c \<equiv> bIncX (cCall c)"
abbreviation "cIncY c \<equiv> bIncY (cCall c)"
abbreviation "cTransA c \<equiv> bTransA (cCall c)"
abbreviation "cTransB c \<equiv> bTransB (cCall c)"
abbreviation "cSide c \<equiv> bSide (cCall c)"

inductive blas_checked :: "(nat \<Rightarrow> CType option) \<Rightarrow> BlasCmd \<Rightarrow> bool" for T where
  gemv: "call_of c s gemv_fns \<Longrightarrow> in_mat T s (cA c) (cM c) (cN c) \<Longrightarrow> 0 \<le> bKL (cCall c) \<Longrightarrow> 0 \<le> bKU (cCall c) \<Longrightarrow>
    (if cTransA c = trans_val RsBlasNoTrans
     then in_vec T s (cB c) (cN c) (cIncX c) \<and> in_vec T s (cC c) (cM c) (cIncY c)
     else in_vec T s (cB c) (cM c) (cIncX c) \<and> in_vec T s (cC c) (cN c) (cIncY c)) \<Longrightarrow> blas_checked T c"
| trmv: "call_of c s trmv_fns \<Longrightarrow> in_mat T s (cA c) (cN c) (cN c) \<Longrightarrow> in_vec T s (cB c) (cN c) (cIncX c) \<Longrightarrow>
    cC c = 0 \<Longrightarrow> 0 \<le> cK c \<Longrightarrow> blas_checked T c"
| tpmv: "call_of c s tpmv_fns \<Longrightarrow> in_packed T s (cA c) (cN c) \<Longrightarrow> in_vec T s (cB c) (cN c) (cIncX c) \<Longrightarrow>
    cC c = 0 \<Longrightarrow> blas_checked T c"
| symv: "call_of c s symv_fns \<Longrightarrow> in_mat T s (cA c) (cN c) (cN c) \<Longrightarrow> in_vec T s (cB c) (cN c) (cIncX c) \<Longrightarrow>
    in_vec T s (cC c) (cN c) (cIncY c) \<Longrightarrow> 0 \<le> cK c \<Longrightarrow> blas_checked T c"
| spmv: "call_of c s spmv_fns \<Longrightarrow> in_packed T s (cA c) (cN c) \<Longrightarrow> in_vec T s (cB c) (cN c) (cIncX c) \<Longrightarrow>
    in_vec T s (cC c) (cN c) (cIncY c) \<Longrightarrow> blas_checked T c"
| ger: "call_of c s ger_fns \<Longrightarrow> in_vec T s (cA c) (cM c) (cIncX c) \<Longrightarrow> in_vec T s (cB c) (cN c) (cIncY c) \<Longrightarrow>
    in_mat T s (cC c) (cM c) (cN c) \<Longrightarrow> blas_checked T c"
| syr: "call_of c s syr_fns \<Longrightarrow> in_vec T s (cA c) (cN c) (cIncX c) \<Longrightarrow> in_mat T s (cB c) (cN c) (cN c) \<Longrightarrow>
    cC c = 0 \<Longrightarrow> blas_checked T c"
| her: "call_of c s her_fns \<Longrightarrow> in_vec T s (cA c) (cN c) (cIncX c) \<Longrightarrow> cB c = 0 \<Longrightarrow>
    in_mat T s (cC c) (cN c) (cN c) \<Longrightarrow> blas_checked T c"
| spr: "call_of c s spr_fns \<Longrightarrow> in_vec T s (cA c) (cN c) (cIncX c) \<Longrightarrow> in_packed T s (cB c) (cN c) \<Longrightarrow>
    cC c = 0 \<Longrightarrow> blas_checked T c"
| hpr: "call_of c s hpr_fns \<Longrightarrow> in_vec T s (cA c) (cN c) (cIncX c) \<Longrightarrow> cB c = 0 \<Longrightarrow>
    in_packed T s (cC c) (cN c) \<Longrightarrow> blas_checked T c"
| syr2: "call_of c s syr2_fns \<Longrightarrow> in_vec T s (cA c) (cN c) (cIncX c) \<Longrightarrow> in_vec T s (cB c) (cN c) (cIncY c) \<Longrightarrow>
    in_mat T s (cC c) (cN c) (cN c) \<Longrightarrow> blas_checked T c"
| spr2: "call_of c s spr2_fns \<Longrightarrow> in_vec T s (cA c) (cN c) (cIncX c) \<Longrightarrow> in_vec T s (cB c) (cN c) (cIncY c) \<Longrightarrow>
    in_packed T s (cC c) (cN c) \<Longrightarrow> blas_checked T c"
| gemm: "call_of c s gemm_fns \<Longrightarrow> in_tmat T s (cA c) (cTransA c) (cM c) (cK c) \<Longrightarrow>
    in_tmat T s (cB c) (cTransB c) (cK c) (cN c) \<Longrightarrow> in_mat T s (cC c) (cM c) (cN c) \<Longrightarrow> blas_checked T c"
| symm: "call_of c s symm_fns \<Longrightarrow> in_side T s (cA c) (cSide c) (cM c) (cN c) \<Longrightarrow>
    in_mat T s (cB c) (cM c) (cN c) \<Longrightarrow> in_mat T s (cC c) (cM c) (cN c) \<Longrightarrow> blas_checked T c"
| syrk: "call_of c s syrk_fns \<Longrightarrow> in_tmat T s (cA c) (cTransA c) (cN c) (cK c) \<Longrightarrow> cB c = 0 \<Longrightarrow>
    in_mat T s (cC c) (cN c) (cN c) \<Longrightarrow> blas_checked T c"
| syr2k: "call_of c s syr2k_fns \<Longrightarrow> (cTransA c \<noteq> trans_val RsBlasConjTrans \<longrightarrow>
    in_tmat T s (cA c) (cTransA c) (cN c) (cK c) \<and> in_tmat T s (cB c) (cTransA c) (cN c) (cK c)) \<Longrightarrow>
    in_mat T s (cC c) (cN c) (cN c) \<Longrightarrow> blas_checked T c"
| her2k: "call_of c s her2k_fns \<Longrightarrow> in_tmat T s (cA c) (cTransA c) (cN c) (cK c) \<Longrightarrow>
    in_tmat T s (cB c) (cTransA c) (cN c) (cK c) \<Longrightarrow> in_mat T s (cC c) (cN c) (cN c) \<Longrightarrow> blas_checked T c"
| trmm: "call_of c s trmm_fns \<Longrightarrow> in_side T s (cA c) (cSide c) (cM c) (cN c) \<Longrightarrow>
    in_mat T s (cB c) (cM c) (cN c) \<Longrightarrow> cC c = 0 \<Longrightarrow> blas_checked T c"
| bnnm: "call_of c s bnnm_fns \<Longrightarrow> in_mat T s (cA c) (cM c) (cK c) \<Longrightarrow> in_mat T s (cB c) (cN c) (cK c) \<Longrightarrow>
    in_mat T s (cC c) (cM c) (cN c) \<Longrightarrow> blas_checked T c"

text \<open>
  A command is legal when everything it references lies inside its allocations. Beyond the checks, a
  function on a band matrix references the rows of \<open>A\<close> in \<open>KL + KU + 1\<close> or \<open>K + 1\<close> columns, as
  \<^verbatim>\<open>rsCppStructs.h\<close> documents, and a rank-\<open>2k\<close> update its two operands whatever the transposition.
\<close>

definition blas_legal :: "(nat \<Rightarrow> CType option) \<Rightarrow> BlasCmd \<Rightarrow> bool" where
  "blas_legal T c \<longleftrightarrow> blas_checked T c \<and> (let s = func_bytes (bFunc (cCall c)) in
     (bFunc (cCall c) \<in> gbmv_fns \<longrightarrow> in_mat T s (cA c) (cM c) (bKL (cCall c) + bKU (cCall c) + 1)) \<and>
     (bFunc (cCall c) \<in> tbmv_fns \<longrightarrow> in_mat T s (cA c) (cN c) (cK c + 1)) \<and>
     (bFunc (cCall c) \<in> syr2k_fns \<longrightarrow> in_tmat T s (cA c) (cTransA c) (cN c) (cK c) \<and>
        in_tmat T s (cB c) (cTransA c) (cN c) (cK c)))"

text \<open>
  The commands whose operands the methods do not check enough: bands wider than the matrix, and
  \<open>SYR2K\<close> with a conjugate transpose.
\<close>

definition blas_unchecked :: "BlasCmd \<Rightarrow> bool" where
  "blas_unchecked c \<longleftrightarrow> bFunc (cCall c) \<in> gbmv_fns \<and> cN c < bKL (cCall c) + bKU (cCall c) + 1 \<or>
     bFunc (cCall c) \<in> tbmv_fns \<and> cN c < cK c + 1 \<or>
     bFunc (cCall c) \<in> syr2k_fns \<and> cTransA c = trans_val RsBlasConjTrans"

lemma in_mat_cols: "in_mat T s h r c \<Longrightarrow> c' \<le> c \<Longrightarrow> in_mat T s h r c'"
  by (auto simp: in_mat_def)

lemma checked_bands:
  assumes "blas_checked T c"
  shows "bFunc (cCall c) \<in> gbmv_fns \<Longrightarrow> in_mat T (func_bytes (bFunc (cCall c))) (cA c) (cM c) (cN c)"
    and "bFunc (cCall c) \<in> tbmv_fns \<Longrightarrow> in_mat T (func_bytes (bFunc (cCall c))) (cA c) (cN c) (cN c)"
    and "bFunc (cCall c) \<in> syr2k_fns \<Longrightarrow> cTransA c \<noteq> trans_val RsBlasConjTrans \<Longrightarrow>
      in_tmat T (func_bytes (bFunc (cCall c))) (cA c) (cTransA c) (cN c) (cK c) \<and>
      in_tmat T (func_bytes (bFunc (cCall c))) (cB c) (cTransA c) (cN c) (cK c)"
  using assms by (cases rule: blas_checked.cases; auto simp: call_of_def fns_defs blas_enum)+

lemma checked_legal: "blas_checked T c \<Longrightarrow> blas_unchecked c \<or> blas_legal T c"
  using checked_bands [of T c]
  by (auto simp: blas_legal_def blas_unchecked_def Let_def not_less intro: in_mat_cols)

section \<open>The predefined elements\<close>

text \<open>
  The client caches its predefined elements by name; the BLAS methods use five of them. Objects have
  an identity, and an element that an allocation uses is either in the cache or different from all
  of those.
\<close>

definition blas_names :: "string list" where
  "blas_names = [''F32'', ''F64'', ''F32_2'', ''F64_2'', ''U8'']"

definition name_bytes :: "string \<Rightarrow> u64" where
  "name_bytes n = (if n = ''F32'' then 4 else if n = ''F64'' then 8 else if n = ''F32_2'' then 8
     else if n = ''F64_2'' then 16 else 1)"

definition elems_ok :: "BRS \<Rightarrow> bool" where
  "elems_ok rs \<longleftrightarrow> (\<forall>n e. mElems rs n = Some e \<longrightarrow> ceThis e < mNextThis rs \<and>
     (n \<in> set blas_names \<longrightarrow> ceSizeBytes e = name_bytes n))"

definition known :: "BRS \<Rightarrow> CElement \<Rightarrow> bool" where
  "known rs e \<longleftrightarrow> ceThis e < mNextThis rs \<and> (\<forall>n e'. mElems rs n = Some e' \<and> ceThis e' = ceThis e \<longrightarrow> e' = e)"

text \<open>An allocation the application may pass: its handle is of its type, and its element is known.\<close>

definition client :: "(nat \<Rightarrow> CType option) \<Rightarrow> BRS \<Rightarrow> CAllocation option \<Rightarrow> bool" where
  "client T rs A \<longleftrightarrow> (\<forall>a. A = Some a \<longrightarrow> T (caID a) = Some (caType a) \<and> known rs (ctElement (caType a)))"

definition blas_inv :: "(nat \<Rightarrow> CType option) \<Rightarrow> BRS \<Rightarrow> bool" where
  "blas_inv T rs \<longleftrightarrow> elems_ok rs \<and> (\<forall>c \<in> set (mForEach rs). blas_checked T c)"

lemma tables:
  "map_of user_table ''F32'' = Some RS_TYPE_FLOAT_32" "map_of user_table ''F64'' = Some RS_TYPE_FLOAT_64"
  "map_of user_table ''U8'' = Some RS_TYPE_UNSIGNED_8"
  "map_of user_table ''F32_2'' = None" "map_of user_table ''F64_2'' = None"
  "map_of pixel_table ''F32_2'' = None" "map_of pixel_table ''F64_2'' = None"
  "map_of vector_table ''F32_2'' = Some (RS_TYPE_FLOAT_32, 2)"
  "map_of vector_table ''F64_2'' = Some (RS_TYPE_FLOAT_64, 2)"
  by (simp_all add: user_table_def pixel_table_def vector_table_def)

lemma new_scalar_eq:
  assumes "new_scalar lp64 rs dt dk norm sz = Some (rs', e)"
  shows "\<exists>h i. rs' = rs\<lparr>rsContext := h, mNextThis := Suc (mNextThis rs)\<rparr> \<and>
    e = Element_scalar (mNextThis rs) i dt dk norm sz"
  using assms by (auto simp: new_scalar_def Let_def)

lemma scalar_sel:
  "ceThis (Element_scalar this i dt dk norm sz) = this"
  "ceSizeBytes (Element_scalar this i RS_TYPE_FLOAT_32 dk norm 1) = 4"
  "ceSizeBytes (Element_scalar this i RS_TYPE_FLOAT_64 dk norm 1) = 8"
  "ceSizeBytes (Element_scalar this i RS_TYPE_UNSIGNED_8 dk norm 1) = 1"
  "ceSizeBytes (Element_scalar this i RS_TYPE_FLOAT_32 dk norm 2) = 8"
  "ceSizeBytes (Element_scalar this i RS_TYPE_FLOAT_64 dk norm 2) = 16"
  by (simp_all add: Element_scalar_def GetSizeInBytesForType_def Let_def)

lemma scalar_bytes:
  assumes "(dt, sz, n) \<in> {(RS_TYPE_FLOAT_32, 1, ''F32''), (RS_TYPE_FLOAT_64, 1, ''F64''), (RS_TYPE_UNSIGNED_8, 1, ''U8''),
      (RS_TYPE_FLOAT_32, 2, ''F32_2''), (RS_TYPE_FLOAT_64, 2, ''F64_2'')}"
  shows "ceSizeBytes (Element_scalar this i dt dk norm sz) = name_bytes n"
  using assms
  by (elim insertE emptyE; simp only: prod.inject) (simp_all add: scalar_sel name_bytes_def)

lemma predefined_new:
  assumes "predefined lp64 rs n = Some (rs', Some e)" and "mElems rs n = None" and "n \<in> set blas_names"
  shows "\<exists>h i dt sz. rs' = rs\<lparr>rsContext := h, mNextThis := Suc (mNextThis rs), mElems := (mElems rs)(n := Some e)\<rparr> \<and>
    e = Element_scalar (mNextThis rs) i dt RS_KIND_USER False sz \<and>
    (dt, sz, n) \<in> {(RS_TYPE_FLOAT_32, 1, ''F32''), (RS_TYPE_FLOAT_64, 1, ''F64''), (RS_TYPE_UNSIGNED_8, 1, ''U8''),
      (RS_TYPE_FLOAT_32, 2, ''F32_2''), (RS_TYPE_FLOAT_64, 2, ''F64_2'')}"
proof -
  consider "n = ''F32''" | "n = ''F64''" | "n = ''U8''" | "n = ''F32_2''" | "n = ''F64_2''"
    using assms(3) by (auto simp: blas_names_def)
  then show ?thesis
  proof cases
    case 1
    with assms(1,2) show ?thesis
      by (auto simp: predefined_def tables createUser_def dest!: new_scalar_eq)
  qed (use assms(1,2) in \<open>auto simp: predefined_def tables createUser_def createVector_def dest!: new_scalar_eq\<close>)
qed

lemma element_of_cases:
  assumes "element_of lp64 rs n = Some (rs', e)" and "n \<in> set blas_names"
  shows "rs' = rs \<and> mElems rs n = Some e \<or>
    mElems rs n = None \<and> ceThis e = mNextThis rs \<and> ceSizeBytes e = name_bytes n \<and>
      (\<exists>h. rs' = rs\<lparr>rsContext := h, mNextThis := Suc (mNextThis rs), mElems := (mElems rs)(n := Some e)\<rparr>)"
proof (cases "mElems rs n")
  case None
  have "predefined lp64 rs n = Some (rs', Some e)"
    using assms(1) by (auto simp: element_of_def)
  from predefined_new [OF this None assms(2)] obtain h i dt sz where
    r: "rs' = rs\<lparr>rsContext := h, mNextThis := Suc (mNextThis rs), mElems := (mElems rs)(n := Some e)\<rparr>"
    and e: "e = Element_scalar (mNextThis rs) i dt RS_KIND_USER False sz"
    and d: "(dt, sz, n) \<in> {(RS_TYPE_FLOAT_32, 1, ''F32''), (RS_TYPE_FLOAT_64, 1, ''F64''), (RS_TYPE_UNSIGNED_8, 1, ''U8''),
      (RS_TYPE_FLOAT_32, 2, ''F32_2''), (RS_TYPE_FLOAT_64, 2, ''F64_2'')}"
    by (elim exE conjE) (rule that; assumption)
  have "ceThis e = mNextThis rs" "ceSizeBytes e = name_bytes n"
    using scalar_bytes [OF d, of "mNextThis rs" i RS_KIND_USER False, folded e] unfolding e
    by (simp_all only: scalar_sel(1))
  then show ?thesis
    using None r by blast
next
  case (Some a)
  with assms show ?thesis
    by (auto simp: element_of_def predefined_def)
qed

lemma element_of_ok:
  assumes "element_of lp64 rs n = Some (rs', e)" and "n \<in> set blas_names" and "blas_inv T rs"
  shows "blas_inv T rs'" and "ceSizeBytes e = name_bytes n" and "mCurrentError rs' = mCurrentError rs"
    and "mForEach rs' = mForEach rs"
    and "client T rs A \<Longrightarrow> client T rs' A"
    and "client T rs (Some a) \<Longrightarrow> isCompatible (ctElement (caType a)) e \<Longrightarrow>
      ceSizeBytes (ctElement (caType a)) = name_bytes n"
proof -
  note c = element_of_cases [OF assms(1,2)]
  show "blas_inv T rs'" "ceSizeBytes e = name_bytes n" "mCurrentError rs' = mCurrentError rs"
      "mForEach rs' = mForEach rs"
    using c assms(2,3) by (auto simp: blas_inv_def elems_ok_def less_Suc_eq split: if_splits)
  show "client T rs A \<Longrightarrow> client T rs' A"
    using c by (auto simp: client_def known_def split: if_splits)
  show "client T rs (Some a) \<Longrightarrow> isCompatible (ctElement (caType a)) e \<Longrightarrow>
      ceSizeBytes (ctElement (caType a)) = name_bytes n"
    using c assms(2,3) by (auto simp: client_def known_def isCompatible_def blas_inv_def elems_ok_def split: if_splits)
qed

section \<open>From a passed check to a legal command\<close>

text \<open>The allocation behind a pointer, after the check of its element.\<close>

definition fits :: "(nat \<Rightarrow> CType option) \<Rightarrow> u64 \<Rightarrow> CElement \<Rightarrow> CAllocation option \<Rightarrow> bool" where
  "fits T s e A \<longleftrightarrow> (\<forall>a. A = Some a \<and> isCompatible (ctElement (caType a)) e \<longrightarrow>
     T (caID a) = Some (caType a) \<and> ceSizeBytes (ctElement (caType a)) = s)"

lemma client_fits:
  assumes "element_of lp64 rs n = Some (rs', e)" and "n \<in> set blas_names" and "blas_inv T rs" and "client T rs A"
  shows "fits T (name_bytes n) e A"
  using element_of_ok(6) [OF assms(1-3)] assms(4) by (auto simp: fits_def client_def)

lemma sint_le_uint: "sint (w :: u32) \<le> uint w"
  using signed_take_bit_int_less_eq_self_iff [of 31 "uint w"] uint_ge_0 [of w] by (simp add: sint_uint)

lemma mat_in:
  assumes "mat_ok e A r c" "fits T s e A" "getID A = Some h"
  shows "in_mat T s h r c"
  using assms sint_le_uint by (auto simp: mat_ok_def fits_def in_mat_def)

lemma mat_at:
  assumes "isCompatible (ctElement (caType a)) e" and "fits T s e (Some a)"
    and "sint (ctDimY (caType a)) = r" and "sint (ctDimX (caType a)) = c"
  shows "in_mat T s (caID a) r c"
  using assms sint_le_uint by (auto simp: fits_def in_mat_def)

lemma mat_square:
  assumes "isCompatible (ctElement (caType a)) e" and "fits T s e (Some a)" and "ctDimY (caType a) = ctDimX (caType a)"
  shows "in_mat T s (caID a) (sint (ctDimX (caType a))) (sint (ctDimX (caType a)))"
  using assms by (intro mat_at) simp_all

lemma vec_in:
  assumes "vec_ok e X n inc" "fits T s e X" "getID X = Some h"
  shows "in_vec T s h n inc"
proof -
  obtain x where x: "X = Some x" "0 < inc" "sint (ctDimX (caType x)) = 1 + (n - 1) * inc"
      "T h = Some (caType x)" "ceSizeBytes (ctElement (caType x)) = s"
    using assms by (auto simp: vec_ok_def fits_def)
  have "i * inc < uint (ctDimX (caType x))" if "0 \<le> i" "i < n" for i
  proof -
    have "i * inc \<le> (n - 1) * inc"
      using that x(2) by (intro mult_right_mono) simp_all
    then show ?thesis
      using x(3) sint_le_uint [of "ctDimX (caType x)"] by linarith
  qed
  then show ?thesis
    using x by (auto simp: in_vec_def)
qed

lemma packed_in:
  assumes "packed_ok e A n" "fits T s e A" "getID A = Some h"
  shows "in_packed T s h n"
proof -
  obtain a where "A = Some a" "isCompatible (ctElement (caType a)) e" "sint (ctDimX (caType a)) = n * (n + 1) div 2"
    using assms(1) by (auto simp: packed_ok_def)
  then show ?thesis
    using assms(2,3) sint_le_uint [of "ctDimX (caType a)"] by (auto simp: fits_def in_packed_def)
qed

text \<open>
  What a method does to the state: it keeps the invariant, and once there is an error it sends nothing
  and the error stays.
\<close>

definition blas_ok :: "(nat \<Rightarrow> CType option) \<Rightarrow> BRS \<Rightarrow> BRS \<Rightarrow> bool" where
  "blas_ok T rs rs' \<longleftrightarrow> blas_inv T rs' \<and>
     (mCurrentError rs \<noteq> RS_SUCCESS \<longrightarrow> mForEach rs' = mForEach rs \<and> mCurrentError rs' = mCurrentError rs)"

lemma dispatch_ok:
  assumes "blas_inv T rs" and "err_only rs rs'" and "mCurrentError rs' = RS_SUCCESS \<Longrightarrow> blas_checked T cmd"
  shows "blas_ok T rs (tryDispatch rs' cmd)"
  using assms err_only_sel [OF assms(2)]
  by (auto simp: blas_ok_def blas_inv_def elems_ok_def tryDispatch_log)

lemma throw_if_twice: "throw_if b (throw_if a rs k) k = throw_if (a \<or> b) rs k"
  by (simp add: throw_if_def throwError_def)

lemma throw_inv: "blas_inv T rs \<Longrightarrow> blas_inv T (throw_if b rs k)"
  by (auto simp: throw_if_def throwError_def blas_inv_def elems_ok_def)

lemma throw_client: "client T rs A \<Longrightarrow> client T (throw_if b rs k) A"
  by (auto simp: throw_if_def throwError_def client_def known_def)

lemma throw_ok: "blas_ok T (throw_if b rs k) rs' \<Longrightarrow> blas_ok T rs rs'"
  by (auto simp: throw_if_def throwError_def blas_ok_def split: if_splits)

context validator
begin

lemma send_post:
  assumes "element_of lp64 rs n = Some (rs1, e)" and "n \<in> set blas_names" and "blas_inv T rs"
    and "V rs1 e = Some (rs2, r)" and "k \<noteq> RS_SUCCESS"
    and "mCurrentError rs = RS_SUCCESS \<Longrightarrow> P e r \<Longrightarrow> \<not> b \<Longrightarrow> blas_checked T cmd"
  shows "blas_ok T rs (tryDispatch (throw_if b rs2 k) cmd)"
proof -
  note el = element_of_ok [OF assms(1-3)]
  have "blas_ok T rs1 (tryDispatch (throw_if b rs2 k) cmd)"
  proof (rule dispatch_ok [OF el(1)])
    show "err_only rs1 (throw_if b rs2 k)"
      using check_err [OF assms(4)] by simp
    assume "mCurrentError (throw_if b rs2 k) = RS_SUCCESS"
    then have "mCurrentError rs2 = RS_SUCCESS" "\<not> b"
      using assms(5) by simp_all
    then show "blas_checked T cmd"
      using check_sound [OF assms(4)] check_sticky [OF assms(4)] el(3) assms(6) by auto
  qed
  then show ?thesis
    using el(3,4) by (simp add: blas_ok_def)
qed

lemma send:
  assumes "element_of lp64 rs n = Some (rs1, e)" and "n \<in> set blas_names" and "blas_inv T rs"
    and "V rs1 e = Some (rs2, r)" and "mCurrentError rs = RS_SUCCESS \<Longrightarrow> P e r \<Longrightarrow> blas_checked T cmd"
  shows "blas_ok T rs (tryDispatch rs2 cmd)"
  using send_post [OF assms(1-4), of RS_ERROR_MAX False] assms(5) by (simp add: throw_if_def)

end

lemma name_simps [simp]: "name_bytes ''F32'' = 4" "name_bytes ''F64'' = 8" "name_bytes ''F32_2'' = 8"
  "name_bytes ''F64_2'' = 16" "name_bytes ''U8'' = 1"
  "''F32'' \<in> set blas_names" "''F64'' \<in> set blas_names" "''F32_2'' \<in> set blas_names"
  "''F64_2'' \<in> set blas_names" "''U8'' \<in> set blas_names"
  by (simp_all add: name_bytes_def blas_names_def)

section \<open>The families\<close>

definition call_like :: "int set \<Rightarrow> string \<Rightarrow> int \<Rightarrow> int \<Rightarrow> int \<Rightarrow> int \<Rightarrow> int \<Rightarrow> int \<Rightarrow> int \<Rightarrow> int \<Rightarrow> int \<Rightarrow> int \<Rightarrow>
    RsBlasCall \<Rightarrow> bool" where
  "call_like F n ta tb side M N K incX incY KL KU k \<longleftrightarrow> bFunc k \<in> F \<and> func_bytes (bFunc k) = name_bytes n \<and>
     bTransA k = ta \<and> bTransB k = tb \<and> bSide k = side \<and> bM k = M \<and> bN k = N \<and> bK k = K \<and> bIncX k = incX \<and>
     bIncY k = incY \<and> bKL k = KL \<and> bKU k = KU"

text \<open>
  One rule per shape of method: its body, with the element, the call and the arguments left open.
\<close>

lemma sgemv_send:
  assumes "do { (rs, e) \<leftarrow> element_of lp64 rs n; rs \<leftarrow> validateGEMV rs e TransA A X incX Y incY; M \<leftarrow> dimY A;
      N \<leftarrow> dimX A; Aid \<leftarrow> getID A; Xid \<leftarrow> getID X; Yid \<leftarrow> getID Y;
      Some (tryDispatch rs \<lparr>cScript = self, cA = Aid, cB = Xid, cC = Yid, cCall = call M N\<rparr>) } = Some rs'"
    and "blas_inv T rs" and "n \<in> set blas_names" and "client T rs A" and "client T rs X" and "client T rs Y"
    and "\<And>M N. call_like gemv_fns n (trans_val TransA) 0 0 M N 0 incX incY 0 0 (call M N)"
  shows "blas_ok T rs rs'"
  using assms(1)
  by (clarsimp simp: Let_def)
    (rule gemv.send [OF _ assms(3) assms(2), where r = "()", simplified], assumption, assumption,
      frule client_fits [OF _ assms(3,2,4)], frule client_fits [OF _ assms(3,2,5)], frule client_fits [OF _ assms(3,2,6)],
      rule blas_checked.gemv [where s = "name_bytes n"], unfold call_of_def;
      cases TransA; auto simp: assms(7) [unfolded call_like_def] mat_ok_def intro: mat_at vec_in)

lemma sgbmv_send:
  assumes "do { (rs, e) \<leftarrow> element_of lp64 rs n; rs \<leftarrow> validateGEMV rs e TransA A X incX Y incY;
      let rs = throw_if (KL < 0 \<or> KU < 0) rs RS_ERROR_INVALID_PARAMETER; M \<leftarrow> dimY A; N \<leftarrow> dimX A;
      Aid \<leftarrow> getID A; Xid \<leftarrow> getID X; Yid \<leftarrow> getID Y;
      Some (tryDispatch rs \<lparr>cScript = self, cA = Aid, cB = Xid, cC = Yid, cCall = call M N\<rparr>) } = Some rs'"
    and "blas_inv T rs" and "n \<in> set blas_names" and "client T rs A" and "client T rs X" and "client T rs Y"
    and "\<And>M N. call_like gemv_fns n (trans_val TransA) 0 0 M N 0 incX incY KL KU (call M N)"
  shows "blas_ok T rs rs'"
  using assms(1)
  by (clarsimp simp: Let_def)
    (rule gemv.send_post [OF _ assms(3) assms(2), where r = "()", simplified], assumption, assumption,
      simp, frule client_fits [OF _ assms(3,2,4)], frule client_fits [OF _ assms(3,2,5)], frule client_fits [OF _ assms(3,2,6)],
      rule blas_checked.gemv [where s = "name_bytes n"], unfold call_of_def;
      cases TransA; auto simp: assms(7) [unfolded call_like_def] mat_ok_def intro: mat_at vec_in)

lemma strmv_send:
  assumes "do { (rs, e) \<leftarrow> element_of lp64 rs n; rs \<leftarrow> validateTRMV rs e Uplo TransA Diag A X incX; N \<leftarrow> dimY A;
      Aid \<leftarrow> getID A; Xid \<leftarrow> getID X;
      Some (tryDispatch rs \<lparr>cScript = self, cA = Aid, cB = Xid, cC = 0, cCall = call N\<rparr>) } = Some rs'"
    and "blas_inv T rs" and "n \<in> set blas_names" and "client T rs A" and "client T rs X"
    and "\<And>N. call_like trmv_fns n (trans_val TransA) 0 0 0 N 0 incX 0 0 0 (call N)"
  shows "blas_ok T rs rs'"
  using assms(1)
  by (clarsimp simp: Let_def)
    (rule trmv.send [OF _ assms(3) assms(2), where r = "()", simplified], assumption, assumption,
      frule client_fits [OF _ assms(3,2,4)], frule client_fits [OF _ assms(3,2,5)],
      rule blas_checked.trmv [where s = "name_bytes n"], unfold call_of_def;
      cases TransA; auto simp: assms(6) [unfolded call_like_def] mat_ok_def intro: mat_at vec_in)

lemma stbmv_send:
  assumes "do { let rs = throw_if (K < 0) rs RS_ERROR_INVALID_PARAMETER; (rs, e) \<leftarrow> element_of lp64 rs n;
      rs \<leftarrow> validateTRMV rs e Uplo TransA Diag A X incX; N \<leftarrow> dimY A; Aid \<leftarrow> getID A; Xid \<leftarrow> getID X;
      Some (tryDispatch rs \<lparr>cScript = self, cA = Aid, cB = Xid, cC = 0, cCall = call N\<rparr>) } = Some rs'"
    and "blas_inv T rs" and "n \<in> set blas_names" and "client T rs A" and "client T rs X"
    and "\<And>N. call_like trmv_fns n (trans_val TransA) 0 0 0 N K incX 0 0 0 (call N)"
  shows "blas_ok T rs rs'"
  using assms(1)
  by (clarsimp simp: Let_def)
    (rule throw_ok, rule trmv.send [OF _ assms(3) throw_inv [OF assms(2)], where r = "()", simplified], assumption, assumption,
      frule client_fits [OF _ assms(3) throw_inv [OF assms(2)] throw_client [OF assms(4)]], frule client_fits [OF _ assms(3) throw_inv [OF assms(2)] throw_client [OF assms(5)]],
      rule blas_checked.trmv [where s = "name_bytes n"], unfold call_of_def;
      cases TransA; auto simp: assms(6) [unfolded call_like_def] mat_ok_def intro: mat_at vec_in)

lemma stpmv_send:
  assumes "do { (rs, e) \<leftarrow> element_of lp64 rs n; (rs, N) \<leftarrow> validateTPMV rs e Uplo TransA Diag Ap X incX;
      Apid \<leftarrow> getID Ap; Xid \<leftarrow> getID X;
      Some (tryDispatch rs \<lparr>cScript = self, cA = Apid, cB = Xid, cC = 0, cCall = call N\<rparr>) } = Some rs'"
    and "blas_inv T rs" and "n \<in> set blas_names" and "client T rs Ap" and "client T rs X"
    and "\<And>N. call_like tpmv_fns n (trans_val TransA) 0 0 0 N 0 incX 0 0 0 (call N)"
  shows "blas_ok T rs rs'"
  using assms(1)
  by (clarsimp simp: Let_def)
    (rule tpmv.send [OF _ assms(3) assms(2)], assumption, assumption,
      frule client_fits [OF _ assms(3,2,4)], frule client_fits [OF _ assms(3,2,5)],
      rule blas_checked.tpmv [where s = "name_bytes n"], unfold call_of_def;
      cases TransA; auto simp: assms(6) [unfolded call_like_def] mat_ok_def intro: mat_at vec_in packed_in)

lemma stbsv_send:
  assumes "do { (rs, e) \<leftarrow> element_of lp64 rs n; rs \<leftarrow> validateTRMV rs e Uplo TransA Diag A X incX; N \<leftarrow> dimY A;
      let rs = throw_if (K < 0) rs RS_ERROR_INVALID_PARAMETER; Aid \<leftarrow> getID A; Xid \<leftarrow> getID X;
      Some (tryDispatch rs \<lparr>cScript = self, cA = Aid, cB = Xid, cC = 0, cCall = call N\<rparr>) } = Some rs'"
    and "blas_inv T rs" and "n \<in> set blas_names" and "client T rs A" and "client T rs X"
    and "\<And>N. call_like trmv_fns n (trans_val TransA) 0 0 0 N K incX 0 0 0 (call N)"
  shows "blas_ok T rs rs'"
  using assms(1)
  by (clarsimp simp: Let_def)
    (rule trmv.send_post [OF _ assms(3) assms(2), where r = "()", simplified], assumption, assumption,
      simp, frule client_fits [OF _ assms(3,2,4)], frule client_fits [OF _ assms(3,2,5)],
      rule blas_checked.trmv [where s = "name_bytes n"], unfold call_of_def;
      cases TransA; auto simp: assms(6) [unfolded call_like_def] mat_ok_def intro: mat_at vec_in)

lemma ssymv_send:
  assumes "do { (rs, e) \<leftarrow> element_of lp64 rs n; (rs, N) \<leftarrow> validateSYMV rs e Uplo A X Y incX incY; Aid \<leftarrow> getID A;
      Xid \<leftarrow> getID X; Yid \<leftarrow> getID Y;
      Some (tryDispatch rs \<lparr>cScript = self, cA = Aid, cB = Xid, cC = Yid, cCall = call N\<rparr>) } = Some rs'"
    and "blas_inv T rs" and "n \<in> set blas_names" and "client T rs A" and "client T rs X" and "client T rs Y"
    and "\<And>N. call_like symv_fns n 0 0 0 0 N 0 incX incY 0 0 (call N)"
  shows "blas_ok T rs rs'"
  using assms(1)
  by (clarsimp simp: Let_def)
    (rule symv.send [OF _ assms(3) assms(2)], assumption, assumption,
      frule client_fits [OF _ assms(3,2,4)], frule client_fits [OF _ assms(3,2,5)], frule client_fits [OF _ assms(3,2,6)],
      rule blas_checked.symv [where s = "name_bytes n"], unfold call_of_def;
      auto simp: assms(7) [unfolded call_like_def] mat_ok_def intro: mat_at vec_in)

lemma ssbmv_send:
  assumes "do { let rs = throw_if (K < 0) rs RS_ERROR_INVALID_PARAMETER; (rs, e) \<leftarrow> element_of lp64 rs n;
      (rs, N) \<leftarrow> validateSYMV rs e Uplo A X Y incX incY; Aid \<leftarrow> getID A; Xid \<leftarrow> getID X; Yid \<leftarrow> getID Y;
      Some (tryDispatch rs \<lparr>cScript = self, cA = Aid, cB = Xid, cC = Yid, cCall = call N\<rparr>) } = Some rs'"
    and "blas_inv T rs" and "n \<in> set blas_names" and "client T rs A" and "client T rs X" and "client T rs Y"
    and "\<And>N. call_like symv_fns n 0 0 0 0 N K incX incY 0 0 (call N)"
  shows "blas_ok T rs rs'"
  using assms(1)
  by (clarsimp simp: Let_def)
    (rule throw_ok, rule symv.send [OF _ assms(3) throw_inv [OF assms(2)]], assumption, assumption,
      frule client_fits [OF _ assms(3) throw_inv [OF assms(2)] throw_client [OF assms(4)]], frule client_fits [OF _ assms(3) throw_inv [OF assms(2)] throw_client [OF assms(5)]], frule client_fits [OF _ assms(3) throw_inv [OF assms(2)] throw_client [OF assms(6)]],
      rule blas_checked.symv [where s = "name_bytes n"], unfold call_of_def;
      auto simp: assms(7) [unfolded call_like_def] mat_ok_def intro: mat_at vec_in)

lemma sspmv_send:
  assumes "do { (rs, e) \<leftarrow> element_of lp64 rs n; (rs, N) \<leftarrow> validateSPMV rs e Uplo Ap X incX Y incY; Apid \<leftarrow> getID Ap;
      Xid \<leftarrow> getID X; Yid \<leftarrow> getID Y;
      Some (tryDispatch rs \<lparr>cScript = self, cA = Apid, cB = Xid, cC = Yid, cCall = call N\<rparr>) } = Some rs'"
    and "blas_inv T rs" and "n \<in> set blas_names" and "client T rs Ap" and "client T rs X" and "client T rs Y"
    and "\<And>N. call_like spmv_fns n 0 0 0 0 N 0 incX incY 0 0 (call N)"
  shows "blas_ok T rs rs'"
  using assms(1)
  by (clarsimp simp: Let_def)
    (rule spmv.send [OF _ assms(3) assms(2)], assumption, assumption,
      frule client_fits [OF _ assms(3,2,4)], frule client_fits [OF _ assms(3,2,5)], frule client_fits [OF _ assms(3,2,6)],
      rule blas_checked.spmv [where s = "name_bytes n"], unfold call_of_def;
      auto simp: assms(7) [unfolded call_like_def] mat_ok_def intro: mat_at vec_in packed_in)

lemma sger_send:
  assumes "do { M \<leftarrow> dimY A; N \<leftarrow> dimX A; (rs, e) \<leftarrow> element_of lp64 rs n; rs \<leftarrow> validateGER rs e X incX Y incY A;
      Xid \<leftarrow> getID X; Yid \<leftarrow> getID Y; Aid \<leftarrow> getID A;
      Some (tryDispatch rs \<lparr>cScript = self, cA = Xid, cB = Yid, cC = Aid, cCall = call M N\<rparr>) } = Some rs'"
    and "blas_inv T rs" and "n \<in> set blas_names" and "client T rs X" and "client T rs Y" and "client T rs A"
    and "\<And>M N. call_like ger_fns n 0 0 0 M N 0 incX incY 0 0 (call M N)"
  shows "blas_ok T rs rs'"
  using assms(1)
  by (clarsimp simp: Let_def)
    (rule ger.send [OF _ assms(3) assms(2), where r = "()", simplified], assumption, assumption,
      frule client_fits [OF _ assms(3,2,4)], frule client_fits [OF _ assms(3,2,5)], frule client_fits [OF _ assms(3,2,6)],
      rule blas_checked.ger [where s = "name_bytes n"], unfold call_of_def;
      auto simp: assms(7) [unfolded call_like_def] mat_ok_def intro: mat_at vec_in)

lemma ssyr_send:
  assumes "do { (rs, e) \<leftarrow> element_of lp64 rs n; (rs, N) \<leftarrow> validateSYR rs e Uplo X incX A; Xid \<leftarrow> getID X;
      Aid \<leftarrow> getID A;
      Some (tryDispatch rs \<lparr>cScript = self, cA = Xid, cB = Aid, cC = 0, cCall = call N\<rparr>) } = Some rs'"
    and "blas_inv T rs" and "n \<in> set blas_names" and "client T rs X" and "client T rs A"
    and "\<And>N. call_like syr_fns n 0 0 0 0 N 0 incX 0 0 0 (call N)"
  shows "blas_ok T rs rs'"
  using assms(1)
  by (clarsimp simp: Let_def)
    (rule syr.send [OF _ assms(3) assms(2)], assumption, assumption,
      frule client_fits [OF _ assms(3,2,4)], frule client_fits [OF _ assms(3,2,5)],
      rule blas_checked.syr [where s = "name_bytes n"], unfold call_of_def;
      auto simp: assms(6) [unfolded call_like_def] mat_ok_def intro: mat_at vec_in)

lemma sspr_send:
  assumes "do { (rs, e) \<leftarrow> element_of lp64 rs n; (rs, N) \<leftarrow> validateSPR rs e Uplo X incX Ap; Xid \<leftarrow> getID X;
      Apid \<leftarrow> getID Ap;
      Some (tryDispatch rs \<lparr>cScript = self, cA = Xid, cB = Apid, cC = 0, cCall = call N\<rparr>) } = Some rs'"
    and "blas_inv T rs" and "n \<in> set blas_names" and "client T rs X" and "client T rs Ap"
    and "\<And>N. call_like spr_fns n 0 0 0 0 N 0 incX 0 0 0 (call N)"
  shows "blas_ok T rs rs'"
  using assms(1)
  by (clarsimp simp: Let_def)
    (rule spr.send [OF _ assms(3) assms(2)], assumption, assumption,
      frule client_fits [OF _ assms(3,2,4)], frule client_fits [OF _ assms(3,2,5)],
      rule blas_checked.spr [where s = "name_bytes n"], unfold call_of_def;
      auto simp: assms(6) [unfolded call_like_def] mat_ok_def intro: mat_at vec_in packed_in)

lemma ssyr2_send:
  assumes "do { (rs, e) \<leftarrow> element_of lp64 rs n; (rs, N) \<leftarrow> validateSYR2 rs e Uplo X incX Y incY A; Xid \<leftarrow> getID X;
      Yid \<leftarrow> getID Y; Aid \<leftarrow> getID A;
      Some (tryDispatch rs \<lparr>cScript = self, cA = Xid, cB = Yid, cC = Aid, cCall = call N\<rparr>) } = Some rs'"
    and "blas_inv T rs" and "n \<in> set blas_names" and "client T rs X" and "client T rs Y" and "client T rs A"
    and "\<And>N. call_like syr2_fns n 0 0 0 0 N 0 incX incY 0 0 (call N)"
  shows "blas_ok T rs rs'"
  using assms(1)
  by (clarsimp simp: Let_def)
    (rule syr2.send [OF _ assms(3) assms(2)], assumption, assumption,
      frule client_fits [OF _ assms(3,2,4)], frule client_fits [OF _ assms(3,2,5)], frule client_fits [OF _ assms(3,2,6)],
      rule blas_checked.syr2 [where s = "name_bytes n"], unfold call_of_def;
      auto simp: assms(7) [unfolded call_like_def] mat_ok_def intro: mat_at vec_in)

lemma sspr2_send:
  assumes "do { (rs, e) \<leftarrow> element_of lp64 rs n; (rs, N) \<leftarrow> validateSPR2 rs e Uplo X incX Y incY Ap; Xid \<leftarrow> getID X;
      Yid \<leftarrow> getID Y; Apid \<leftarrow> getID Ap;
      Some (tryDispatch rs \<lparr>cScript = self, cA = Xid, cB = Yid, cC = Apid, cCall = call N\<rparr>) } = Some rs'"
    and "blas_inv T rs" and "n \<in> set blas_names" and "client T rs X" and "client T rs Y" and "client T rs Ap"
    and "\<And>N. call_like spr2_fns n 0 0 0 0 N 0 incX incY 0 0 (call N)"
  shows "blas_ok T rs rs'"
  using assms(1)
  by (clarsimp simp: Let_def)
    (rule spr2.send [OF _ assms(3) assms(2)], assumption, assumption,
      frule client_fits [OF _ assms(3,2,4)], frule client_fits [OF _ assms(3,2,5)], frule client_fits [OF _ assms(3,2,6)],
      rule blas_checked.spr2 [where s = "name_bytes n"], unfold call_of_def;
      auto simp: assms(7) [unfolded call_like_def] mat_ok_def intro: mat_at vec_in packed_in)

lemma chemv_send:
  assumes "do { (rs, e) \<leftarrow> element_of lp64 rs n; (rs, N) \<leftarrow> validateSYR2 rs e Uplo X incX Y incY A; Aid \<leftarrow> getID A;
      Xid \<leftarrow> getID X; Yid \<leftarrow> getID Y;
      Some (tryDispatch rs \<lparr>cScript = self, cA = Aid, cB = Xid, cC = Yid, cCall = call N\<rparr>) } = Some rs'"
    and "blas_inv T rs" and "n \<in> set blas_names" and "client T rs A" and "client T rs X" and "client T rs Y"
    and "\<And>N. call_like symv_fns n 0 0 0 0 N 0 incX incY 0 0 (call N)"
  shows "blas_ok T rs rs'"
  using assms(1)
  by (clarsimp simp: Let_def)
    (rule syr2.send [OF _ assms(3) assms(2)], assumption, assumption,
      frule client_fits [OF _ assms(3,2,4)], frule client_fits [OF _ assms(3,2,5)], frule client_fits [OF _ assms(3,2,6)],
      rule blas_checked.symv [where s = "name_bytes n"], unfold call_of_def;
      auto simp: assms(7) [unfolded call_like_def] mat_ok_def intro: mat_at vec_in)

lemma chbmv_send:
  assumes "do { (rs, e) \<leftarrow> element_of lp64 rs n; (rs, N) \<leftarrow> validateSYR2 rs e Uplo X incX Y incY A;
      let rs = throw_if (K < 0) rs RS_ERROR_INVALID_PARAMETER; Aid \<leftarrow> getID A; Xid \<leftarrow> getID X;
      Yid \<leftarrow> getID Y;
      Some (tryDispatch rs \<lparr>cScript = self, cA = Aid, cB = Xid, cC = Yid, cCall = call N\<rparr>) } = Some rs'"
    and "blas_inv T rs" and "n \<in> set blas_names" and "client T rs A" and "client T rs X" and "client T rs Y"
    and "\<And>N. call_like symv_fns n 0 0 0 0 N K incX incY 0 0 (call N)"
  shows "blas_ok T rs rs'"
  using assms(1)
  by (clarsimp simp: Let_def)
    (rule syr2.send_post [OF _ assms(3) assms(2)], assumption, assumption,
      simp, frule client_fits [OF _ assms(3,2,4)], frule client_fits [OF _ assms(3,2,5)], frule client_fits [OF _ assms(3,2,6)],
      rule blas_checked.symv [where s = "name_bytes n"], unfold call_of_def;
      auto simp: assms(7) [unfolded call_like_def] mat_ok_def intro: mat_at vec_in)

lemma chpmv_send:
  assumes "do { (rs, e) \<leftarrow> element_of lp64 rs n; (rs, N) \<leftarrow> validateSPR2 rs e Uplo X incX Y incY Ap; Apid \<leftarrow> getID Ap;
      Xid \<leftarrow> getID X; Yid \<leftarrow> getID Y;
      Some (tryDispatch rs \<lparr>cScript = self, cA = Apid, cB = Xid, cC = Yid, cCall = call N\<rparr>) } = Some rs'"
    and "blas_inv T rs" and "n \<in> set blas_names" and "client T rs Ap" and "client T rs X" and "client T rs Y"
    and "\<And>N. call_like spmv_fns n 0 0 0 0 N 0 incX incY 0 0 (call N)"
  shows "blas_ok T rs rs'"
  using assms(1)
  by (clarsimp simp: Let_def)
    (rule spr2.send [OF _ assms(3) assms(2)], assumption, assumption,
      frule client_fits [OF _ assms(3,2,4)], frule client_fits [OF _ assms(3,2,5)], frule client_fits [OF _ assms(3,2,6)],
      rule blas_checked.spmv [where s = "name_bytes n"], unfold call_of_def;
      auto simp: assms(7) [unfolded call_like_def] mat_ok_def intro: mat_at vec_in packed_in)

lemma cgeru_send:
  assumes "do { (rs, e) \<leftarrow> element_of lp64 rs n; rs \<leftarrow> validateGERU rs e X incX Y incY A; M \<leftarrow> dimY A; N \<leftarrow> dimX A;
      Xid \<leftarrow> getID X; Yid \<leftarrow> getID Y; Aid \<leftarrow> getID A;
      Some (tryDispatch rs \<lparr>cScript = self, cA = Xid, cB = Yid, cC = Aid, cCall = call M N\<rparr>) } = Some rs'"
    and "blas_inv T rs" and "n \<in> set blas_names" and "client T rs X" and "client T rs Y" and "client T rs A"
    and "\<And>M N. call_like ger_fns n 0 0 0 M N 0 incX incY 0 0 (call M N)"
  shows "blas_ok T rs rs'"
  using assms(1)
  by (clarsimp simp: Let_def)
    (rule geru.send [OF _ assms(3) assms(2), where r = "()", simplified], assumption, assumption,
      frule client_fits [OF _ assms(3,2,4)], frule client_fits [OF _ assms(3,2,5)], frule client_fits [OF _ assms(3,2,6)],
      rule blas_checked.ger [where s = "name_bytes n"], unfold call_of_def;
      auto simp: assms(7) [unfolded call_like_def] mat_ok_def intro: mat_at vec_in)

lemma cher_send:
  assumes "do { (rs, e) \<leftarrow> element_of lp64 rs n; (rs, N) \<leftarrow> validateSYR rs e Uplo X incX A; Xid \<leftarrow> getID X;
      Aid \<leftarrow> getID A;
      Some (tryDispatch rs \<lparr>cScript = self, cA = Xid, cB = 0, cC = Aid, cCall = call N\<rparr>) } = Some rs'"
    and "blas_inv T rs" and "n \<in> set blas_names" and "client T rs X" and "client T rs A"
    and "\<And>N. call_like her_fns n 0 0 0 0 N 0 incX 0 0 0 (call N)"
  shows "blas_ok T rs rs'"
  using assms(1)
  by (clarsimp simp: Let_def)
    (rule syr.send [OF _ assms(3) assms(2)], assumption, assumption,
      frule client_fits [OF _ assms(3,2,4)], frule client_fits [OF _ assms(3,2,5)],
      rule blas_checked.her [where s = "name_bytes n"], unfold call_of_def;
      auto simp: assms(6) [unfolded call_like_def] mat_ok_def intro: mat_at vec_in)

lemma chpr_send:
  assumes "do { (rs, e) \<leftarrow> element_of lp64 rs n; (rs, N) \<leftarrow> validateSPR rs e Uplo X incX Ap; Xid \<leftarrow> getID X;
      Apid \<leftarrow> getID Ap;
      Some (tryDispatch rs \<lparr>cScript = self, cA = Xid, cB = 0, cC = Apid, cCall = call N\<rparr>) } = Some rs'"
    and "blas_inv T rs" and "n \<in> set blas_names" and "client T rs X" and "client T rs Ap"
    and "\<And>N. call_like hpr_fns n 0 0 0 0 N 0 incX 0 0 0 (call N)"
  shows "blas_ok T rs rs'"
  using assms(1)
  by (clarsimp simp: Let_def)
    (rule spr.send [OF _ assms(3) assms(2)], assumption, assumption,
      frule client_fits [OF _ assms(3,2,4)], frule client_fits [OF _ assms(3,2,5)],
      rule blas_checked.hpr [where s = "name_bytes n"], unfold call_of_def;
      auto simp: assms(6) [unfolded call_like_def] mat_ok_def intro: mat_at vec_in packed_in)

lemma sgemm_send:
  assumes "do { (rs, e) \<leftarrow> element_of lp64 rs n; rs \<leftarrow> validateL3 rs e (trans_val TransA) (trans_val TransB) 0 A B C;
      (M, K) \<leftarrow> (if TransA \<noteq> RsBlasNoTrans then do { M \<leftarrow> dimX A; K \<leftarrow> dimY A; Some (M, K) } else do { M \<leftarrow> dimY A; K \<leftarrow> dimX A; Some (M, K) });
      N \<leftarrow> (if TransB \<noteq> RsBlasNoTrans then dimY B else dimX B); Aid \<leftarrow> getID A; Bid \<leftarrow> getID B;
      Cid \<leftarrow> getID C;
      Some (tryDispatch rs \<lparr>cScript = self, cA = Aid, cB = Bid, cC = Cid, cCall = call M N K\<rparr>) } = Some rs'"
    and "blas_inv T rs" and "n \<in> set blas_names" and "client T rs A" and "client T rs B" and "client T rs C"
    and "\<And>M N K. call_like gemm_fns n (trans_val TransA) (trans_val TransB) 0 M N K 0 0 0 0 (call M N K)"
  shows "blas_ok T rs rs'"
  using assms(1)
  by (clarsimp simp: Let_def)
    (rule product.send [OF _ assms(3) assms(2), where r = "()", simplified], assumption, assumption,
      frule client_fits [OF _ assms(3,2,4)], frule client_fits [OF _ assms(3,2,5)], frule client_fits [OF _ assms(3,2,6)],
      rule blas_checked.gemm [where s = "name_bytes n"], unfold call_of_def;
      cases TransA; cases TransB; auto simp: assms(7) [unfolded call_like_def] mat_ok_def trans_mat_ok_def in_tmat_def intro: mat_at)

lemma ssymm_send:
  assumes "do { ax \<leftarrow> udimX A; ay \<leftarrow> udimY A; let rs = throw_if (ax \<noteq> ay) rs RS_ERROR_INVALID_PARAMETER;
      (rs, e) \<leftarrow> element_of lp64 rs n; rs \<leftarrow> validateL3 rs e 0 0 (side_val Side) A B C; CdY \<leftarrow> dimY C;
      CdX \<leftarrow> dimX C; Aid \<leftarrow> getID A; Bid \<leftarrow> getID B; Cid \<leftarrow> getID C;
      Some (tryDispatch rs \<lparr>cScript = self, cA = Aid, cB = Bid, cC = Cid, cCall = call CdY CdX\<rparr>) } = Some rs'"
    and "blas_inv T rs" and "n \<in> set blas_names" and "client T rs A" and "client T rs B" and "client T rs C"
    and "\<And>CdY CdX. call_like symm_fns n 0 0 (side_val Side) CdY CdX 0 0 0 0 0 (call CdY CdX)"
  shows "blas_ok T rs rs'"
  using assms(1)
  by (clarsimp simp: Let_def)
    (rule throw_ok, rule symmetric.send [OF _ assms(3) throw_inv [OF assms(2)], where r = "()", simplified], assumption, assumption,
      frule client_fits [OF _ assms(3) throw_inv [OF assms(2)] throw_client [OF assms(4)]], frule client_fits [OF _ assms(3) throw_inv [OF assms(2)] throw_client [OF assms(5)]], frule client_fits [OF _ assms(3) throw_inv [OF assms(2)] throw_client [OF assms(6)]],
      rule blas_checked.symm [where s = "name_bytes n"], unfold call_of_def;
      cases Side; auto simp: assms(7) [unfolded call_like_def] mat_ok_def side_ok_def in_side_def intro: mat_at mat_square)

lemma ssyrk_send:
  assumes "do { (rs, e) \<leftarrow> element_of lp64 rs n; rs \<leftarrow> validateL3 rs e (trans_val Trans) 0 0 A None C;
      K \<leftarrow> (if Trans \<noteq> RsBlasNoTrans then dimY A else dimX A); CdX \<leftarrow> dimX C; Aid \<leftarrow> getID A; Cid \<leftarrow> getID C;
      Some (tryDispatch rs \<lparr>cScript = self, cA = Aid, cB = 0, cC = Cid, cCall = call CdX K\<rparr>) } = Some rs'"
    and "blas_inv T rs" and "n \<in> set blas_names" and "client T rs A" and "client T rs C"
    and "\<And>CdX K. call_like syrk_fns n (trans_val Trans) 0 0 0 CdX K 0 0 0 0 (call CdX K)"
  shows "blas_ok T rs rs'"
  using assms(1)
  by (clarsimp simp: Let_def)
    (rule rank.send [OF _ assms(3) assms(2), where r = "()", simplified], assumption, assumption,
      frule client_fits [OF _ assms(3,2,4)], frule client_fits [OF _ assms(3,2,5)],
      rule blas_checked.syrk [where s = "name_bytes n"], unfold call_of_def;
      cases Trans; auto simp: assms(6) [unfolded call_like_def] mat_ok_def trans_mat_ok_def in_tmat_def intro: mat_at)

lemma ssyr2k_send:
  assumes "do { (rs, e) \<leftarrow> element_of lp64 rs n; rs \<leftarrow> validateSYR2K rs e Trans A B C;
      K \<leftarrow> (if Trans \<noteq> RsBlasNoTrans then dimY A else dimX A); CdX \<leftarrow> dimX C; Aid \<leftarrow> getID A; Bid \<leftarrow> getID B;
      Cid \<leftarrow> getID C;
      Some (tryDispatch rs \<lparr>cScript = self, cA = Aid, cB = Bid, cC = Cid, cCall = call CdX K\<rparr>) } = Some rs'"
    and "blas_inv T rs" and "n \<in> set blas_names" and "client T rs A" and "client T rs B" and "client T rs C"
    and "\<And>CdX K. call_like syr2k_fns n (trans_val Trans) 0 0 0 CdX K 0 0 0 0 (call CdX K)"
  shows "blas_ok T rs rs'"
  using assms(1)
  by (clarsimp simp: Let_def)
    (rule syr2k.send [OF _ assms(3) assms(2), where r = "()", simplified], assumption, assumption,
      frule client_fits [OF _ assms(3,2,4)], frule client_fits [OF _ assms(3,2,5)], frule client_fits [OF _ assms(3,2,6)],
      rule blas_checked.syr2k [where s = "name_bytes n"], unfold call_of_def;
      cases Trans; auto simp: assms(7) [unfolded call_like_def] mat_ok_def trans_mat_ok_def in_tmat_def intro: mat_at)

lemma strmm_send:
  assumes "do { (rs, e) \<leftarrow> element_of lp64 rs n; rs \<leftarrow> validateTRMM rs e Side TransA A B; BdY \<leftarrow> dimY B; BdX \<leftarrow> dimX B;
      Aid \<leftarrow> getID A; Bid \<leftarrow> getID B;
      Some (tryDispatch rs \<lparr>cScript = self, cA = Aid, cB = Bid, cC = 0, cCall = call BdY BdX\<rparr>) } = Some rs'"
    and "blas_inv T rs" and "n \<in> set blas_names" and "client T rs A" and "client T rs B"
    and "\<And>BdY BdX. call_like trmm_fns n (trans_val TransA) 0 (side_val Side) BdY BdX 0 0 0 0 0 (call BdY BdX)"
  shows "blas_ok T rs rs'"
  using assms(1)
  by (clarsimp simp: Let_def)
    (rule trmm.send [OF _ assms(3) assms(2), where r = "()", simplified], assumption, assumption,
      frule client_fits [OF _ assms(3,2,4)], frule client_fits [OF _ assms(3,2,5)],
      rule blas_checked.trmm [where s = "name_bytes n"], unfold call_of_def;
      cases TransA; cases Side; auto simp: assms(6) [unfolded call_like_def] mat_ok_def side_ok_def in_side_def intro: mat_at)

lemma strsm_send:
  assumes "do { (rs, e) \<leftarrow> element_of lp64 rs n; rs \<leftarrow> validateTRSM rs e Side TransA A B; BdY \<leftarrow> dimY B; BdX \<leftarrow> dimX B;
      Aid \<leftarrow> getID A; Bid \<leftarrow> getID B;
      Some (tryDispatch rs \<lparr>cScript = self, cA = Aid, cB = Bid, cC = 0, cCall = call BdY BdX\<rparr>) } = Some rs'"
    and "blas_inv T rs" and "n \<in> set blas_names" and "client T rs A" and "client T rs B"
    and "\<And>BdY BdX. call_like trmm_fns n (trans_val TransA) 0 (side_val Side) BdY BdX 0 0 0 0 0 (call BdY BdX)"
  shows "blas_ok T rs rs'"
  using assms(1)
  by (clarsimp simp: Let_def)
    (rule trsm.send [OF _ assms(3) assms(2), where r = "()", simplified], assumption, assumption,
      frule client_fits [OF _ assms(3,2,4)], frule client_fits [OF _ assms(3,2,5)],
      rule blas_checked.trmm [where s = "name_bytes n"], unfold call_of_def;
      cases TransA; cases Side; auto simp: assms(6) [unfolded call_like_def] mat_ok_def side_ok_def in_side_def intro: mat_at)

lemma chemm_send:
  assumes "do { (rs, e) \<leftarrow> element_of lp64 rs n; rs \<leftarrow> validateHEMM rs e Side A B C; CdY \<leftarrow> dimY C; CdX \<leftarrow> dimX C;
      Aid \<leftarrow> getID A; Bid \<leftarrow> getID B; Cid \<leftarrow> getID C;
      Some (tryDispatch rs \<lparr>cScript = self, cA = Aid, cB = Bid, cC = Cid, cCall = call CdY CdX\<rparr>) } = Some rs'"
    and "blas_inv T rs" and "n \<in> set blas_names" and "client T rs A" and "client T rs B" and "client T rs C"
    and "\<And>CdY CdX. call_like symm_fns n 0 0 (side_val Side) CdY CdX 0 0 0 0 0 (call CdY CdX)"
  shows "blas_ok T rs rs'"
  using assms(1)
  by (clarsimp simp: Let_def)
    (rule hemm.send [OF _ assms(3) assms(2), where r = "()", simplified], assumption, assumption,
      frule client_fits [OF _ assms(3,2,4)], frule client_fits [OF _ assms(3,2,5)], frule client_fits [OF _ assms(3,2,6)],
      rule blas_checked.symm [where s = "name_bytes n"], unfold call_of_def;
      cases Side; auto simp: assms(7) [unfolded call_like_def] mat_ok_def side_ok_def in_side_def intro: mat_at)

lemma cherk_send:
  assumes "do { (rs, e) \<leftarrow> element_of lp64 rs n; rs \<leftarrow> validateHERK rs e Trans A C;
      k \<leftarrow> (if Trans = RsBlasConjTrans then dimY A else dimX A); CdX \<leftarrow> dimX C; Aid \<leftarrow> getID A;
      Cid \<leftarrow> getID C;
      Some (tryDispatch rs \<lparr>cScript = self, cA = Aid, cB = 0, cC = Cid, cCall = call CdX k\<rparr>) } = Some rs'"
    and "blas_inv T rs" and "n \<in> set blas_names" and "client T rs A" and "client T rs C"
    and "\<And>CdX k. call_like syrk_fns n (trans_val Trans) 0 0 0 CdX k 0 0 0 0 (call CdX k)"
  shows "blas_ok T rs rs'"
  using assms(1)
  by (clarsimp simp: Let_def)
    (rule herk.send [OF _ assms(3) assms(2), where r = "()", simplified], assumption, assumption,
      frule client_fits [OF _ assms(3,2,4)], frule client_fits [OF _ assms(3,2,5)],
      rule blas_checked.syrk [where s = "name_bytes n"], unfold call_of_def;
      cases Trans; auto simp: assms(6) [unfolded call_like_def] mat_ok_def trans_mat_ok_def in_tmat_def intro: mat_at)

lemma cher2k_send:
  assumes "do { (rs, e) \<leftarrow> element_of lp64 rs n; rs \<leftarrow> validateHER2K rs e Trans A B C;
      k \<leftarrow> (if Trans = RsBlasNoTrans then dimX A else dimY A); CdX \<leftarrow> dimX C; Aid \<leftarrow> getID A; Bid \<leftarrow> getID B;
      Cid \<leftarrow> getID C;
      Some (tryDispatch rs \<lparr>cScript = self, cA = Aid, cB = Bid, cC = Cid, cCall = call CdX k\<rparr>) } = Some rs'"
    and "blas_inv T rs" and "n \<in> set blas_names" and "client T rs A" and "client T rs B" and "client T rs C"
    and "\<And>CdX k. call_like her2k_fns n (trans_val Trans) 0 0 0 CdX k 0 0 0 0 (call CdX k)"
  shows "blas_ok T rs rs'"
  using assms(1)
  by (clarsimp simp: Let_def)
    (rule her2k.send [OF _ assms(3) assms(2), where r = "()", simplified], assumption, assumption,
      frule client_fits [OF _ assms(3,2,4)], frule client_fits [OF _ assms(3,2,5)], frule client_fits [OF _ assms(3,2,6)],
      rule blas_checked.her2k [where s = "name_bytes n"], unfold call_of_def;
      cases Trans; auto simp: assms(7) [unfolded call_like_def] mat_ok_def trans_mat_ok_def in_tmat_def intro: mat_at)

lemma bnnm_send:
  fixes a_offset b_offset :: int
  assumes "do { (rs, e) \<leftarrow> element_of lp64 rs n;
      rs \<leftarrow> validateL3 rs e (trans_val RsBlasNoTrans) (trans_val RsBlasTrans) 0 A B C;
      let rs = throw_if (a_offset < 0 \<or> a_offset > 255) rs RS_ERROR_INVALID_PARAMETER;
      let rs = throw_if (b_offset < 0 \<or> b_offset > 255) rs RS_ERROR_INVALID_PARAMETER; M \<leftarrow> dimY A;
      N \<leftarrow> dimY B; K \<leftarrow> dimX A; Aid \<leftarrow> getID A; Bid \<leftarrow> getID B; Cid \<leftarrow> getID C;
      Some (tryDispatch rs \<lparr>cScript = self, cA = Aid, cB = Bid, cC = Cid, cCall = call M N K\<rparr>) } = Some rs'"
    and "blas_inv T rs" and "n \<in> set blas_names" and "client T rs A" and "client T rs B" and "client T rs C"
    and "\<And>M N K. call_like bnnm_fns n 0 0 0 M N K 0 0 0 0 (call M N K)"
  shows "blas_ok T rs rs'"
  using assms(1)
  by (clarsimp simp: Let_def throw_if_twice)
    (rule product.send_post [OF _ assms(3) assms(2), where r = "()" and TransA = RsBlasNoTrans and TransB = RsBlasTrans, simplified], assumption, assumption,
      simp, frule client_fits [OF _ assms(3,2,4)], frule client_fits [OF _ assms(3,2,5)], frule client_fits [OF _ assms(3,2,6)],
      rule blas_checked.bnnm [where s = "name_bytes n"], unfold call_of_def;
      auto simp: assms(7) [unfolded call_like_def] mat_ok_def trans_mat_ok_def in_tmat_def intro: mat_at)

section \<open>The client as a transition system\<close>

text \<open>
  The application calls the methods in any order, with any arguments and any allocations it has. A call
  whose behaviour is undefined, because it reads through a null allocation or because the expected
  length of a vector overflows an \<^verbatim>\<open>int\<close>, is not a step.
\<close>

inductive blas_step :: "(nat \<Rightarrow> CType option) \<Rightarrow> bool \<Rightarrow> BRS \<Rightarrow> BRS \<Rightarrow> bool" for T lp64 where
  SGEMV: "SGEMV lp64 self rs TransA alpha A X incX beta Y incY = Some rs' \<Longrightarrow> client T rs A \<Longrightarrow> client T rs X \<Longrightarrow> client T rs Y \<Longrightarrow>
    blas_step T lp64 rs rs'"
| DGEMV: "DGEMV lp64 self rs TransA alpha A X incX beta Y incY = Some rs' \<Longrightarrow> client T rs A \<Longrightarrow> client T rs X \<Longrightarrow> client T rs Y \<Longrightarrow>
    blas_step T lp64 rs rs'"
| CGEMV: "CGEMV lp64 self rs TransA alpha A X incX beta Y incY = Some rs' \<Longrightarrow> client T rs A \<Longrightarrow> client T rs X \<Longrightarrow> client T rs Y \<Longrightarrow>
    blas_step T lp64 rs rs'"
| ZGEMV: "ZGEMV lp64 self rs TransA alpha A X incX beta Y incY = Some rs' \<Longrightarrow> client T rs A \<Longrightarrow> client T rs X \<Longrightarrow> client T rs Y \<Longrightarrow>
    blas_step T lp64 rs rs'"
| SGBMV: "SGBMV lp64 self rs TransA KL KU alpha A X incX beta Y incY = Some rs' \<Longrightarrow> client T rs A \<Longrightarrow> client T rs X \<Longrightarrow> client T rs Y \<Longrightarrow>
    blas_step T lp64 rs rs'"
| DGBMV: "DGBMV lp64 self rs TransA KL KU alpha A X incX beta Y incY = Some rs' \<Longrightarrow> client T rs A \<Longrightarrow> client T rs X \<Longrightarrow> client T rs Y \<Longrightarrow>
    blas_step T lp64 rs rs'"
| CGBMV: "CGBMV lp64 self rs TransA KL KU alpha A X incX beta Y incY = Some rs' \<Longrightarrow> client T rs A \<Longrightarrow> client T rs X \<Longrightarrow> client T rs Y \<Longrightarrow>
    blas_step T lp64 rs rs'"
| ZGBMV: "ZGBMV lp64 self rs TransA KL KU alpha A X incX beta Y incY = Some rs' \<Longrightarrow> client T rs A \<Longrightarrow> client T rs X \<Longrightarrow> client T rs Y \<Longrightarrow>
    blas_step T lp64 rs rs'"
| STRMV: "STRMV lp64 self rs Uplo TransA Diag A X incX = Some rs' \<Longrightarrow> client T rs A \<Longrightarrow> client T rs X \<Longrightarrow>
    blas_step T lp64 rs rs'"
| DTRMV: "DTRMV lp64 self rs Uplo TransA Diag A X incX = Some rs' \<Longrightarrow> client T rs A \<Longrightarrow> client T rs X \<Longrightarrow>
    blas_step T lp64 rs rs'"
| CTRMV: "CTRMV lp64 self rs Uplo TransA Diag A X incX = Some rs' \<Longrightarrow> client T rs A \<Longrightarrow> client T rs X \<Longrightarrow>
    blas_step T lp64 rs rs'"
| ZTRMV: "ZTRMV lp64 self rs Uplo TransA Diag A X incX = Some rs' \<Longrightarrow> client T rs A \<Longrightarrow> client T rs X \<Longrightarrow>
    blas_step T lp64 rs rs'"
| STBMV: "STBMV lp64 self rs Uplo TransA Diag K A X incX = Some rs' \<Longrightarrow> client T rs A \<Longrightarrow> client T rs X \<Longrightarrow>
    blas_step T lp64 rs rs'"
| DTBMV: "DTBMV lp64 self rs Uplo TransA Diag K A X incX = Some rs' \<Longrightarrow> client T rs A \<Longrightarrow> client T rs X \<Longrightarrow>
    blas_step T lp64 rs rs'"
| CTBMV: "CTBMV lp64 self rs Uplo TransA Diag K A X incX = Some rs' \<Longrightarrow> client T rs A \<Longrightarrow> client T rs X \<Longrightarrow>
    blas_step T lp64 rs rs'"
| ZTBMV: "ZTBMV lp64 self rs Uplo TransA Diag K A X incX = Some rs' \<Longrightarrow> client T rs A \<Longrightarrow> client T rs X \<Longrightarrow>
    blas_step T lp64 rs rs'"
| STPMV: "STPMV lp64 self rs Uplo TransA Diag Ap X incX = Some rs' \<Longrightarrow> client T rs Ap \<Longrightarrow> client T rs X \<Longrightarrow>
    blas_step T lp64 rs rs'"
| DTPMV: "DTPMV lp64 self rs Uplo TransA Diag Ap X incX = Some rs' \<Longrightarrow> client T rs Ap \<Longrightarrow> client T rs X \<Longrightarrow>
    blas_step T lp64 rs rs'"
| CTPMV: "CTPMV lp64 self rs Uplo TransA Diag Ap X incX = Some rs' \<Longrightarrow> client T rs Ap \<Longrightarrow> client T rs X \<Longrightarrow>
    blas_step T lp64 rs rs'"
| ZTPMV: "ZTPMV lp64 self rs Uplo TransA Diag Ap X incX = Some rs' \<Longrightarrow> client T rs Ap \<Longrightarrow> client T rs X \<Longrightarrow>
    blas_step T lp64 rs rs'"
| STRSV: "STRSV lp64 self rs Uplo TransA Diag A X incX = Some rs' \<Longrightarrow> client T rs A \<Longrightarrow> client T rs X \<Longrightarrow>
    blas_step T lp64 rs rs'"
| DTRSV: "DTRSV lp64 self rs Uplo TransA Diag A X incX = Some rs' \<Longrightarrow> client T rs A \<Longrightarrow> client T rs X \<Longrightarrow>
    blas_step T lp64 rs rs'"
| CTRSV: "CTRSV lp64 self rs Uplo TransA Diag A X incX = Some rs' \<Longrightarrow> client T rs A \<Longrightarrow> client T rs X \<Longrightarrow>
    blas_step T lp64 rs rs'"
| ZTRSV: "ZTRSV lp64 self rs Uplo TransA Diag A X incX = Some rs' \<Longrightarrow> client T rs A \<Longrightarrow> client T rs X \<Longrightarrow>
    blas_step T lp64 rs rs'"
| STBSV: "STBSV lp64 self rs Uplo TransA Diag K A X incX = Some rs' \<Longrightarrow> client T rs A \<Longrightarrow> client T rs X \<Longrightarrow>
    blas_step T lp64 rs rs'"
| DTBSV: "DTBSV lp64 self rs Uplo TransA Diag K A X incX = Some rs' \<Longrightarrow> client T rs A \<Longrightarrow> client T rs X \<Longrightarrow>
    blas_step T lp64 rs rs'"
| CTBSV: "CTBSV lp64 self rs Uplo TransA Diag K A X incX = Some rs' \<Longrightarrow> client T rs A \<Longrightarrow> client T rs X \<Longrightarrow>
    blas_step T lp64 rs rs'"
| ZTBSV: "ZTBSV lp64 self rs Uplo TransA Diag K A X incX = Some rs' \<Longrightarrow> client T rs A \<Longrightarrow> client T rs X \<Longrightarrow>
    blas_step T lp64 rs rs'"
| STPSV: "STPSV lp64 self rs Uplo TransA Diag Ap X incX = Some rs' \<Longrightarrow> client T rs Ap \<Longrightarrow> client T rs X \<Longrightarrow>
    blas_step T lp64 rs rs'"
| DTPSV: "DTPSV lp64 self rs Uplo TransA Diag Ap X incX = Some rs' \<Longrightarrow> client T rs Ap \<Longrightarrow> client T rs X \<Longrightarrow>
    blas_step T lp64 rs rs'"
| CTPSV: "CTPSV lp64 self rs Uplo TransA Diag Ap X incX = Some rs' \<Longrightarrow> client T rs Ap \<Longrightarrow> client T rs X \<Longrightarrow>
    blas_step T lp64 rs rs'"
| ZTPSV: "ZTPSV lp64 self rs Uplo TransA Diag Ap X incX = Some rs' \<Longrightarrow> client T rs Ap \<Longrightarrow> client T rs X \<Longrightarrow>
    blas_step T lp64 rs rs'"
| SSYMV: "SSYMV lp64 self rs Uplo alpha A X incX beta Y incY = Some rs' \<Longrightarrow> client T rs A \<Longrightarrow> client T rs X \<Longrightarrow> client T rs Y \<Longrightarrow>
    blas_step T lp64 rs rs'"
| SSBMV: "SSBMV lp64 self rs Uplo K alpha A X incX beta Y incY = Some rs' \<Longrightarrow> client T rs A \<Longrightarrow> client T rs X \<Longrightarrow> client T rs Y \<Longrightarrow>
    blas_step T lp64 rs rs'"
| SSPMV: "SSPMV lp64 self rs Uplo alpha Ap X incX beta Y incY = Some rs' \<Longrightarrow> client T rs Ap \<Longrightarrow> client T rs X \<Longrightarrow> client T rs Y \<Longrightarrow>
    blas_step T lp64 rs rs'"
| SGER: "SGER lp64 self rs alpha X incX Y incY A = Some rs' \<Longrightarrow> client T rs X \<Longrightarrow> client T rs Y \<Longrightarrow> client T rs A \<Longrightarrow>
    blas_step T lp64 rs rs'"
| SSYR: "SSYR lp64 self rs Uplo alpha X incX A = Some rs' \<Longrightarrow> client T rs X \<Longrightarrow> client T rs A \<Longrightarrow>
    blas_step T lp64 rs rs'"
| SSPR: "SSPR lp64 self rs Uplo alpha X incX Ap = Some rs' \<Longrightarrow> client T rs X \<Longrightarrow> client T rs Ap \<Longrightarrow>
    blas_step T lp64 rs rs'"
| SSYR2: "SSYR2 lp64 self rs Uplo alpha X incX Y incY A = Some rs' \<Longrightarrow> client T rs X \<Longrightarrow> client T rs Y \<Longrightarrow> client T rs A \<Longrightarrow>
    blas_step T lp64 rs rs'"
| SSPR2: "SSPR2 lp64 self rs Uplo alpha X incX Y incY Ap = Some rs' \<Longrightarrow> client T rs X \<Longrightarrow> client T rs Y \<Longrightarrow> client T rs Ap \<Longrightarrow>
    blas_step T lp64 rs rs'"
| DSYMV: "DSYMV lp64 self rs Uplo alpha A X incX beta Y incY = Some rs' \<Longrightarrow> client T rs A \<Longrightarrow> client T rs X \<Longrightarrow> client T rs Y \<Longrightarrow>
    blas_step T lp64 rs rs'"
| DSBMV: "DSBMV lp64 self rs Uplo K alpha A X incX beta Y incY = Some rs' \<Longrightarrow> client T rs A \<Longrightarrow> client T rs X \<Longrightarrow> client T rs Y \<Longrightarrow>
    blas_step T lp64 rs rs'"
| DSPMV: "DSPMV lp64 self rs Uplo alpha Ap X incX beta Y incY = Some rs' \<Longrightarrow> client T rs Ap \<Longrightarrow> client T rs X \<Longrightarrow> client T rs Y \<Longrightarrow>
    blas_step T lp64 rs rs'"
| DGER: "DGER lp64 self rs alpha X incX Y incY A = Some rs' \<Longrightarrow> client T rs X \<Longrightarrow> client T rs Y \<Longrightarrow> client T rs A \<Longrightarrow>
    blas_step T lp64 rs rs'"
| DSYR: "DSYR lp64 self rs Uplo alpha X incX A = Some rs' \<Longrightarrow> client T rs X \<Longrightarrow> client T rs A \<Longrightarrow>
    blas_step T lp64 rs rs'"
| DSPR: "DSPR lp64 self rs Uplo alpha X incX Ap = Some rs' \<Longrightarrow> client T rs X \<Longrightarrow> client T rs Ap \<Longrightarrow>
    blas_step T lp64 rs rs'"
| DSYR2: "DSYR2 lp64 self rs Uplo alpha X incX Y incY A = Some rs' \<Longrightarrow> client T rs X \<Longrightarrow> client T rs Y \<Longrightarrow> client T rs A \<Longrightarrow>
    blas_step T lp64 rs rs'"
| DSPR2: "DSPR2 lp64 self rs Uplo alpha X incX Y incY Ap = Some rs' \<Longrightarrow> client T rs X \<Longrightarrow> client T rs Y \<Longrightarrow> client T rs Ap \<Longrightarrow>
    blas_step T lp64 rs rs'"
| CHEMV: "CHEMV lp64 self rs Uplo alpha A X incX beta Y incY = Some rs' \<Longrightarrow> client T rs A \<Longrightarrow> client T rs X \<Longrightarrow> client T rs Y \<Longrightarrow>
    blas_step T lp64 rs rs'"
| CHBMV: "CHBMV lp64 self rs Uplo K alpha A X incX beta Y incY = Some rs' \<Longrightarrow> client T rs A \<Longrightarrow> client T rs X \<Longrightarrow> client T rs Y \<Longrightarrow>
    blas_step T lp64 rs rs'"
| CHPMV: "CHPMV lp64 self rs Uplo alpha Ap X incX beta Y incY = Some rs' \<Longrightarrow> client T rs Ap \<Longrightarrow> client T rs X \<Longrightarrow> client T rs Y \<Longrightarrow>
    blas_step T lp64 rs rs'"
| CGERU: "CGERU lp64 self rs alpha X incX Y incY A = Some rs' \<Longrightarrow> client T rs X \<Longrightarrow> client T rs Y \<Longrightarrow> client T rs A \<Longrightarrow>
    blas_step T lp64 rs rs'"
| CGERC: "CGERC lp64 self rs alpha X incX Y incY A = Some rs' \<Longrightarrow> client T rs X \<Longrightarrow> client T rs Y \<Longrightarrow> client T rs A \<Longrightarrow>
    blas_step T lp64 rs rs'"
| CHER: "CHER lp64 self rs Uplo alpha X incX A = Some rs' \<Longrightarrow> client T rs X \<Longrightarrow> client T rs A \<Longrightarrow>
    blas_step T lp64 rs rs'"
| CHPR: "CHPR lp64 self rs Uplo alpha X incX Ap = Some rs' \<Longrightarrow> client T rs X \<Longrightarrow> client T rs Ap \<Longrightarrow>
    blas_step T lp64 rs rs'"
| CHER2: "CHER2 lp64 self rs Uplo alpha X incX Y incY A = Some rs' \<Longrightarrow> client T rs X \<Longrightarrow> client T rs Y \<Longrightarrow> client T rs A \<Longrightarrow>
    blas_step T lp64 rs rs'"
| CHPR2: "CHPR2 lp64 self rs Uplo alpha X incX Y incY Ap = Some rs' \<Longrightarrow> client T rs X \<Longrightarrow> client T rs Y \<Longrightarrow> client T rs Ap \<Longrightarrow>
    blas_step T lp64 rs rs'"
| ZHEMV: "ZHEMV lp64 self rs Uplo alpha A X incX beta Y incY = Some rs' \<Longrightarrow> client T rs A \<Longrightarrow> client T rs X \<Longrightarrow> client T rs Y \<Longrightarrow>
    blas_step T lp64 rs rs'"
| ZHBMV: "ZHBMV lp64 self rs Uplo K alpha A X incX beta Y incY = Some rs' \<Longrightarrow> client T rs A \<Longrightarrow> client T rs X \<Longrightarrow> client T rs Y \<Longrightarrow>
    blas_step T lp64 rs rs'"
| ZHPMV: "ZHPMV lp64 self rs Uplo alpha Ap X incX beta Y incY = Some rs' \<Longrightarrow> client T rs Ap \<Longrightarrow> client T rs X \<Longrightarrow> client T rs Y \<Longrightarrow>
    blas_step T lp64 rs rs'"
| ZGERU: "ZGERU lp64 self rs alpha X incX Y incY A = Some rs' \<Longrightarrow> client T rs X \<Longrightarrow> client T rs Y \<Longrightarrow> client T rs A \<Longrightarrow>
    blas_step T lp64 rs rs'"
| ZGERC: "ZGERC lp64 self rs alpha X incX Y incY A = Some rs' \<Longrightarrow> client T rs X \<Longrightarrow> client T rs Y \<Longrightarrow> client T rs A \<Longrightarrow>
    blas_step T lp64 rs rs'"
| ZHER: "ZHER lp64 self rs Uplo alpha X incX A = Some rs' \<Longrightarrow> client T rs X \<Longrightarrow> client T rs A \<Longrightarrow>
    blas_step T lp64 rs rs'"
| ZHPR: "ZHPR lp64 self rs Uplo alpha X incX Ap = Some rs' \<Longrightarrow> client T rs X \<Longrightarrow> client T rs Ap \<Longrightarrow>
    blas_step T lp64 rs rs'"
| ZHER2: "ZHER2 lp64 self rs Uplo alpha X incX Y incY A = Some rs' \<Longrightarrow> client T rs X \<Longrightarrow> client T rs Y \<Longrightarrow> client T rs A \<Longrightarrow>
    blas_step T lp64 rs rs'"
| ZHPR2: "ZHPR2 lp64 self rs Uplo alpha X incX Y incY Ap = Some rs' \<Longrightarrow> client T rs X \<Longrightarrow> client T rs Y \<Longrightarrow> client T rs Ap \<Longrightarrow>
    blas_step T lp64 rs rs'"
| SGEMM: "SGEMM lp64 self rs TransA TransB alpha A B beta C = Some rs' \<Longrightarrow> client T rs A \<Longrightarrow> client T rs B \<Longrightarrow> client T rs C \<Longrightarrow>
    blas_step T lp64 rs rs'"
| DGEMM: "DGEMM lp64 self rs TransA TransB alpha A B beta C = Some rs' \<Longrightarrow> client T rs A \<Longrightarrow> client T rs B \<Longrightarrow> client T rs C \<Longrightarrow>
    blas_step T lp64 rs rs'"
| CGEMM: "CGEMM lp64 self rs TransA TransB alpha A B beta C = Some rs' \<Longrightarrow> client T rs A \<Longrightarrow> client T rs B \<Longrightarrow> client T rs C \<Longrightarrow>
    blas_step T lp64 rs rs'"
| ZGEMM: "ZGEMM lp64 self rs TransA TransB alpha A B beta C = Some rs' \<Longrightarrow> client T rs A \<Longrightarrow> client T rs B \<Longrightarrow> client T rs C \<Longrightarrow>
    blas_step T lp64 rs rs'"
| SSYMM: "SSYMM lp64 self rs Side Uplo alpha A B beta C = Some rs' \<Longrightarrow> client T rs A \<Longrightarrow> client T rs B \<Longrightarrow> client T rs C \<Longrightarrow>
    blas_step T lp64 rs rs'"
| DSYMM: "DSYMM lp64 self rs Side Uplo alpha A B beta C = Some rs' \<Longrightarrow> client T rs A \<Longrightarrow> client T rs B \<Longrightarrow> client T rs C \<Longrightarrow>
    blas_step T lp64 rs rs'"
| CSYMM: "CSYMM lp64 self rs Side Uplo alpha A B beta C = Some rs' \<Longrightarrow> client T rs A \<Longrightarrow> client T rs B \<Longrightarrow> client T rs C \<Longrightarrow>
    blas_step T lp64 rs rs'"
| ZSYMM: "ZSYMM lp64 self rs Side Uplo alpha A B beta C = Some rs' \<Longrightarrow> client T rs A \<Longrightarrow> client T rs B \<Longrightarrow> client T rs C \<Longrightarrow>
    blas_step T lp64 rs rs'"
| SSYRK: "SSYRK lp64 self rs Uplo Trans alpha A beta C = Some rs' \<Longrightarrow> client T rs A \<Longrightarrow> client T rs C \<Longrightarrow>
    blas_step T lp64 rs rs'"
| DSYRK: "DSYRK lp64 self rs Uplo Trans alpha A beta C = Some rs' \<Longrightarrow> client T rs A \<Longrightarrow> client T rs C \<Longrightarrow>
    blas_step T lp64 rs rs'"
| CSYRK: "CSYRK lp64 self rs Uplo Trans alpha A beta C = Some rs' \<Longrightarrow> client T rs A \<Longrightarrow> client T rs C \<Longrightarrow>
    blas_step T lp64 rs rs'"
| ZSYRK: "ZSYRK lp64 self rs Uplo Trans alpha A beta C = Some rs' \<Longrightarrow> client T rs A \<Longrightarrow> client T rs C \<Longrightarrow>
    blas_step T lp64 rs rs'"
| SSYR2K: "SSYR2K lp64 self rs Uplo Trans alpha A B beta C = Some rs' \<Longrightarrow> client T rs A \<Longrightarrow> client T rs B \<Longrightarrow> client T rs C \<Longrightarrow>
    blas_step T lp64 rs rs'"
| DSYR2K: "DSYR2K lp64 self rs Uplo Trans alpha A B beta C = Some rs' \<Longrightarrow> client T rs A \<Longrightarrow> client T rs B \<Longrightarrow> client T rs C \<Longrightarrow>
    blas_step T lp64 rs rs'"
| CSYR2K: "CSYR2K lp64 self rs Uplo Trans alpha A B beta C = Some rs' \<Longrightarrow> client T rs A \<Longrightarrow> client T rs B \<Longrightarrow> client T rs C \<Longrightarrow>
    blas_step T lp64 rs rs'"
| ZSYR2K: "ZSYR2K lp64 self rs Uplo Trans alpha A B beta C = Some rs' \<Longrightarrow> client T rs A \<Longrightarrow> client T rs B \<Longrightarrow> client T rs C \<Longrightarrow>
    blas_step T lp64 rs rs'"
| STRMM: "STRMM lp64 self rs Side Uplo TransA Diag alpha A B = Some rs' \<Longrightarrow> client T rs A \<Longrightarrow> client T rs B \<Longrightarrow>
    blas_step T lp64 rs rs'"
| DTRMM: "DTRMM lp64 self rs Side Uplo TransA Diag alpha A B = Some rs' \<Longrightarrow> client T rs A \<Longrightarrow> client T rs B \<Longrightarrow>
    blas_step T lp64 rs rs'"
| CTRMM: "CTRMM lp64 self rs Side Uplo TransA Diag alpha A B = Some rs' \<Longrightarrow> client T rs A \<Longrightarrow> client T rs B \<Longrightarrow>
    blas_step T lp64 rs rs'"
| ZTRMM: "ZTRMM lp64 self rs Side Uplo TransA Diag alpha A B = Some rs' \<Longrightarrow> client T rs A \<Longrightarrow> client T rs B \<Longrightarrow>
    blas_step T lp64 rs rs'"
| STRSM: "STRSM lp64 self rs Side Uplo TransA Diag alpha A B = Some rs' \<Longrightarrow> client T rs A \<Longrightarrow> client T rs B \<Longrightarrow>
    blas_step T lp64 rs rs'"
| DTRSM: "DTRSM lp64 self rs Side Uplo TransA Diag alpha A B = Some rs' \<Longrightarrow> client T rs A \<Longrightarrow> client T rs B \<Longrightarrow>
    blas_step T lp64 rs rs'"
| CTRSM: "CTRSM lp64 self rs Side Uplo TransA Diag alpha A B = Some rs' \<Longrightarrow> client T rs A \<Longrightarrow> client T rs B \<Longrightarrow>
    blas_step T lp64 rs rs'"
| ZTRSM: "ZTRSM lp64 self rs Side Uplo TransA Diag alpha A B = Some rs' \<Longrightarrow> client T rs A \<Longrightarrow> client T rs B \<Longrightarrow>
    blas_step T lp64 rs rs'"
| CHEMM: "CHEMM lp64 self rs Side Uplo alpha A B beta C = Some rs' \<Longrightarrow> client T rs A \<Longrightarrow> client T rs B \<Longrightarrow> client T rs C \<Longrightarrow>
    blas_step T lp64 rs rs'"
| ZHEMM: "ZHEMM lp64 self rs Side Uplo alpha A B beta C = Some rs' \<Longrightarrow> client T rs A \<Longrightarrow> client T rs B \<Longrightarrow> client T rs C \<Longrightarrow>
    blas_step T lp64 rs rs'"
| CHERK: "CHERK lp64 self rs Uplo Trans alpha A beta C = Some rs' \<Longrightarrow> client T rs A \<Longrightarrow> client T rs C \<Longrightarrow>
    blas_step T lp64 rs rs'"
| ZHERK: "ZHERK lp64 self rs Uplo Trans alpha A beta C = Some rs' \<Longrightarrow> client T rs A \<Longrightarrow> client T rs C \<Longrightarrow>
    blas_step T lp64 rs rs'"
| CHER2K: "CHER2K lp64 self rs Uplo Trans alpha A B beta C = Some rs' \<Longrightarrow> client T rs A \<Longrightarrow> client T rs B \<Longrightarrow> client T rs C \<Longrightarrow>
    blas_step T lp64 rs rs'"
| ZHER2K: "ZHER2K lp64 self rs Uplo Trans alpha A B beta C = Some rs' \<Longrightarrow> client T rs A \<Longrightarrow> client T rs B \<Longrightarrow> client T rs C \<Longrightarrow>
    blas_step T lp64 rs rs'"
| BNNM: "BNNM lp64 self rs A a_offset B b_offset C c_offset c_mult = Some rs' \<Longrightarrow> client T rs A \<Longrightarrow> client T rs B \<Longrightarrow> client T rs C \<Longrightarrow>
    blas_step T lp64 rs rs'"

lemmas nScript_defs = nScriptIntrinsicBLAS_Single_def nScriptIntrinsicBLAS_Double_def
  nScriptIntrinsicBLAS_Complex_def nScriptIntrinsicBLAS_Z_def nScriptIntrinsicBLAS_BNNM_def

lemmas sends = sgemv_send sgbmv_send strmv_send stbmv_send stpmv_send stbsv_send ssymv_send ssbmv_send sspmv_send sger_send ssyr_send sspr_send ssyr2_send sspr2_send chemv_send chbmv_send chpmv_send cgeru_send cher_send chpr_send sgemm_send ssymm_send ssyrk_send ssyr2k_send strmm_send strsm_send chemm_send cherk_send cher2k_send bnnm_send

lemma blas_step_ok:
  assumes "blas_step T lp64 rs rs'" and "blas_inv T rs"
  shows "blas_ok T rs rs'"
  using assms
  by (cases rule: blas_step.cases)
    (unfold blas_method nScript_defs,
      (erule sends; (assumption | simp add: call_like_def fns_defs blas_enum func_bytes_def zero_call_def))+)

lemma blas_steps_ok:
  assumes "(blas_step T lp64)\<^sup>*\<^sup>* rs rs'" and "blas_inv T rs"
  shows "blas_ok T rs rs'"
  using assms
proof (induction rule: rtranclp_induct)
  case base
  then show ?case
    by (simp add: blas_ok_def)
next
  case (step rs1 rs2)
  then have "blas_ok T rs rs1" "blas_ok T rs1 rs2"
    using blas_step_ok by (auto simp: blas_ok_def)
  then show ?case
    by (auto simp: blas_ok_def)
qed

section \<open>Properties\<close>

text \<open>A client with one cached element, and allocations over it, for concrete runs.\<close>

definition demo_F32 :: CElement where
  "demo_F32 = Element_scalar 1 5 RS_TYPE_FLOAT_32 RS_KIND_USER False 1"

definition demo_client :: BRS where
  "demo_client = \<lparr>rsContext = rsContext (empty_CRS 1), mCurrentError = RS_SUCCESS,
     mElems = (\<lambda>n. if n = ''F32'' then Some demo_F32 else None), mNextThis = 2, mForEach = []\<rparr>"

definition demo_alloc :: "nat \<Rightarrow> u32 \<Rightarrow> u32 \<Rightarrow> CAllocation" where
  "demo_alloc i x y = \<lparr>caID = i, caType = new_CType 9 demo_F32 x y 0 False False 0\<rparr>"

lemma demo_alloc_sel [simp]:
  "caID (demo_alloc i x y) = i" "ctDimX (caType (demo_alloc i x y)) = x" "ctDimY (caType (demo_alloc i x y)) = y"
  "ctElement (caType (demo_alloc i x y)) = demo_F32"
  by (simp_all add: demo_alloc_def new_CType_def)

lemma demo_client_sel [simp]:
  "mCurrentError demo_client = RS_SUCCESS" "mElems demo_client ''F32'' = Some demo_F32" "mForEach demo_client = []"
  "ceSizeBytes demo_F32 = 4" "isCompatible demo_F32 demo_F32"
  by (simp_all add: demo_client_def demo_F32_def scalar_sel isCompatible_def)

lemma demo_client_ok: "elems_ok demo_client" "known demo_client demo_F32"
  by (auto simp: elems_ok_def known_def demo_client_def demo_F32_def scalar_sel name_bytes_def split: if_splits)

lemma element_cached: "mElems rs n = Some e \<Longrightarrow> element_of lp64 rs n = Some (rs, e)"
  by (simp add: element_of_def predefined_def)

lemma throw_if_False [simp]: "throw_if False rs k = rs"
  by (simp add: throw_if_def)

text \<open>
  C5. Whatever sequence of methods an application calls, with whatever arguments for which the call is
  defined, every command that reaches the runtime has passed the checks of its family and is legal:
  the matrices, bands, vectors and packed triangles that its dimensions and increments describe lie
  inside the allocations it names, cells have the size of the precision, and absent operands are null
  handles. There are two exceptions, which the methods do not check: a band that is wider than the
  matrix, and \<open>SYR2K\<close> with a conjugate transpose. Calls that read through a null allocation or whose
  expected vector length overflows are undefined and not covered.
\<close>

theorem blas_commands_legal:
  assumes "(blas_step T lp64)\<^sup>*\<^sup>* rs rs'" and "elems_ok rs" and "mForEach rs = []"
  shows "\<forall>c \<in> set (mForEach rs'). blas_checked T c \<and> (blas_unchecked c \<or> blas_legal T c)"
  using blas_steps_ok [OF assms(1)] assms(2,3) checked_legal by (auto simp: blas_ok_def blas_inv_def)

theorem blas_commands_legal_witness:
  "let T = (\<lambda>h. if h = 1 then Some (caType (demo_alloc 1 3 2)) else if h = 2 then Some (caType (demo_alloc 2 4 3))
        else if h = 3 then Some (caType (demo_alloc 3 4 2)) else None)
   in \<exists>c. mForEach (the (SGEMM True 7 demo_client RsBlasNoTrans RsBlasNoTrans 5 (Some (demo_alloc 1 3 2))
        (Some (demo_alloc 2 4 3)) 6 (Some (demo_alloc 3 4 2)))) = [c] \<and> bM (cCall c) = 2 \<and> bN (cCall c) = 4 \<and> bK (cCall c) = 3 \<and>
      blas_legal T c"
proof -
  define T where "T = (\<lambda>h. if h = 1 then Some (caType (demo_alloc 1 3 2)) else if h = 2 then Some (caType (demo_alloc 2 4 3))
        else if h = (3 :: nat) then Some (caType (demo_alloc 3 4 2)) else None)"
  let ?r = "SGEMM True 7 demo_client RsBlasNoTrans RsBlasNoTrans 5 (Some (demo_alloc 1 3 2))
        (Some (demo_alloc 2 4 3)) 6 (Some (demo_alloc 3 4 2))"
  have r: "?r \<noteq> None" "\<exists>c. mForEach (the ?r) = [c] \<and> bM (cCall c) = 2 \<and> bN (cCall c) = 4 \<and> bK (cCall c) = 3 \<and>
      bFunc (cCall c) = RsBlas_sgemm"
    by (simp_all add: SGEMM_def element_cached validateL3_def l3_operand_def present_wrong_def nScript_defs
        tryDispatch_def getError_def)
  have "client T demo_client (Some (demo_alloc 1 3 2))" "client T demo_client (Some (demo_alloc 2 4 3))"
    "client T demo_client (Some (demo_alloc 3 4 2))"
    by (simp_all add: client_def T_def demo_client_ok)
  moreover have "?r = Some (the ?r)"
    using r(1) by simp
  ultimately have "blas_step T True demo_client (the ?r)"
    by (intro blas_step.SGEMM)
  then have "\<forall>c \<in> set (mForEach (the ?r)). blas_checked T c \<and> (blas_unchecked c \<or> blas_legal T c)"
    by (intro blas_commands_legal [of T True demo_client]) (simp_all add: demo_client_ok r_into_rtranclp)
  then show ?thesis
    using r(2) unfolding Let_def T_def [symmetric] by (auto simp: blas_unchecked_def fns_defs blas_enum)
qed

text \<open>
  C18. A multiplication whose operands agree is always accepted: with the operands transposed or not as
  requested, \<open>SGEMM\<close> sends exactly one command, with the dimensions of the operands and the scalars
  of the caller.
\<close>

theorem SGEMM_sends:
  assumes "mElems rs ''F32'' = Some e" and "mCurrentError rs = RS_SUCCESS"
    and "trans_mat_ok e A (TransA \<noteq> RsBlasNoTrans) M K" and "trans_mat_ok e B (TransB \<noteq> RsBlasNoTrans) K N"
    and "mat_ok e C M N" and "getID A = Some a" and "getID B = Some b" and "getID C = Some c"
  shows "\<exists>call. SGEMM lp64 self rs TransA TransB alpha A B beta C =
      Some (rs\<lparr>mForEach := mForEach rs @ [\<lparr>cScript = self, cA = a, cB = b, cC = c, cCall = call\<rparr>]\<rparr>) \<and>
    bFunc call = RsBlas_sgemm \<and> bTransA call = trans_val TransA \<and> bTransB call = trans_val TransB \<and>
    bM call = M \<and> bN call = N \<and> bK call = K \<and> get_f (bAlpha call) = alpha \<and> get_f (bBeta call) = beta"
proof -
  have "validateL3 rs e (trans_val TransA) (trans_val TransB) 0 A B C = Some rs"
    using assms(3-5) by (cases TransA; cases TransB)
      (auto simp: validateL3_def l3_operand_def present_wrong_def ok3_defs)
  then show ?thesis
    using assms by (cases TransA; cases TransB)
      (auto simp: SGEMM_def element_cached nScript_defs tryDispatch_def getError_def ok3_defs setUpBLASCall_scalars)
qed

theorem SGEMM_sends_witness:
  "\<exists>call. SGEMM True 7 demo_client RsBlasTrans RsBlasNoTrans 5 (Some (demo_alloc 1 2 3)) (Some (demo_alloc 2 4 3)) 6
        (Some (demo_alloc 3 4 2)) =
      Some (demo_client\<lparr>mForEach := [\<lparr>cScript = 7, cA = 1, cB = 2, cC = 3, cCall = call\<rparr>]\<rparr>) \<and>
    bM call = 2 \<and> bN call = 4 \<and> bK call = 3 \<and> get_f (bAlpha call) = 5 \<and> get_f (bBeta call) = 6"
  using SGEMM_sends [of demo_client demo_F32 "Some (demo_alloc 1 2 3)" RsBlasTrans 2 3 "Some (demo_alloc 2 4 3)" RsBlasNoTrans 4
      "Some (demo_alloc 3 4 2)" 1 2 3 True 7 5 6]
  by (auto simp: ok3_defs)

text \<open>
  C19. After an error the context is dead, as the documentation of the error codes says: no method sends
  a command any more, and the first error stays.
\<close>

theorem blas_error_sticky:
  assumes "(blas_step T lp64)\<^sup>*\<^sup>* rs rs'" and "elems_ok rs" and "mForEach rs = []" and "mCurrentError rs \<noteq> RS_SUCCESS"
  shows "mForEach rs' = [] \<and> mCurrentError rs' = mCurrentError rs"
  using blas_steps_ok [OF assms(1)] assms(2-4) by (simp add: blas_ok_def blas_inv_def)

theorem blas_error_sticky_witness:
  "let rs = throwError demo_client RS_ERROR_INVALID_PARAMETER
   in \<exists>rs'. SGEMM True 7 rs RsBlasNoTrans RsBlasNoTrans 5 (Some (demo_alloc 1 2 2)) (Some (demo_alloc 1 2 2)) 6
        (Some (demo_alloc 1 2 2)) = Some rs' \<and> mForEach rs' = [] \<and> mCurrentError rs' = RS_ERROR_INVALID_PARAMETER"
proof -
  let ?T = "\<lambda>h :: nat. Some (caType (demo_alloc 1 2 2))"
  let ?rs = "throwError demo_client RS_ERROR_INVALID_PARAMETER"
  have rs: "elems_ok ?rs" "known ?rs demo_F32" "mCurrentError ?rs = RS_ERROR_INVALID_PARAMETER" "mForEach ?rs = []"
      "mElems ?rs ''F32'' = Some demo_F32"
    using demo_client_ok unfolding throwError_def elems_ok_def known_def by auto
  obtain rs' where r: "SGEMM True 7 ?rs RsBlasNoTrans RsBlasNoTrans 5 (Some (demo_alloc 1 2 2)) (Some (demo_alloc 1 2 2)) 6
        (Some (demo_alloc 1 2 2)) = Some rs'"
    by (simp add: SGEMM_def element_cached rs(5) validateL3_def l3_operand_def present_wrong_def)
  have "client ?T ?rs (Some (demo_alloc 1 2 2))"
    by (simp add: client_def rs(2))
  with r have "blas_step ?T True ?rs rs'"
    by (intro blas_step.SGEMM) auto
  then have "mForEach rs' = [] \<and> mCurrentError rs' = mCurrentError ?rs"
    by (intro blas_error_sticky [of ?T True]) (simp_all add: rs r_into_rtranclp)
  then show ?thesis
    using r by (simp add: rs(3))
qed

text \<open>
  C28. The check of \<open>SYR2K\<close> tests for a transpose only, while the dimension \<open>K\<close> is taken for both kinds of
  transpose. With a conjugate transpose it accepts operands with fewer columns than the result has
  rows, and the command describes a matrix that is not in the allocation.
\<close>

theorem SSYR2K_conj_unchecked:
  assumes "mElems rs ''F32'' = Some e" and "mCurrentError rs = RS_SUCCESS"
    and "mat_ok e (Some a) p q" and "mat_ok e B p q" and "mat_ok e C p p" and "getID B = Some b" and "getID C = Some c"
    and "uint (ctDimX (caType a)) < p" and "T (caID a) = Some (caType a)"
  shows "\<exists>call. SSYR2K lp64 self rs Uplo RsBlasConjTrans alpha (Some a) B beta C =
      Some (rs\<lparr>mForEach := mForEach rs @ [\<lparr>cScript = self, cA = caID a, cB = b, cC = c, cCall = call\<rparr>]\<rparr>) \<and>
    bTransA call = trans_val RsBlasConjTrans \<and> bN call = p \<and> bK call = p \<and>
    \<not> in_tmat T s (caID a) (bTransA call) (bN call) (bK call)"
proof -
  let ?call = "setUpBLASCall SINGLE RsBlas_ssyr2k (trans_val RsBlasConjTrans) 0 0 (uplo_val Uplo) 0 0 p p 0 0 0 0
    alpha beta 0 0 0 0 0 0 0 0 0 0"
  have "SSYR2K lp64 self rs Uplo RsBlasConjTrans alpha (Some a) B beta C =
      Some (rs\<lparr>mForEach := mForEach rs @ [\<lparr>cScript = self, cA = caID a, cB = b, cC = c, cCall = ?call\<rparr>]\<rparr>)"
    using assms by (auto simp: SSYR2K_def element_cached validateSYR2K_def nScript_defs tryDispatch_def getError_def mat_ok_def)
  moreover have "\<not> in_tmat T s (caID a) (bTransA ?call) (bN ?call) (bK ?call)"
    using assms by (auto simp: in_tmat_def in_mat_def)
  ultimately show ?thesis
    by (intro exI [of _ ?call]) simp
qed

theorem SSYR2K_conj_unchecked_witness:
  "\<exists>call. SSYR2K True 7 demo_client RsBlasUpper RsBlasConjTrans 5 (Some (demo_alloc 1 2 9)) (Some (demo_alloc 2 2 9)) 6
        (Some (demo_alloc 3 9 9)) =
      Some (demo_client\<lparr>mForEach := [\<lparr>cScript = 7, cA = 1, cB = 2, cC = 3, cCall = call\<rparr>]\<rparr>) \<and>
    \<not> in_tmat (\<lambda>h. Some (caType (demo_alloc 1 2 9))) 4 1 (bTransA call) (bN call) (bK call)"
  using SSYR2K_conj_unchecked [of demo_client demo_F32 "demo_alloc 1 2 9" 9 2 "Some (demo_alloc 2 2 9)" "Some (demo_alloc 3 9 9)"
      2 3 "\<lambda>h. Some (caType (demo_alloc 1 2 9))" True 7 RsBlasUpper 5 6 4]
  by (auto simp: mat_ok_def)

text \<open>
  C29. The methods on band matrices check that the numbers of diagonals are not negative, but not that
  the matrix has that many columns. With operands that agree otherwise, \<open>SGBMV\<close> sends the command for
  any such numbers, and when \<open>KL + KU + 1\<close> exceeds the width of the matrix the documented region
  is not in the allocation.
\<close>

theorem SGBMV_band_unchecked:
  assumes "mElems rs ''F32'' = Some e" and "mCurrentError rs = RS_SUCCESS" and "0 \<le> KL" and "0 \<le> KU"
    and "mat_ok e (Some a) M N" and "isCompatible (ctElement (caType x)) e" and "isCompatible (ctElement (caType y)) e"
    and "ctDimY (caType x) \<le> 1" and "ctDimY (caType y) \<le> 1" and "0 < incX" and "0 < incY"
    and "expectedDim (if TransA = RsBlasNoTrans then N else M) incX = Some (sint (ctDimX (caType x)))"
    and "expectedDim (if TransA = RsBlasNoTrans then M else N) incY = Some (sint (ctDimX (caType y)))"
    and "uint (ctDimX (caType a)) < KL + KU + 1" and "T (caID a) = Some (caType a)"
  shows "\<exists>call. SGBMV lp64 self rs TransA KL KU alpha (Some a) (Some x) incX beta (Some y) incY =
      Some (rs\<lparr>mForEach := mForEach rs @ [\<lparr>cScript = self, cA = caID a, cB = caID x, cC = caID y, cCall = call\<rparr>]\<rparr>) \<and>
    bFunc call = RsBlas_sgbmv \<and> bM call = M \<and> bN call = N \<and> bKL call = KL \<and> bKU call = KU \<and>
    \<not> blas_legal T \<lparr>cScript = self, cA = caID a, cB = caID x, cC = caID y, cCall = call\<rparr>"
proof -
  let ?call = "setUpBLASCall SINGLE RsBlas_sgbmv (trans_val TransA) 0 0 0 0 M N 0 incX incY KL KU
    alpha beta 0 0 0 0 0 0 0 0 0 0"
  have "validateGEMV rs e TransA (Some a) (Some x) incX (Some y) incY = Some rs"
    using assms by (auto simp: validateGEMV_def incompatible_def vector_2d_def differ_def mat_ok_def throw_if_def split: if_splits dest: leD)
  then have "SGBMV lp64 self rs TransA KL KU alpha (Some a) (Some x) incX beta (Some y) incY =
      Some (rs\<lparr>mForEach := mForEach rs @ [\<lparr>cScript = self, cA = caID a, cB = caID x, cC = caID y, cCall = ?call\<rparr>]\<rparr>)"
    using assms by (auto simp: SGBMV_def element_cached nScript_defs tryDispatch_def getError_def mat_ok_def)
  moreover have "\<not> blas_legal T \<lparr>cScript = self, cA = caID a, cB = caID x, cC = caID y, cCall = ?call\<rparr>"
    using assms by (auto simp: blas_legal_def in_mat_def gbmv_fns_def)
  ultimately show ?thesis
    by (intro exI [of _ ?call]) simp
qed

theorem SGBMV_band_unchecked_witness:
  "\<exists>call. SGBMV True 7 demo_client RsBlasNoTrans 3 4 5 (Some (demo_alloc 1 2 9)) (Some (demo_alloc 2 2 1)) 1 6
        (Some (demo_alloc 3 9 0)) 1 =
      Some (demo_client\<lparr>mForEach := [\<lparr>cScript = 7, cA = 1, cB = 2, cC = 3, cCall = call\<rparr>]\<rparr>) \<and>
    \<not> blas_legal (\<lambda>h. Some (caType (demo_alloc 1 2 9))) \<lparr>cScript = 7, cA = 1, cB = 2, cC = 3, cCall = call\<rparr>"
  using SGBMV_band_unchecked [of demo_client demo_F32 3 4 "demo_alloc 1 2 9" 9 2 "demo_alloc 2 2 1" "demo_alloc 3 9 0" 1 1 RsBlasNoTrans
      "\<lambda>h. Some (caType (demo_alloc 1 2 9))" True 7 5 6]
  by (auto simp: mat_ok_def expectedDim_def int_sub_def int_mul_def int_add_def int_val_def int_fits_def)

end
