(* ===== verification/Cpu_Pool.thy ===== *)
theory Cpu_Pool
  imports Rs_Prelude
begin

text \<open>
  The worker pool of the CPU driver: \<^verbatim>\<open>rsSignal.cpp\<close> and \<^verbatim>\<open>init\<close>, \<^verbatim>\<open>helperThreadProc\<close>,
  \<^verbatim>\<open>launchThreads\<close> and the destructor of \<^verbatim>\<open>cpu_ref/rsCpuCore.cpp\<close>. The threads are program
  counters, an atomic operation or a critical section is one step, and a run is any interleaving of
  such steps. The locale \<open>callback\<close> is the contract between the pool and the function it runs on
  every thread.
\<close>

section \<open>Signals\<close>

text \<open>
  The state of a \<^verbatim>\<open>Signal\<close> is its flag \<^verbatim>\<open>mSet\<close>; every signal has one waiter. \<open>Signal_wait\<close> is
  \<open>None\<close> while the waiter blocks. \<^verbatim>\<open>pthread_cond_wait\<close> may also return without a signal, and
  \<open>Signal::wait\<close> does not test the flag again; \<open>spurious\<close> says whether that is considered.
\<close>

definition Signal_set :: "bool \<Rightarrow> bool" where
  "Signal_set mSet = True"

definition Signal_wait :: "bool \<Rightarrow> bool \<Rightarrow> bool option" where
  "Signal_wait spurious mSet = (if mSet \<or> spurious then Some False else None)"

section \<open>The threads\<close>

text \<open>
  A callback has a first local state and a step, which gets the number of the thread, the shared
  state and the local state; it returns when the next local state is \<open>None\<close>.
\<close>

type_synonym ('s, 'p) Callback = "'p \<times> (nat \<Rightarrow> 's \<Rightarrow> 'p \<Rightarrow> 's \<times> 'p option)"

datatype 'p HelperPc = HTop | HWait | HCall 'p | HDec | HSet | HExit

datatype 'p MainPc = MPoll | MFast 'p | MSet nat | MCall 'p | MTest | MWait | MStop nat | MJoin | MReturned

text \<open>\<^verbatim>\<open>mWorkers\<close> with the program counters, \<open>wShared\<close> what \<^verbatim>\<open>mLaunchData\<close> points to.\<close>

record ('s, 'p) Workers =
  wShared :: 's
  mRunningCount :: int
  mLaunchSignals :: "bool list"
  mCompleteSignal :: bool
  mExit :: bool
  wMain :: "'p MainPc"
  wHelpers :: "'p HelperPc list"

definition set_helper :: "nat \<Rightarrow> 'p HelperPc \<Rightarrow> ('s, 'p) Workers \<Rightarrow> ('s, 'p) Workers" where
  "set_helper i h W = W\<lparr>wHelpers := (wHelpers W)[i := h]\<rparr>"

text \<open>The loop of \<open>helperThreadProc\<close>; \<open>None\<close> when the thread cannot make a step.\<close>

definition helper_step :: "('s, 'p) Callback option \<Rightarrow> bool \<Rightarrow> nat \<Rightarrow> ('s, 'p) Workers \<Rightarrow> ('s, 'p) Workers option" where
  "helper_step mLaunchCallback spurious i W = (case wHelpers W ! i of
     HTop \<Rightarrow> Some (set_helper i (if mExit W then HExit else HWait) W)
   | HWait \<Rightarrow> (case Signal_wait spurious (mLaunchSignals W ! i) of None \<Rightarrow> None
       | Some b \<Rightarrow> Some (set_helper i (case mLaunchCallback of None \<Rightarrow> HDec | Some (p, _) \<Rightarrow> HCall p)
           (W\<lparr>mLaunchSignals := (mLaunchSignals W)[i := b]\<rparr>)))
   | HCall p \<Rightarrow> (case mLaunchCallback of None \<Rightarrow> None
       | Some (_, f) \<Rightarrow> (let (s, r) = f (i + 1) (wShared W) p in
           Some (set_helper i (case r of None \<Rightarrow> HDec | Some p \<Rightarrow> HCall p) (W\<lparr>wShared := s\<rparr>))))
   | HDec \<Rightarrow> Some (set_helper i HSet (W\<lparr>mRunningCount := mRunningCount W - 1\<rparr>))
   | HSet \<Rightarrow> Some (set_helper i HTop (W\<lparr>mCompleteSignal := Signal_set (mCompleteSignal W)\<rparr>))
   | HExit \<Rightarrow> None)"

text \<open>
  The thread that owns the pool: \<open>MPoll\<close> is the loop at the end of \<open>init\<close>, \<open>MFast\<close> to \<open>MWait\<close> is
  \<open>launchThreads\<close>, \<open>MStop\<close> and \<open>MJoin\<close> are the destructor.
\<close>

definition main_step :: "('s, 'p) Callback option \<Rightarrow> bool \<Rightarrow> ('s, 'p) Workers \<Rightarrow> ('s, 'p) Workers option" where
  "main_step mLaunchCallback spurious W = (case wMain W of
     MPoll \<Rightarrow> if mRunningCount W \<noteq> 0 then None else Some (W\<lparr>wMain := MReturned\<rparr>)
   | MFast p \<Rightarrow> (case mLaunchCallback of None \<Rightarrow> None
       | Some (_, f) \<Rightarrow> (let (s, r) = f 0 (wShared W) p in
           Some (W\<lparr>wShared := s, wMain := (case r of None \<Rightarrow> MReturned | Some p \<Rightarrow> MFast p)\<rparr>)))
   | MSet ct \<Rightarrow> if ct < length (wHelpers W)
       then Some (W\<lparr>mLaunchSignals := (mLaunchSignals W)[ct := Signal_set (mLaunchSignals W ! ct)], wMain := MSet (ct + 1)\<rparr>)
       else Some (W\<lparr>wMain := (case mLaunchCallback of None \<Rightarrow> MTest | Some (p, _) \<Rightarrow> MCall p)\<rparr>)
   | MCall p \<Rightarrow> (case mLaunchCallback of None \<Rightarrow> None
       | Some (_, f) \<Rightarrow> (let (s, r) = f 0 (wShared W) p in
           Some (W\<lparr>wShared := s, wMain := (case r of None \<Rightarrow> MTest | Some p \<Rightarrow> MCall p)\<rparr>)))
   | MTest \<Rightarrow> Some (W\<lparr>wMain := (if mRunningCount W \<noteq> 0 then MWait else MReturned)\<rparr>)
   | MWait \<Rightarrow> (case Signal_wait spurious (mCompleteSignal W) of None \<Rightarrow> None
       | Some b \<Rightarrow> Some (W\<lparr>mCompleteSignal := b, wMain := MTest\<rparr>))
   | MStop ct \<Rightarrow> if ct < length (wHelpers W)
       then Some (W\<lparr>mLaunchSignals := (mLaunchSignals W)[ct := Signal_set (mLaunchSignals W ! ct)], wMain := MStop (ct + 1)\<rparr>)
       else Some (W\<lparr>wMain := MJoin\<rparr>)
   | MJoin \<Rightarrow> if set (wHelpers W) \<subseteq> {HExit} then Some (W\<lparr>wMain := MReturned\<rparr>) else None
   | MReturned \<Rightarrow> None)"

inductive pool_step :: "('s, 'p) Callback option \<Rightarrow> bool \<Rightarrow> ('s, 'p) Workers \<Rightarrow> ('s, 'p) Workers \<Rightarrow> bool"
  for cb spurious where
  main: "main_step cb spurious W = Some W' \<Longrightarrow> pool_step cb spurious W W'"
| helper: "i < length (wHelpers W) \<Longrightarrow> helper_step cb spurious i W = Some W' \<Longrightarrow> pool_step cb spurious W W'"

inductive_cases pool_step_cases: "pool_step cb spurious W W'"

section \<open>The operations of the pool\<close>

text \<open>
  \<open>init\<close> after the creation of the threads: the signals are constructed set, and \<^verbatim>\<open>created\<close> of the
  \<^verbatim>\<open>wanted\<close> threads exist.
\<close>

definition Workers_init :: "nat \<Rightarrow> nat \<Rightarrow> 's \<Rightarrow> ('s, 'p) Workers" where
  "Workers_init wanted created s = \<lparr>wShared = s, mRunningCount = int wanted, mLaunchSignals = replicate created True,
     mCompleteSignal = False, mExit = False, wMain = MPoll, wHelpers = replicate created HTop\<rparr>"

text \<open>\<open>getThreadCount\<close>\<close>

definition getThreadCount :: "('s, 'p) Workers \<Rightarrow> nat" where
  "getThreadCount W = length (wHelpers W) + 1"

text \<open>The test for very small launches, with the fields of \<^verbatim>\<open>MTLaunchStructCommon\<close> it reads.\<close>

definition launch_fast :: "u32 \<Rightarrow> u32 \<Rightarrow> u32 \<Rightarrow> u32 \<Rightarrow> bool" where
  "launch_fast dimY endX startX mSliceSize \<longleftrightarrow> dimY \<le> 1 \<and> endX \<le> startX + mSliceSize"

definition launchThreads :: "('s, 'p) Callback option \<Rightarrow> bool \<Rightarrow> 's \<Rightarrow> ('s, 'p) Workers \<Rightarrow> ('s, 'p) Workers" where
  "launchThreads cbk fast data W = (if fast
     then W\<lparr>wShared := data, wMain := (case cbk of None \<Rightarrow> MReturned | Some (p, _) \<Rightarrow> MFast p)\<rparr>
     else W\<lparr>wShared := data, mRunningCount := int (length (wHelpers W)), wMain := MSet 0\<rparr>)"

definition Workers_stop :: "('s, 'p) Workers \<Rightarrow> ('s, 'p) Workers" where
  "Workers_stop W = W\<lparr>mExit := True, mRunningCount := int (length (wHelpers W)), wMain := MStop 0\<rparr>"

section \<open>The invariant of a launch\<close>

text \<open>
  A helper is \<open>pending\<close> when its signal will be or is set, and \<open>busy\<close> until it has decremented the
  counter. The counter is the number of busy helpers, so it is 0 only when all of them have returned
  from the callback.
\<close>

definition pending :: "('s, 'p) Workers \<Rightarrow> nat \<Rightarrow> bool" where
  "pending W i \<longleftrightarrow> (\<exists>ct \<le> i. wMain W = MSet ct) \<or> mLaunchSignals W ! i"

primrec busy_pc :: "'p HelperPc \<Rightarrow> bool" where
  "busy_pc HTop = False" | "busy_pc HWait = False" | "busy_pc (HCall p) = True" | "busy_pc HDec = True"
| "busy_pc HSet = False" | "busy_pc HExit = False"

definition busy :: "('s, 'p) Workers \<Rightarrow> nat \<Rightarrow> bool" where
  "busy W i \<longleftrightarrow> pending W i \<or> busy_pc (wHelpers W ! i)"

definition num_busy :: "('s, 'p) Workers \<Rightarrow> int" where
  "num_busy W = (\<Sum>i<length (wHelpers W). of_bool (busy W i))"

definition pool_inv :: "('s, 'p) Workers \<Rightarrow> bool" where
  "pool_inv W \<longleftrightarrow> length (mLaunchSignals W) = length (wHelpers W) \<and> \<not> mExit W \<and> HExit \<notin> set (wHelpers W) \<and>
     mRunningCount W = num_busy W \<and>
     (\<forall>i<length (wHelpers W). pending W i \<longrightarrow> \<not> busy_pc (wHelpers W ! i)) \<and>
     (\<forall>ct. wMain W = MSet ct \<longrightarrow>
        ct \<le> length (wHelpers W) \<and> (\<forall>i<length (wHelpers W). ct \<le> i \<longrightarrow> \<not> mLaunchSignals W ! i)) \<and>
     (wMain W = MWait \<longrightarrow> mRunningCount W \<noteq> 0 \<or> mCompleteSignal W \<or> HSet \<in> set (wHelpers W)) \<and>
     (\<forall>ct. wMain W \<noteq> MStop ct) \<and> wMain W \<noteq> MJoin"

lemma set_helper_sel [simp]:
  "wShared (set_helper i h W) = wShared W" "mRunningCount (set_helper i h W) = mRunningCount W"
  "mLaunchSignals (set_helper i h W) = mLaunchSignals W" "mCompleteSignal (set_helper i h W) = mCompleteSignal W"
  "mExit (set_helper i h W) = mExit W" "wMain (set_helper i h W) = wMain W"
  "wHelpers (set_helper i h W) = (wHelpers W)[i := h]"
  by (simp_all add: set_helper_def)

text \<open>A step of one helper changes the pool at its index only.\<close>

lemma busy_update:
  assumes "wHelpers W' = (wHelpers W)[i := h]" and "mLaunchSignals W' = (mLaunchSignals W)[i := b]"
    and "wMain W' = wMain W" and "i < length (wHelpers W)" and "length (mLaunchSignals W) = length (wHelpers W)"
  shows "pending W' j = (if j = i then (\<exists>ct \<le> i. wMain W = MSet ct) \<or> b else pending W j)"
    and "wHelpers W' ! j = (if j = i then h else wHelpers W ! j)"
    and "num_busy W' = num_busy W + of_bool (busy W' i) - of_bool (busy W i)"
proof -
  show "pending W' j = (if j = i then (\<exists>ct \<le> i. wMain W = MSet ct) \<or> b else pending W j)"
    "wHelpers W' ! j = (if j = i then h else wHelpers W ! j)" for j
    using assms by (auto simp: pending_def)
  then have "\<And>j. j \<noteq> i \<Longrightarrow> busy W' j = busy W j"
    by (simp add: busy_def)
  then show "num_busy W' = num_busy W + of_bool (busy W' i) - of_bool (busy W i)"
    using assms(1,4) sum_change [of i "length (wHelpers W)" "\<lambda>j. of_bool (busy W' j) :: int" "\<lambda>j. of_bool (busy W j)"]
    by (simp add: num_busy_def del: sum_of_bool_eq)
qed

lemma pool_inv_update:
  assumes "pool_inv W" and "i < length (wHelpers W)" and "wHelpers W' = (wHelpers W)[i := h]"
    and "mLaunchSignals W' = (mLaunchSignals W)[i := b]" and "wMain W' = wMain W" and "mExit W' = mExit W"
    and "h \<noteq> HExit" and "mRunningCount W' = mRunningCount W + of_bool (busy W' i) - of_bool (busy W i)"
    and "pending W' i \<longrightarrow> \<not> busy_pc h" and "b \<longrightarrow> mLaunchSignals W ! i"
    and "wMain W = MWait \<Longrightarrow> mRunningCount W' \<noteq> 0 \<or> mCompleteSignal W' \<or> HSet \<in> set (wHelpers W')"
  shows "pool_inv W'"
proof -
  have len: "length (mLaunchSignals W) = length (wHelpers W)"
    using assms(1) by (simp add: pool_inv_def)
  note u = busy_update [OF assms(3,4,5,2) len]
  have "HExit \<notin> set (wHelpers W')"
    using assms(1,3,7) set_update_subset_insert [of "wHelpers W" i h] by (auto simp: pool_inv_def)
  moreover have "\<forall>j<length (wHelpers W). pending W' j \<longrightarrow> \<not> busy_pc (wHelpers W' ! j)"
    using assms(1,9) u(1,2) by (auto simp: pool_inv_def)
  moreover have "mRunningCount W' = num_busy W'"
    using assms(1,8) u(3) by (simp add: pool_inv_def)
  moreover have "\<not> (mLaunchSignals W)[i := b] ! j" if "wMain W = MSet ct" "j < length (wHelpers W)" "ct \<le> j" for ct j
    using assms(1,2,10) len that by (auto simp: pool_inv_def nth_list_update)
  ultimately show ?thesis
    using assms(1,3-6,11) len by (simp add: pool_inv_def)
qed

lemma pool_inv_helper:
  assumes "helper_step cb False i W = Some W'" and i: "i < length (wHelpers W)" and inv: "pool_inv W"
  shows "pool_inv W'"
proof -
  have len: "i < length (mLaunchSignals W)" and e: "\<not> mExit W"
    and p: "pending W i \<Longrightarrow> \<not> busy_pc (wHelpers W ! i)"
    and w: "wMain W = MWait \<Longrightarrow> mRunningCount W \<noteq> 0 \<or> mCompleteSignal W \<or> HSet \<in> set (wHelpers W)"
    and s: "\<And>ct. wMain W = MSet ct \<Longrightarrow> ct \<le> i \<Longrightarrow> \<not> mLaunchSignals W ! i"
    using i inv by (auto simp: pool_inv_def)
  have x: "wHelpers W ! i \<noteq> HExit"
    using i inv by (metis nth_mem pool_inv_def)
  have w': "wHelpers W ! i \<noteq> HSet \<Longrightarrow> wMain W = MWait \<Longrightarrow>
      mRunningCount W \<noteq> 0 \<or> mCompleteSignal W \<or> HSet \<in> set ((wHelpers W)[i := h])" for h
    using w set_update_except [of HSet "wHelpers W" i h] by auto
  show ?thesis
  proof (cases "wHelpers W ! i")
    case HTop
    with assms(1) e have "W' = set_helper i HWait W"
      by (simp add: helper_step_def)
    then show ?thesis
      using HTop p w' i len
      by (intro pool_inv_update [OF inv i, where h = HWait and b = "mLaunchSignals W ! i"])
        (auto simp: busy_def pending_def)
  next
    case HWait
    with assms(1) have "mLaunchSignals W ! i" and
        "W' = set_helper i (case cb of None \<Rightarrow> HDec | Some (p, _) \<Rightarrow> HCall p) (W\<lparr>mLaunchSignals := (mLaunchSignals W)[i := False]\<rparr>)"
      by (auto simp: helper_step_def Signal_wait_def split: if_splits)
    then show ?thesis
      using HWait s w' i len
      by (intro pool_inv_update [OF inv i, where h = "case cb of None \<Rightarrow> HDec | Some (p, _) \<Rightarrow> HCall p" and b = False])
        (auto simp: busy_def pending_def split: option.splits MainPc.splits)
  next
    case (HCall q)
    with assms(1) obtain s r where
        "W' = set_helper i (case r of None \<Rightarrow> HDec | Some p \<Rightarrow> HCall p) (W\<lparr>wShared := s\<rparr>)"
      by (cases cb) (auto simp: helper_step_def split: prod.splits)
    then show ?thesis
      using HCall p w' i len
      by (intro pool_inv_update [OF inv i, where h = "case r of None \<Rightarrow> HDec | Some p \<Rightarrow> HCall p" and b = "mLaunchSignals W ! i"])
        (auto simp: busy_def pending_def split: option.splits)
  next
    case HDec
    with assms(1) have "W' = set_helper i HSet (W\<lparr>mRunningCount := mRunningCount W - 1\<rparr>)"
      by (simp add: helper_step_def)
    then show ?thesis
      using HDec p i len set_update_memI [OF i, of HSet]
      by (intro pool_inv_update [OF inv i, where h = HSet and b = "mLaunchSignals W ! i"])
        (auto simp: busy_def pending_def)
  next
    case HSet
    with assms(1) have "W' = set_helper i HTop (W\<lparr>mCompleteSignal := True\<rparr>)"
      by (simp add: helper_step_def Signal_set_def)
    then show ?thesis
      using HSet p i len
      by (intro pool_inv_update [OF inv i, where h = HTop and b = "mLaunchSignals W ! i"])
        (auto simp: busy_def pending_def)
  qed (use x in simp)
qed

text \<open>A step of the main thread does not change which helpers are busy.\<close>

lemma pool_inv_main:
  assumes "main_step cb False W = Some W'" and "pool_inv W"
  shows "pool_inv W'"
proof -
  have len: "length (mLaunchSignals W) = length (wHelpers W)"
    using assms(2) by (simp add: pool_inv_def)
  have h: "wHelpers W' = wHelpers W" "mExit W' = mExit W" "mRunningCount W' = mRunningCount W"
    using assms(1) by (auto simp: main_step_def split: MainPc.splits option.splits if_splits prod.splits)
  have b: "pending W' i = pending W i" if "i < length (wHelpers W)" for i
    using assms that len
    by (auto simp: main_step_def pool_inv_def pending_def Signal_set_def nth_list_update
        split: MainPc.splits option.splits if_splits prod.splits)
  then have n: "num_busy W' = num_busy W"
    by (simp add: num_busy_def busy_def h(1) del: sum_of_bool_eq)
  have "length (mLaunchSignals W') = length (wHelpers W)"
    using assms(1) len by (auto simp: main_step_def split: MainPc.splits option.splits if_splits prod.splits)
  moreover have "ct \<le> length (wHelpers W) \<and> (\<forall>i<length (wHelpers W). ct \<le> i \<longrightarrow> \<not> mLaunchSignals W' ! i)"
    if "wMain W' = MSet ct" for ct
    using assms len that by (auto simp: main_step_def pool_inv_def nth_list_update
        split: MainPc.splits option.splits if_splits prod.splits)
  moreover have "mRunningCount W \<noteq> 0" if "wMain W' = MWait"
    using assms(1) that by (auto simp: main_step_def split: MainPc.splits option.splits if_splits prod.splits)
  moreover have "\<forall>ct. wMain W' \<noteq> MStop ct" "wMain W' \<noteq> MJoin"
    using assms by (auto simp: main_step_def pool_inv_def split: MainPc.splits option.splits if_splits prod.splits)
  ultimately show ?thesis
    using assms(2) b n h by (simp add: pool_inv_def)
qed

lemma pool_inv_step:
  assumes "pool_step cb False W W'" and "pool_inv W"
  shows "pool_inv W'"
  using assms by (cases rule: pool_step.cases) (auto intro: pool_inv_main pool_inv_helper)

lemma pool_inv_steps:
  assumes "(pool_step cb False)\<^sup>*\<^sup>* W W'" and "pool_inv W"
  shows "pool_inv W'"
  using assms by (induction rule: rtranclp_induct) (auto intro: pool_inv_step)

text \<open>
  Between two launches the pool is idle: no launch signal is set and every helper is on its way back to
  its wait. The completion signal may be set; \<open>launchThreads\<close> tests the counter around its wait.
\<close>

definition pool_idle :: "('s, 'p) Workers \<Rightarrow> bool" where
  "pool_idle W \<longleftrightarrow> pool_inv W \<and> wMain W = MReturned \<and> mRunningCount W = 0"

lemma not_running:
  assumes "pool_inv W" and "mRunningCount W = 0" and "i < length (wHelpers W)"
  shows "\<not> busy W i"
proof -
  have "num_busy W = 0"
    using assms(1,2) by (simp add: pool_inv_def)
  then have "of_bool (busy W i) = (0 :: int)"
    unfolding num_busy_def using assms(3)
    by (subst (asm) sum_nonneg_eq_0_iff) (auto simp del: sum_of_bool_eq)
  then show ?thesis
    by simp
qed

lemma launch_inv:
  assumes "pool_idle W"
  shows "pool_inv (launchThreads (Some cb) fast s W)"
proof (cases fast)
  case True
  let ?W = "launchThreads (Some cb) fast s W"
  have "pending ?W i = pending W i" "wHelpers ?W = wHelpers W" for i
    using True assms by (auto simp: launchThreads_def pending_def pool_idle_def split: prod.splits)
  then show ?thesis
    using True assms
    by (auto simp: pool_idle_def pool_inv_def launchThreads_def num_busy_def busy_def split: prod.splits
        simp del: sum_of_bool_eq)
next
  case False
  let ?W = "launchThreads (Some cb) fast s W"
  have "pending ?W i" for i
    using False by (simp add: launchThreads_def pending_def)
  moreover have "\<not> busy W i" if "i < length (wHelpers W)" for i
    using assms that by (intro not_running) (auto simp: pool_idle_def)
  ultimately show ?thesis
    using False assms
    by (auto simp: pool_idle_def pool_inv_def launchThreads_def num_busy_def busy_def pending_def)
qed

section \<open>The contract of a callback\<close>

text \<open>
  What a thread has done of its callback. In a small launch only the calling thread runs it.
\<close>

datatype 'p Thread = NotStarted | Running 'p | Returned

definition status :: "bool \<Rightarrow> ('s, 'p) Workers \<Rightarrow> nat \<Rightarrow> 'p Thread" where
  "status fast W i = (if i = 0
     then (case wMain W of MSet _ \<Rightarrow> NotStarted | MFast p \<Rightarrow> Running p | MCall p \<Rightarrow> Running p | _ \<Rightarrow> Returned)
     else if i \<le> length (wHelpers W) \<and> \<not> fast \<and> \<not> pending W (i - 1)
     then (case wHelpers W ! (i - 1) of HCall p \<Rightarrow> Running p | _ \<Rightarrow> Returned) else NotStarted)"

text \<open>The main thread is inside \<open>launchThreads\<close>, or has returned from it.\<close>

definition launching :: "bool \<Rightarrow> ('s, 'p) Workers \<Rightarrow> bool" where
  "launching fast W \<longleftrightarrow> pool_inv W \<and>
     (if fast then mRunningCount W = 0 \<and> ((\<exists>p. wMain W = MFast p) \<or> wMain W = MReturned)
      else wMain W \<noteq> MPoll \<and> (\<forall>p. wMain W \<noteq> MFast p) \<and> (wMain W = MReturned \<longrightarrow> mRunningCount W = 0))"

definition after :: "'p option \<Rightarrow> 'p Thread" where
  "after r = (case r of None \<Rightarrow> Returned | Some p \<Rightarrow> Running p)"

text \<open>Every step of the pool leaves the callbacks alone, starts one, or makes a step of one.\<close>

definition cb_move :: "('s, 'p) Callback \<Rightarrow> bool \<Rightarrow> ('s, 'p) Workers \<Rightarrow> ('s, 'p) Workers \<Rightarrow> bool" where
  "cb_move cb fast W W' \<longleftrightarrow>
     wShared W' = wShared W \<and> status fast W' = status fast W \<or>
     (\<exists>i<getThreadCount W. wShared W' = wShared W \<and> status fast W i = NotStarted \<and>
        status fast W' = (status fast W)(i := Running (fst cb))) \<or>
     (\<exists>i<getThreadCount W. \<exists>p r. status fast W i = Running p \<and> snd cb i (wShared W) p = (wShared W', r) \<and>
        status fast W' = (status fast W)(i := after r))"

lemma status_update:
  assumes "wHelpers W' = (wHelpers W)[i := h]" and "mLaunchSignals W' = (mLaunchSignals W)[i := b]"
    and "wMain W' = wMain W" and "i < length (wHelpers W)" and "length (mLaunchSignals W) = length (wHelpers W)"
  shows "status fast W' = (status fast W)(Suc i :=
    (if fast \<or> (\<exists>ct \<le> i. wMain W = MSet ct) \<or> b then NotStarted else (case h of HCall p \<Rightarrow> Running p | _ \<Rightarrow> Returned)))"
proof
  fix j
  show "status fast W' j = ((status fast W)(Suc i :=
    (if fast \<or> (\<exists>ct \<le> i. wMain W = MSet ct) \<or> b then NotStarted else (case h of HCall p \<Rightarrow> Running p | _ \<Rightarrow> Returned)))) j"
    using assms(1,3,4) busy_update(1,2) [OF assms]
    by (cases j) (auto simp: status_def split: HelperPc.splits)
qed

lemma status_Suc:
  "i < length (wHelpers W) \<Longrightarrow> status fast W (Suc i) =
    (if fast \<or> pending W i then NotStarted else (case wHelpers W ! i of HCall p \<Rightarrow> Running p | _ \<Rightarrow> Returned))"
  by (simp add: status_def)

lemma launching_helper:
  assumes "helper_step cb False i W = Some W'" and i: "i < length (wHelpers W)" and l: "launching fast W"
  shows "launching fast W' \<and> getThreadCount W' = getThreadCount W"
proof -
  have inv: "pool_inv W"
    using l by (simp add: launching_def)
  have "wMain W' = wMain W" "getThreadCount W' = getThreadCount W"
    using assms(1) by (auto simp: helper_step_def getThreadCount_def split: HelperPc.splits option.splits prod.splits)
  moreover have "mRunningCount W' = 0" if "mRunningCount W = 0"
    using not_running [OF inv that i] that assms(1)
    by (auto simp: busy_def helper_step_def split: HelperPc.splits option.splits prod.splits)
  ultimately show ?thesis
    using l pool_inv_helper [OF assms(1) i inv] by (auto simp: launching_def)
qed

lemma helper_move:
  assumes step: "helper_step (Some cb) False i W = Some W'" and i: "i < length (wHelpers W)" and l: "launching fast W"
  shows "cb_move cb fast W W'"
proof -
  have inv: "pool_inv W" and len: "length (mLaunchSignals W) = length (wHelpers W)" and e: "\<not> mExit W"
    using l by (auto simp: launching_def pool_inv_def)
  have idle: "\<not> busy W i" if fast
    using l that i by (intro not_running) (auto simp: launching_def)
  have sig: "\<not> mLaunchSignals W ! i" if "wMain W = MSet ct" "ct \<le> i" for ct
    using inv i that by (auto simp: pool_inv_def)
  note upd = status_update [OF _ _ _ i len]
  have T: "Suc i < getThreadCount W"
    using i by (simp add: getThreadCount_def)
  show ?thesis
  proof (cases "wHelpers W ! i")
    case HTop
    with step e have "W' = set_helper i HWait W"
      by (simp add: helper_step_def)
    then have "status fast W' = status fast W" "wShared W' = wShared W"
      using upd [of W' HWait "mLaunchSignals W ! i" fast] HTop i len status_Suc [OF i, of fast]
      by (auto simp: pending_def fun_eq_iff)
    then show ?thesis
      by (simp add: cb_move_def)
  next
    case HWait
    with step have b: "mLaunchSignals W ! i" and
        W: "W' = set_helper i (HCall (fst cb)) (W\<lparr>mLaunchSignals := (mLaunchSignals W)[i := False]\<rparr>)"
      by (auto simp: helper_step_def Signal_wait_def split: if_splits prod.splits)
    from b have "status fast W (Suc i) = NotStarted" "\<not> fast"
      using idle status_Suc [OF i, of fast] by (auto simp: busy_def pending_def)
    then have "status fast W' = (status fast W)(Suc i := Running (fst cb))"
      using upd [of W' "HCall (fst cb)" False fast] b sig W by auto
    then show ?thesis
      using W \<open>status fast W (Suc i) = NotStarted\<close> T by (auto simp: cb_move_def intro!: exI [of _ "Suc i"])
  next
    case (HCall q)
    obtain sh r where r: "snd cb (Suc i) (wShared W) q = (sh, r)"
      by fastforce
    with HCall step have W: "W' = set_helper i (case r of None \<Rightarrow> HDec | Some p \<Rightarrow> HCall p) (W\<lparr>wShared := sh\<rparr>)"
      by (auto simp: helper_step_def split: prod.splits)
    have np: "\<not> pending W i" "\<not> fast"
      using inv i HCall idle by (auto simp: pool_inv_def busy_def)
    then have "status fast W (Suc i) = Running q"
      using HCall status_Suc [OF i, of fast] by simp
    moreover have "status fast W' = (status fast W)(Suc i := after r)"
      using upd [of W' "case r of None \<Rightarrow> HDec | Some p \<Rightarrow> HCall p" "mLaunchSignals W ! i" fast] np W
      by (auto simp: pending_def after_def split: option.splits)
    ultimately show ?thesis
      using W r T by (auto simp: cb_move_def intro!: exI [of _ "Suc i"])
  next
    case HDec
    with step have "W' = set_helper i HSet (W\<lparr>mRunningCount := mRunningCount W - 1\<rparr>)"
      by (simp add: helper_step_def)
    then have "status fast W' = status fast W" "wShared W' = wShared W"
      using upd [of W' HSet "mLaunchSignals W ! i" fast] HDec i len status_Suc [OF i, of fast]
      by (auto simp: pending_def fun_eq_iff)
    then show ?thesis
      by (simp add: cb_move_def)
  next
    case HSet
    with step have "W' = set_helper i HTop (W\<lparr>mCompleteSignal := True\<rparr>)"
      by (simp add: helper_step_def Signal_set_def)
    then have "status fast W' = status fast W" "wShared W' = wShared W"
      using upd [of W' HTop "mLaunchSignals W ! i" fast] HSet i len status_Suc [OF i, of fast]
      by (auto simp: pending_def fun_eq_iff)
    then show ?thesis
      by (simp add: cb_move_def)
  qed (use step in \<open>simp add: helper_step_def\<close>)
qed

lemma launching_main:
  assumes "main_step cb False W = Some W'" and l: "launching fast W"
  shows "launching fast W' \<and> getThreadCount W' = getThreadCount W"
proof -
  have "pool_inv W'"
    using l pool_inv_main [OF assms(1)] by (simp add: launching_def)
  moreover have "mRunningCount W' = mRunningCount W" "getThreadCount W' = getThreadCount W"
    using assms(1)
    by (auto simp: main_step_def getThreadCount_def split: MainPc.splits option.splits if_splits prod.splits)
  ultimately show ?thesis
    using assms by (auto simp: launching_def main_step_def pool_inv_def split: MainPc.splits option.splits if_splits prod.splits)
qed

lemma main_move:
  assumes step: "main_step (Some cb) False W = Some W'" and l: "launching fast W"
  shows "cb_move cb fast W W'"
proof -
  have len: "length (mLaunchSignals W) = length (wHelpers W)" and h: "wHelpers W' = wHelpers W"
    using l step by (auto simp: launching_def pool_inv_def main_step_def split: MainPc.splits option.splits if_splits prod.splits)
  have p: "pending W' i = pending W i" if "i < length (wHelpers W)" for i
    using step that len l
    by (auto simp: launching_def main_step_def pool_inv_def pending_def Signal_set_def nth_list_update
        split: MainPc.splits option.splits if_splits prod.splits)
  then have S: "status fast W' i = status fast W i" if "i \<noteq> 0" for i
    using that h by (cases i) (auto simp: status_def)
  then have st: "status fast W' = (status fast W)(0 := status fast W' 0)"
    by (auto simp: fun_eq_iff)
  consider p s r where "wMain W = MFast p \<or> wMain W = MCall p" "snd cb 0 (wShared W) p = (s, r)"
      "wShared W' = s" "status fast W' 0 = after r"
    | "wMain W = MSet (length (wHelpers W))" "wShared W' = wShared W" "status fast W' 0 = Running (fst cb)"
    | "wShared W' = wShared W" "status fast W' 0 = status fast W 0"
    using step l
    by (cases "wMain W")
      (auto simp: main_step_def launching_def pool_inv_def status_def after_def Signal_wait_def split: option.splits if_splits prod.splits)
  then show ?thesis
  proof cases
    case 1
    then have "status fast W 0 = Running p"
      by (auto simp: status_def)
    with 1 st show ?thesis
      by (auto simp: cb_move_def getThreadCount_def intro!: exI [of _ 0])
  next
    case 2
    then have "status fast W 0 = NotStarted"
      by (simp add: status_def)
    with 2 st show ?thesis
      by (auto simp: cb_move_def getThreadCount_def intro!: exI [of _ 0])
  next
    case 3
    with st show ?thesis
      by (simp add: cb_move_def)
  qed
qed

lemma launching_step:
  assumes "pool_step (Some cb) False W W'" and "launching fast W"
  shows "cb_move cb fast W W'" and "launching fast W'" and "getThreadCount W' = getThreadCount W"
  using assms launching_main main_move launching_helper helper_move
  by (cases rule: pool_step.cases; blast)+

lemma launching_start:
  assumes "pool_idle W"
  shows "launching fast (launchThreads (Some cb) fast s W)"
  using assms launch_inv [OF assms, of cb fast s]
  by (auto simp: launching_def pool_idle_def launchThreads_def split: prod.splits)

text \<open>While \<open>launchThreads\<close> has not returned, some thread can make a step.\<close>

lemma helper_enabled:
  assumes "pool_inv W" and "i < length (wHelpers W)" and "wHelpers W ! i = HWait \<Longrightarrow> mLaunchSignals W ! i"
  shows "\<exists>W'. helper_step (Some cb) False i W = Some W'"
proof -
  have "wHelpers W ! i \<noteq> HExit"
    using assms(1,2) by (metis nth_mem pool_inv_def)
  then show ?thesis
    using assms(3) by (cases "wHelpers W ! i") (auto simp: helper_step_def Signal_wait_def split: prod.splits)
qed

lemma launch_progress:
  assumes "pool_inv W" and "wMain W \<noteq> MReturned" and "wMain W \<noteq> MPoll"
  shows "\<exists>W'. pool_step (Some cb) False W W'"
proof (cases "wMain W = MWait \<and> \<not> mCompleteSignal W")
  case True
  have "\<exists>i<length (wHelpers W). busy W i \<or> wHelpers W ! i = HSet"
  proof (cases "mRunningCount W = 0")
    case True
    with \<open>wMain W = MWait \<and> \<not> mCompleteSignal W\<close> assms(1) show ?thesis
      by (auto simp: pool_inv_def in_set_conv_nth)
  next
    case False
    then have "num_busy W \<noteq> 0"
      using assms(1) by (simp add: pool_inv_def)
    then obtain i where "i < length (wHelpers W)" "of_bool (busy W i) \<noteq> (0 :: int)"
      unfolding num_busy_def by (rule sum.not_neutral_contains_not_neutral) auto
    then show ?thesis
      by auto
  qed
  then obtain i where "i < length (wHelpers W)" "busy W i \<or> wHelpers W ! i = HSet"
    by blast
  then have "\<exists>W'. helper_step (Some cb) False i W = Some W'"
    using True by (intro helper_enabled [OF assms(1)]) (auto simp: busy_def pending_def)
  with \<open>i < length (wHelpers W)\<close> show ?thesis
    by (auto intro: pool_step.helper)
next
  case False
  then have "\<exists>W'. main_step (Some cb) False W = Some W'"
    using assms by (cases "wMain W") (auto simp: main_step_def pool_inv_def Signal_wait_def split: prod.splits)
  then show ?thesis
    by (auto intro: pool_step.main)
qed

text \<open>
  A bound on the number of steps, from the weight \<open>w\<close> of a local state of the callback and the rest
  \<open>r\<close> that the shared state still allows.
\<close>

primrec main_rank :: "('p \<Rightarrow> nat) \<Rightarrow> 'p \<Rightarrow> nat \<Rightarrow> 'p MainPc \<Rightarrow> nat" where
  "main_rank w p0 n MPoll = 1" | "main_rank w p0 n (MFast p) = w p + 1" | "main_rank w p0 n (MSet ct) = n - ct + w p0 + 3"
| "main_rank w p0 n (MCall p) = w p + 2" | "main_rank w p0 n MTest = 1" | "main_rank w p0 n MWait = 0"
| "main_rank w p0 n (MStop ct) = n - ct + 2" | "main_rank w p0 n MJoin = 1" | "main_rank w p0 n MReturned = 0"

primrec helper_rank :: "('p \<Rightarrow> nat) \<Rightarrow> 'p HelperPc \<Rightarrow> nat" where
  "helper_rank w HTop = 1" | "helper_rank w HWait = 0" | "helper_rank w (HCall p) = 6 + w p" | "helper_rank w HDec = 5"
| "helper_rank w HSet = 4" | "helper_rank w HExit = 0"

definition helper_left :: "('p \<Rightarrow> nat) \<Rightarrow> 'p \<Rightarrow> ('s, 'p) Workers \<Rightarrow> nat \<Rightarrow> nat" where
  "helper_left w p0 W i = helper_rank w (wHelpers W ! i) + (if pending W i then 7 + w p0 else 0)"

definition pool_rank :: "('s \<Rightarrow> nat) \<Rightarrow> ('p \<Rightarrow> nat) \<Rightarrow> 'p \<Rightarrow> ('s, 'p) Workers \<Rightarrow> nat" where
  "pool_rank r w p0 W = r (wShared W) + main_rank w p0 (length (wHelpers W)) (wMain W) +
     (\<Sum>i<length (wHelpers W). helper_left w p0 W i) + 2 * of_bool (mCompleteSignal W)"

lemma helper_left_update:
  assumes "wHelpers W' = (wHelpers W)[i := h]" and "mLaunchSignals W' = (mLaunchSignals W)[i := b]"
    and "wMain W' = wMain W" and "i < length (wHelpers W)" and "length (mLaunchSignals W) = length (wHelpers W)"
  shows "(\<Sum>j<length (wHelpers W'). helper_left w p0 W' j) + helper_left w p0 W i =
    (\<Sum>j<length (wHelpers W). helper_left w p0 W j) + helper_left w p0 W' i"
  using sum_change [OF assms(4), of "helper_left w p0 W'" "helper_left w p0 W"] busy_update(1,2) [OF assms] assms(1)
  by (simp add: helper_left_def)

text \<open>What one step of a callback does to its shared state and its local state.\<close>

definition cb_dec :: "('s, 'p) Callback \<Rightarrow> ('s \<Rightarrow> nat) \<Rightarrow> ('p \<Rightarrow> nat) \<Rightarrow> bool \<Rightarrow> ('s, 'p) Workers \<Rightarrow> bool" where
  "cb_dec cb r w fast W \<longleftrightarrow> (\<forall>i p s q. i < getThreadCount W \<and> status fast W i = Running p \<and> snd cb i (wShared W) p = (s, q) \<longrightarrow>
     r s + (case q of None \<Rightarrow> 0 | Some p \<Rightarrow> w p) < r (wShared W) + w p)"

lemma cb_decD:
  assumes "cb_dec cb r w fast W" and "i < getThreadCount W" and "status fast W i = Running p"
    and "snd cb i (wShared W) p = (s, q)"
  shows "r s + (case q of None \<Rightarrow> 0 | Some p \<Rightarrow> w p) < r (wShared W) + w p"
  using assms by (auto simp: cb_dec_def)

lemma rank_helper:
  assumes step: "helper_step (Some cb) False i W = Some W'" and i: "i < length (wHelpers W)" and l: "launching fast W"
    and d: "cb_dec cb r w fast W"
  shows "pool_rank r w (fst cb) W' < pool_rank r w (fst cb) W"
proof -
  have inv: "pool_inv W" and len: "length (mLaunchSignals W) = length (wHelpers W)" and e: "\<not> mExit W"
    using l by (auto simp: launching_def pool_inv_def)
  note upd = helper_left_update [OF _ _ _ i len, where w = w and ?p0.0 = "fst cb"]
  show ?thesis
  proof (cases "wHelpers W ! i")
    case HTop
    with step e have "W' = set_helper i HWait W"
      by (simp add: helper_step_def)
    then show ?thesis
      using upd [of W' HWait "mLaunchSignals W ! i"] HTop i
      by (simp add: pool_rank_def helper_left_def pending_def)
  next
    case HWait
    with step have b: "mLaunchSignals W ! i" and
        W: "W' = set_helper i (HCall (fst cb)) (W\<lparr>mLaunchSignals := (mLaunchSignals W)[i := False]\<rparr>)"
      by (auto simp: helper_step_def Signal_wait_def split: if_splits prod.splits)
    moreover have "\<not> pending W' i"
      using b W inv i len by (auto simp: pending_def pool_inv_def)
    ultimately show ?thesis
      using upd [of W' "HCall (fst cb)" False] HWait i
      by (simp add: pool_rank_def helper_left_def) (simp add: pending_def)
  next
    case (HCall q)
    obtain sh ret where ret: "snd cb (Suc i) (wShared W) q = (sh, ret)"
      by fastforce
    with HCall step have W: "W' = set_helper i (case ret of None \<Rightarrow> HDec | Some p \<Rightarrow> HCall p) (W\<lparr>wShared := sh\<rparr>)"
      by (auto simp: helper_step_def split: prod.splits)
    have np: "\<not> pending W i" "\<not> fast"
      using inv i HCall l not_running [of W i] by (auto simp: pool_inv_def busy_def launching_def)
    then have "r sh + (case ret of None \<Rightarrow> 0 | Some p \<Rightarrow> w p) < r (wShared W) + w q"
      using ret HCall i status_Suc [OF i, of fast] by (intro cb_decD [OF d, of "Suc i"]) (simp_all add: getThreadCount_def)
    then show ?thesis
      using upd [of W' "case ret of None \<Rightarrow> HDec | Some p \<Rightarrow> HCall p" "mLaunchSignals W ! i"] W HCall i np
      by (cases ret) (simp_all add: pool_rank_def helper_left_def pending_def)
  next
    case HDec
    with step have "W' = set_helper i HSet (W\<lparr>mRunningCount := mRunningCount W - 1\<rparr>)"
      by (simp add: helper_step_def)
    then show ?thesis
      using upd [of W' HSet "mLaunchSignals W ! i"] HDec i
      by (simp add: pool_rank_def helper_left_def pending_def)
  next
    case HSet
    with step have "W' = set_helper i HTop (W\<lparr>mCompleteSignal := True\<rparr>)"
      by (simp add: helper_step_def Signal_set_def)
    then show ?thesis
      using upd [of W' HTop "mLaunchSignals W ! i"] HSet i
      by (simp add: pool_rank_def helper_left_def pending_def)
  qed (use step in \<open>simp add: helper_step_def\<close>)
qed

lemma rank_main:
  assumes step: "main_step (Some cb) False W = Some W'" and l: "launching fast W"
    and d: "cb_dec cb r w fast W"
  shows "pool_rank r w (fst cb) W' < pool_rank r w (fst cb) W"
proof -
  have len: "length (mLaunchSignals W) = length (wHelpers W)" and h: "wHelpers W' = wHelpers W"
    using l step by (auto simp: launching_def pool_inv_def main_step_def split: MainPc.splits option.splits if_splits prod.splits)
  have "pending W' i = pending W i" if "i < length (wHelpers W)" for i
    using step that len l
    by (auto simp: launching_def main_step_def pool_inv_def pending_def Signal_set_def nth_list_update
        split: MainPc.splits option.splits if_splits prod.splits)
  then have sum: "(\<Sum>i<length (wHelpers W). helper_left w (fst cb) W' i) = (\<Sum>i<length (wHelpers W). helper_left w (fst cb) W i)"
    by (intro sum.cong) (simp_all add: helper_left_def h)
  have call: "r s + (case q of None \<Rightarrow> 0 | Some p \<Rightarrow> w p) < r (wShared W) + w p"
    if "wMain W = MFast p \<or> wMain W = MCall p" "snd cb 0 (wShared W) p = (s, q)" for p s q
    using that by (intro cb_decD [OF d, of 0]) (auto simp: getThreadCount_def status_def)
  have "r (wShared W') + main_rank w (fst cb) (length (wHelpers W)) (wMain W') + 2 * of_bool (mCompleteSignal W') <
      r (wShared W) + main_rank w (fst cb) (length (wHelpers W)) (wMain W) + 2 * of_bool (mCompleteSignal W)"
    using step l call
    by (cases "wMain W")
      (fastforce simp: main_step_def launching_def pool_inv_def Signal_wait_def split: option.splits if_splits prod.splits)+
  then show ?thesis
    by (simp add: pool_rank_def h sum)
qed

lemma no_infinite_run:
  fixes R :: "'a \<Rightarrow> nat"
  assumes "\<And>a b. I a \<Longrightarrow> step a b \<Longrightarrow> R b < R a \<and> I b" and "I (f 0)" and "\<And>k. step (f k) (f (Suc k))"
  shows False
proof -
  have I: "I (f k)" for k
    by (induction k) (use assms in blast)+
  have "R (f k) + k \<le> R (f 0)" for k
  proof (induction k)
    case (Suc k)
    with assms(1) [OF I assms(3), of k] show ?case
      by linarith
  qed simp
  from this [of "Suc (R (f 0))"] show False
    by simp
qed

lemma reaches_stuck:
  assumes "\<nexists>f. f 0 = a \<and> (\<forall>k. step (f k) (f (Suc k)))"
  shows "\<exists>b. step\<^sup>*\<^sup>* a b \<and> (\<nexists>c. step b c)"
proof (rule ccontr)
  assume "\<not> ?thesis"
  then have nxt: "\<exists>c. step b c \<and> step\<^sup>*\<^sup>* a c" if "step\<^sup>*\<^sup>* a b" for b
    using that by (meson rtranclp.rtrancl_into_rtrancl)
  define f where "f = rec_nat a (\<lambda>_ b. SOME c. step b c \<and> step\<^sup>*\<^sup>* a c)"
  have f: "f 0 = a" "f (Suc k) = (SOME c. step (f k) c \<and> step\<^sup>*\<^sup>* a c)" for k
    by (simp_all add: f_def)
  have "step\<^sup>*\<^sup>* a (f k)" for k
  proof (induction k)
    case (Suc k)
    then show ?case
      using someI_ex [OF nxt [OF Suc]] by (simp add: f(2))
  qed (simp add: f(1))
  then have "step (f k) (f (Suc k))" for k
    using someI_ex [OF nxt [of "f k"]] by (simp add: f(2))
  with f(1) assms show False
    by blast
qed

section \<open>Running a callback on the pool\<close>

text \<open>
  The contract: \<open>inv l T s st\<close> relates the shared state to what each of \<open>T\<close> threads has done; it is
  kept when a thread starts and by each of its steps, and each step uses up some of a bounded
  amount of work.
\<close>

locale callback =
  fixes cbk :: "'l \<Rightarrow> ('s, 'p) Callback"
    and inv :: "'l \<Rightarrow> nat \<Rightarrow> 's \<Rightarrow> (nat \<Rightarrow> 'p Thread) \<Rightarrow> bool"
    and rest :: "'l \<Rightarrow> 's \<Rightarrow> nat"
    and weight :: "'l \<Rightarrow> 'p \<Rightarrow> nat"
  assumes starts: "inv l T s st \<Longrightarrow> i < T \<Longrightarrow> st i = NotStarted \<Longrightarrow> inv l T s (st(i := Running (fst (cbk l))))"
    and steps: "inv l T s st \<Longrightarrow> i < T \<Longrightarrow> st i = Running p \<Longrightarrow> snd (cbk l) i s p = (s', q) \<Longrightarrow>
      inv l T s' (st(i := after q))"
    and decreases: "inv l T s st \<Longrightarrow> i < T \<Longrightarrow> st i = Running p \<Longrightarrow> snd (cbk l) i s p = (s', q) \<Longrightarrow>
      rest l s' + (case q of None \<Rightarrow> 0 | Some p \<Rightarrow> weight l p) < rest l s + weight l p"
begin

lemma move_inv:
  assumes "cb_move (cbk l) fast W W'" and "inv l (getThreadCount W) (wShared W) (status fast W)"
  shows "inv l (getThreadCount W) (wShared W') (status fast W')"
  using assms starts steps by (fastforce simp: cb_move_def)

lemma run_inv:
  assumes "(pool_step (Some (cbk l)) False)\<^sup>*\<^sup>* (launchThreads (Some (cbk l)) fast s W) W'" and "pool_idle W"
    and "inv l (getThreadCount W) s (\<lambda>_. NotStarted)"
  shows "launching fast W' \<and> getThreadCount W' = getThreadCount W \<and>
    inv l (getThreadCount W) (wShared W') (status fast W')"
  using assms(1)
proof (induction rule: rtranclp_induct)
  case base
  have T: "getThreadCount (launchThreads (Some (cbk l)) fast s W) = getThreadCount W"
      "wShared (launchThreads (Some (cbk l)) fast s W) = s" "0 < getThreadCount W"
    by (simp_all add: launchThreads_def getThreadCount_def split: prod.splits)
  show ?case
  proof (cases fast)
    case True
    have "status fast (launchThreads (Some (cbk l)) fast s W) = (\<lambda>_. NotStarted)(0 := Running (fst (cbk l)))"
      using True by (auto simp: status_def launchThreads_def fun_eq_iff split: prod.splits)
    then show ?thesis
      using T launching_start [OF assms(2)] starts [OF assms(3), of 0] by (metis (no_types))
  next
    case False
    have "status fast (launchThreads (Some (cbk l)) fast s W) = (\<lambda>_. NotStarted)"
      using False by (auto simp: status_def launchThreads_def fun_eq_iff pending_def)
    then show ?thesis
      using T launching_start [OF assms(2)] assms(3) by (metis (no_types))
  qed
next
  case (step W1 W2)
  then have "launching fast W1" "getThreadCount W1 = getThreadCount W" "inv l (getThreadCount W1) (wShared W1) (status fast W1)"
    by auto
  with launching_step [OF step(2) this(1)] show ?case
    using move_inv by (metis (no_types))
qed

lemma returned:
  assumes "(pool_step (Some (cbk l)) False)\<^sup>*\<^sup>* (launchThreads (Some (cbk l)) fast s W) W'" and "pool_idle W"
    and "inv l (getThreadCount W) s (\<lambda>_. NotStarted)" and "wMain W' = MReturned"
  shows "pool_idle W' \<and> (\<exists>st. inv l (getThreadCount W) (wShared W') st \<and> st 0 = Returned \<and>
    (\<forall>i. st i = NotStarted \<or> st i = Returned) \<and> (\<not> fast \<longrightarrow> (\<forall>i<getThreadCount W. st i = Returned)))"
proof -
  have l: "launching fast W'" "getThreadCount W' = getThreadCount W"
      and i: "inv l (getThreadCount W) (wShared W') (status fast W')"
    using run_inv [OF assms(1-3)] by auto
  then have idle: "pool_idle W'"
    using assms(4) by (auto simp: launching_def pool_idle_def split: if_splits)
  have nb: "\<not> busy W' j" if "j < length (wHelpers W')" for j
    using idle that by (intro not_running) (auto simp: pool_idle_def)
  have "status fast W' 0 = Returned"
    using assms(4) by (simp add: status_def)
  moreover have "status fast W' j = NotStarted \<or> status fast W' j = Returned" for j
    using nb [of "j - 1"] assms(4) by (cases j) (auto simp: status_def busy_def split: HelperPc.splits)
  moreover have "status fast W' j = Returned" if "\<not> fast" "j < getThreadCount W" for j
    using nb [of "j - 1"] assms(4) that l(2)
    by (cases j) (auto simp: status_def busy_def getThreadCount_def split: HelperPc.splits)
  ultimately show ?thesis
    using idle i by (auto intro!: exI [of _ "status fast W'"])
qed

lemma rank_step:
  assumes "pool_step (Some (cbk l)) False W W'" and "launching fast W" and "inv l (getThreadCount W) (wShared W) (status fast W)"
  shows "pool_rank (rest l) (weight l) (fst (cbk l)) W' < pool_rank (rest l) (weight l) (fst (cbk l)) W"
proof -
  have "cb_dec (cbk l) (rest l) (weight l) fast W"
    unfolding cb_dec_def using decreases [OF assms(3)] by blast
  with assms show ?thesis
    by (cases rule: pool_step.cases) (auto intro: rank_main rank_helper)
qed

lemma terminates:
  assumes "pool_idle W" and "inv l (getThreadCount W) s (\<lambda>_. NotStarted)"
  shows "\<nexists>f. f 0 = launchThreads (Some (cbk l)) fast s W \<and> (\<forall>k. pool_step (Some (cbk l)) False (f k) (f (Suc k)))"
proof
  assume "\<exists>f. f 0 = launchThreads (Some (cbk l)) fast s W \<and> (\<forall>k. pool_step (Some (cbk l)) False (f k) (f (Suc k)))"
  then obtain f where f: "f 0 = launchThreads (Some (cbk l)) fast s W" "\<And>k. pool_step (Some (cbk l)) False (f k) (f (Suc k))"
    by blast
  let ?I = "\<lambda>W'. launching fast W' \<and> inv l (getThreadCount W') (wShared W') (status fast W')"
  have i0: "?I (f 0)"
    using run_inv [OF rtranclp.rtrancl_refl assms, of fast] f(1) by simp
  have d: "pool_rank (rest l) (weight l) (fst (cbk l)) b < pool_rank (rest l) (weight l) (fst (cbk l)) a \<and> ?I b"
    if "?I a" "pool_step (Some (cbk l)) False a b" for a b
    using that launching_step [OF that(2), of fast] rank_step [OF that(2), of fast] move_inv [of l fast a b] by auto
  show False
    using no_infinite_run [of ?I "pool_step (Some (cbk l)) False" "pool_rank (rest l) (weight l) (fst (cbk l))" f, OF d i0 f(2)] .
qed

lemma stops_returned:
  assumes "(pool_step (Some (cbk l)) False)\<^sup>*\<^sup>* (launchThreads (Some (cbk l)) fast s W) W'" and "pool_idle W"
    and "inv l (getThreadCount W) s (\<lambda>_. NotStarted)" and "\<nexists>W''. pool_step (Some (cbk l)) False W' W''"
  shows "wMain W' = MReturned"
proof (rule ccontr)
  assume "wMain W' \<noteq> MReturned"
  moreover have "pool_inv W'" "wMain W' \<noteq> MPoll"
    using run_inv [OF assms(1-3)] by (auto simp: launching_def split: if_splits)
  ultimately show False
    using launch_progress assms(4) by blast
qed

end

section \<open>Creating and stopping the pool\<close>

lemma init_inv: "pool_inv (Workers_init n n s)"
  by (simp add: pool_inv_def Workers_init_def num_busy_def busy_def pending_def)

text \<open>During \<open>init\<close> the main thread polls; it returns when every helper has been through its loop once.\<close>

lemma init_run:
  assumes "(pool_step None False)\<^sup>*\<^sup>* (Workers_init n n s) W"
  shows "pool_inv W \<and> (wMain W = MPoll \<or> wMain W = MReturned \<and> mRunningCount W = 0)"
  using assms
proof (induction rule: rtranclp_induct)
  case base
  then show ?case
    using init_inv by (simp add: Workers_init_def)
next
  case (step W1 W2)
  then have inv: "pool_inv W1"
    by simp
  from step(2) have "wMain W2 = MPoll \<or> wMain W2 = MReturned \<and> mRunningCount W2 = 0"
  proof cases
    case main
    with step.IH show ?thesis
      by (auto simp: main_step_def split: if_splits)
  next
    case (helper i)
    have "\<not> busy W1 i" if "mRunningCount W1 = 0"
      using not_running [OF inv that helper(1)] .
    with helper step.IH show ?thesis
      by (auto simp: helper_step_def busy_def split: HelperPc.splits option.splits)
  qed
  with pool_inv_step [OF step(2) inv] show ?case
    by blast
qed

text \<open>The counter as it would be if the threads that could not be created had not been counted.\<close>

lemma init_short_run:
  assumes "(pool_step None False)\<^sup>*\<^sup>* (Workers_init (n + k) n s) W" and "0 < k"
  shows "wMain W = MPoll \<and> pool_inv (W\<lparr>mRunningCount := mRunningCount W - int k\<rparr>)"
  using assms(1)
proof (induction rule: rtranclp_induct)
  case base
  have "Workers_init (n + k) n s\<lparr>mRunningCount := mRunningCount (Workers_init (n + k) n s) - int k\<rparr> = Workers_init n n s"
    by (simp add: Workers_init_def)
  then show ?case
    using init_inv by (simp add: Workers_init_def)
next
  case (step W1 W2)
  let ?d = "\<lambda>W. W\<lparr>mRunningCount := mRunningCount W - int k\<rparr>"
  have "mRunningCount (?d W1) = num_busy (?d W1)"
    using step.IH by (simp add: pool_inv_def)
  moreover have "0 \<le> num_busy (?d W1)"
    by (simp add: num_busy_def)
  ultimately have pos: "mRunningCount W1 \<noteq> 0"
    using assms(2) by simp
  from step(2) show ?case
  proof cases
    case main
    with step.IH pos show ?thesis
      by (simp add: main_step_def)
  next
    case (helper i)
    then have "helper_step None False i (?d W1) = Some (?d W2)"
      by (auto simp: helper_step_def set_helper_def split: HelperPc.splits option.splits)
    with helper step.IH pool_inv_helper [OF this] show ?thesis
      by (auto simp: helper_step_def split: HelperPc.splits option.splits)
  qed
qed

text \<open>The destructor: a helper that waits has been or will be signalled, and none goes back to its wait.\<close>

definition stop_inv :: "('s, 'p) Workers \<Rightarrow> bool" where
  "stop_inv W \<longleftrightarrow> mExit W \<and> length (mLaunchSignals W) = length (wHelpers W) \<and>
     ((\<exists>ct. wMain W = MStop ct) \<or> wMain W = MJoin \<or> wMain W = MReturned \<and> set (wHelpers W) \<subseteq> {HExit}) \<and>
     (\<forall>i<length (wHelpers W). (\<forall>p. wHelpers W ! i \<noteq> HCall p) \<and>
        (wHelpers W ! i = HWait \<longrightarrow> mLaunchSignals W ! i \<or> (\<exists>ct \<le> i. wMain W = MStop ct)))"

primrec stop_rank :: "'p HelperPc \<Rightarrow> nat" where
  "stop_rank HTop = 1" | "stop_rank HWait = 4" | "stop_rank (HCall p) = 0" | "stop_rank HDec = 3"
| "stop_rank HSet = 2" | "stop_rank HExit = 0"

lemma stop_start:
  assumes "pool_idle W"
  shows "stop_inv (Workers_stop W)"
proof -
  have "\<not> busy W i" if "i < length (wHelpers W)" for i
    using assms that by (intro not_running) (auto simp: pool_idle_def)
  then show ?thesis
    using assms by (fastforce simp: stop_inv_def Workers_stop_def pool_idle_def pool_inv_def busy_def)
qed

lemma stop_helper:
  assumes step: "helper_step None False i W = Some W'" and i: "i < length (wHelpers W)" and inv: "stop_inv W"
  shows "stop_inv W'" and "(\<Sum>j<length (wHelpers W). stop_rank (wHelpers W' ! j)) < (\<Sum>j<length (wHelpers W). stop_rank (wHelpers W ! j))"
proof -
  have "wHelpers W ! i \<noteq> HExit"
    using step by (auto simp: helper_step_def)
  then have x: "\<not> set (wHelpers W) \<subseteq> {HExit}"
    using nth_mem [OF i] by blast
  show "stop_inv W'"
    using step i inv x
    by (auto simp: helper_step_def stop_inv_def Signal_wait_def nth_list_update split: HelperPc.splits option.splits if_splits)
  have "wHelpers W' = (wHelpers W)[i := wHelpers W' ! i]" "stop_rank (wHelpers W' ! i) < stop_rank (wHelpers W ! i)"
    using step i inv
    by (auto simp: helper_step_def stop_inv_def split: HelperPc.splits option.splits)
  moreover from this have "(\<Sum>j<length (wHelpers W). stop_rank (wHelpers W' ! j)) + stop_rank (wHelpers W ! i) =
      (\<Sum>j<length (wHelpers W). stop_rank (wHelpers W ! j)) + stop_rank (wHelpers W' ! i)"
    by (intro sum_change [OF i]) (metis nth_list_update_neq)
  ultimately show "(\<Sum>j<length (wHelpers W). stop_rank (wHelpers W' ! j)) < (\<Sum>j<length (wHelpers W). stop_rank (wHelpers W ! j))"
    by linarith
qed

lemma stop_main:
  assumes "main_step None False W = Some W'" and inv: "stop_inv W"
  shows "stop_inv W'" and "wHelpers W' = wHelpers W"
    and "main_rank (\<lambda>_. 0) p (length (wHelpers W)) (wMain W') < main_rank (\<lambda>_. 0) p (length (wHelpers W)) (wMain W)"
proof -
  consider ct where "wMain W = MStop ct" "ct < length (wHelpers W)"
      "W' = W\<lparr>mLaunchSignals := (mLaunchSignals W)[ct := True], wMain := MStop (ct + 1)\<rparr>"
    | ct where "wMain W = MStop ct" "length (wHelpers W) \<le> ct" "W' = W\<lparr>wMain := MJoin\<rparr>"
    | "wMain W = MJoin" "set (wHelpers W) \<subseteq> {HExit}" "W' = W\<lparr>wMain := MReturned\<rparr>"
    using assms by (auto simp: main_step_def stop_inv_def Signal_set_def split: if_splits)
  note cases = this
  from cases show "stop_inv W'"
  proof cases
    case 1
    then show ?thesis
      using inv by (auto simp: stop_inv_def nth_list_update Suc_le_eq le_less)
  qed (use inv in \<open>auto simp: stop_inv_def\<close>)
  from cases show "wHelpers W' = wHelpers W"
    by cases auto
  from cases show "main_rank (\<lambda>_. 0) p (length (wHelpers W)) (wMain W') < main_rank (\<lambda>_. 0) p (length (wHelpers W)) (wMain W)"
    by cases auto
qed

lemma stop_step:
  assumes "pool_step None False W W'" and "stop_inv W"
  shows "stop_inv W'"
  using assms by (cases rule: pool_step.cases) (auto intro: stop_main(1) stop_helper(1))

lemma stop_run:
  assumes "(pool_step None False)\<^sup>*\<^sup>* (Workers_stop W) W'" and "pool_idle W"
  shows "stop_inv W'"
  using assms(1)
proof (induction rule: rtranclp_induct)
  case base
  then show ?case
    using stop_start [OF assms(2)] .
next
  case (step W1 W2)
  then show ?case
    using stop_step by blast
qed

lemma stop_decreases:
  assumes "pool_step None False W W'" and "stop_inv W"
  shows "main_rank (\<lambda>_. 0) p (length (wHelpers W')) (wMain W') + (\<Sum>j<length (wHelpers W'). stop_rank (wHelpers W' ! j)) <
    main_rank (\<lambda>_. 0) p (length (wHelpers W)) (wMain W) + (\<Sum>j<length (wHelpers W). stop_rank (wHelpers W ! j))"
  using assms(1)
proof cases
  case main
  then show ?thesis
    using stop_main(2) [OF main assms(2)] stop_main(3) [OF main assms(2), of p] by simp
next
  case (helper i)
  moreover have "length (wHelpers W') = length (wHelpers W)" "wMain W' = wMain W"
    using helper(2) by (auto simp: helper_step_def split: HelperPc.splits option.splits)
  ultimately show ?thesis
    using stop_helper(2) [OF helper(2,1) assms(2)] by simp
qed

lemma stop_progress:
  assumes "stop_inv W" and "wMain W \<noteq> MReturned"
  shows "\<exists>W'. pool_step None False W W'"
proof (cases "wMain W = MJoin \<and> \<not> set (wHelpers W) \<subseteq> {HExit}")
  case True
  then obtain h where "h \<in> set (wHelpers W)" "h \<noteq> HExit"
    by blast
  then obtain i where "i < length (wHelpers W)" "wHelpers W ! i \<noteq> HExit"
    by (auto simp: in_set_conv_nth)
  moreover from this have "\<exists>W'. helper_step None False i W = Some W'"
    using assms(1) True by (cases "wHelpers W ! i") (auto simp: stop_inv_def helper_step_def Signal_wait_def)
  ultimately show ?thesis
    by (auto intro: pool_step.helper)
next
  case False
  then have "\<exists>W'. main_step None False W = Some W'"
    using assms by (cases "wMain W") (auto simp: stop_inv_def main_step_def)
  then show ?thesis
    by (auto intro: pool_step.main)
qed

section \<open>Properties\<close>

lemma step_length:
  assumes "pool_step cb spurious W W'"
  shows "length (wHelpers W') = length (wHelpers W)"
  using assms
proof cases
  case main
  then show ?thesis
    by (auto simp: main_step_def Let_def split: MainPc.splits option.splits prod.splits if_splits)
next
  case (helper i)
  then show ?thesis
    by (auto simp: helper_step_def Let_def split: HelperPc.splits option.splits prod.splits)
qed

lemma run_length: "(pool_step cb spurious)\<^sup>*\<^sup>* W W' \<Longrightarrow> length (wHelpers W') = length (wHelpers W)"
  by (induction rule: rtranclp_induct) (simp_all add: step_length)

text \<open>
  C23. When all helpers could be created and there are no spurious wakeups, then however the threads are
  scheduled, the pool is idle when \<open>init\<close> returns: no launch signal is set, every helper has passed its
  first wait and will wait for a launch next, and the counter is 0, so the first launch starts from a
  clean state. The completion signal may have been left set.
\<close>

theorem init_makes_idle:
  assumes "(pool_step None False)\<^sup>*\<^sup>* (Workers_init n n s) W" and "wMain W = MReturned"
  shows "pool_idle W \<and> length (wHelpers W) = n \<and> mRunningCount W = 0 \<and>
    (\<forall>i<n. \<not> mLaunchSignals W ! i \<and> wHelpers W ! i \<in> {HSet, HTop, HWait})"
proof -
  have inv: "pool_inv W" "mRunningCount W = 0"
    using init_run [OF assms(1)] assms(2) by simp_all
  have n: "length (wHelpers W) = n"
    using run_length [OF assms(1)] by (simp add: Workers_init_def)
  have "\<not> mLaunchSignals W ! i \<and> wHelpers W ! i \<in> {HSet, HTop, HWait}" if i: "i < n" for i
  proof -
    have "\<not> busy W i"
      using not_running [OF inv] i n by simp
    moreover have "wHelpers W ! i \<noteq> HExit"
      using nth_mem [of i "wHelpers W"] inv(1) i n unfolding pool_inv_def by metis
    ultimately show ?thesis
      by (cases "wHelpers W ! i") (auto simp: busy_def pending_def)
  qed
  then show ?thesis
    using inv assms(2) n by (simp add: pool_idle_def)
qed

text \<open>A run of one helper through its first round.\<close>

definition first_round :: "int \<Rightarrow> bool \<Rightarrow> unit MainPc \<Rightarrow> unit HelperPc \<Rightarrow> (unit, unit) Workers" where
  "first_round r b m h = \<lparr>wShared = (), mRunningCount = r, mLaunchSignals = [b], mCompleteSignal = False, mExit = False,
     wMain = m, wHelpers = [h]\<rparr>"

lemma first_round_run: "(pool_step None False)\<^sup>*\<^sup>* (Workers_init n 1 ()) (first_round (int n - 1) False MPoll HSet)"
proof -
  have "pool_step None False (Workers_init n 1 ()) (first_round (int n) True MPoll HWait)"
    by (rule pool_step.helper [of 0]) (simp_all add: Workers_init_def helper_step_def set_helper_def first_round_def)
  moreover have "pool_step None False (first_round (int n) True MPoll HWait) (first_round (int n) False MPoll HDec)"
    by (rule pool_step.helper [of 0]) (simp_all add: helper_step_def set_helper_def Signal_wait_def first_round_def)
  moreover have "pool_step None False (first_round (int n) False MPoll HDec) (first_round (int n - 1) False MPoll HSet)"
    by (rule pool_step.helper [of 0]) (simp_all add: helper_step_def set_helper_def first_round_def)
  ultimately show ?thesis
    by (rule converse_rtranclp_into_rtranclp [OF _ converse_rtranclp_into_rtranclp [OF _ r_into_rtranclp]])
qed

theorem init_makes_idle_witness:
  "pool_idle (first_round 0 False MReturned HSet) \<and>
   wHelpers (first_round 0 False MReturned HSet) ! 0 \<in> {HSet, HTop, HWait}"
proof -
  have "pool_step None False (first_round 0 False MPoll HSet) (first_round 0 False MReturned HSet)"
    by (rule pool_step.main) (simp add: main_step_def first_round_def)
  then have "(pool_step None False)\<^sup>*\<^sup>* (Workers_init 1 1 ()) (first_round 0 False MReturned HSet)"
    using first_round_run [of 1] by simp
  then show ?thesis
    using init_makes_idle [of 1 "()" "first_round 0 False MReturned HSet"] by (simp add: first_round_def)
qed

text \<open>
  C26. When a helper thread cannot be created, \<open>init\<close> lowers the number of helpers but not the counter
  it then waits for, so without spurious wakeups it never returns.
\<close>

theorem init_hangs:
  assumes "created < wanted" and "(pool_step None False)\<^sup>*\<^sup>* (Workers_init wanted created s) W"
  shows "wMain W = MPoll"
  using init_short_run [of created "wanted - created" s W] assms by simp

theorem init_hangs_witness:
  "(pool_step None False)\<^sup>*\<^sup>* (Workers_init 2 1 ()) (first_round 1 False MPoll HSet) \<and>
   wMain (first_round 1 False MPoll HSet) = MPoll"
  using first_round_run [of 2] init_hangs [of 1 2 "()" "first_round 1 False MPoll HSet"] by simp

text \<open>
  C24. Without spurious wakeups the destructor of an idle pool always comes to an end: no run of its
  threads is infinite, and when no thread can go on, all helpers have exited and the join has returned.
\<close>

theorem stop_ends:
  assumes "pool_idle W"
  shows "(\<nexists>f. f 0 = Workers_stop W \<and> (\<forall>k. pool_step None False (f k) (f (Suc k)))) \<and>
    (\<forall>W'. (pool_step None False)\<^sup>*\<^sup>* (Workers_stop W) W' \<and> (\<nexists>W''. pool_step None False W' W'') \<longrightarrow>
      wMain W' = MReturned \<and> set (wHelpers W') \<subseteq> {HExit})"
proof -
  let ?R = "\<lambda>W. main_rank (\<lambda>_. 0) undefined (length (wHelpers W)) (wMain W) + (\<Sum>j<length (wHelpers W). stop_rank (wHelpers W ! j))"
  have dec: "?R b < ?R a \<and> stop_inv b" if "stop_inv a" "pool_step None False a b" for a b :: "('a, 'b) Workers"
    using stop_decreases [OF that(2,1)] stop_step [OF that(2,1)] by blast
  have "False" if "f 0 = Workers_stop W" "\<And>k. pool_step None False (f k) (f (Suc k))" for f
    using no_infinite_run [of stop_inv "pool_step None False" ?R f, OF dec] that stop_start [OF assms] by simp
  moreover have "wMain W' = MReturned \<and> set (wHelpers W') \<subseteq> {HExit}"
    if "(pool_step None False)\<^sup>*\<^sup>* (Workers_stop W) W'" "\<nexists>W''. pool_step None False W' W''" for W'
  proof -
    have "stop_inv W'"
      using stop_run [OF that(1) assms] .
    moreover from this have "wMain W' = MReturned"
      using stop_progress that(2) by blast
    ultimately show ?thesis
      by (simp add: stop_inv_def)
  qed
  ultimately show ?thesis
    by blast
qed

theorem stop_ends_witness:
  "\<exists>W'. (pool_step None False)\<^sup>*\<^sup>* (Workers_stop (first_round 0 False MReturned HSet)) W' \<and>
     wMain W' = MReturned \<and> set (wHelpers W') \<subseteq> {HExit}"
proof -
  have "pool_idle (first_round 0 False MReturned HSet)"
    by (simp add: pool_idle_def pool_inv_def num_busy_def busy_def pending_def first_round_def)
  note s = stop_ends [OF this]
  show ?thesis
    using reaches_stuck [OF conjunct1 [OF s]] conjunct2 [OF s] by blast
qed

text \<open>
  C25. POSIX allows \<^verbatim>\<open>pthread_cond_wait\<close> to return without a signal, and \<open>Signal::wait\<close> does not test its
  flag again. Then a helper may run the callback of a launch after \<open>launchThreads\<close> has returned,
  on launch data that its caller has given up.
\<close>

theorem spurious_wakeup:
  assumes "f 0 s p = (s1, None)" and "f 1 s1 p = (s2, None)"
    and "wHelpers W = [HWait]" and "mLaunchSignals W = [False]" and "\<not> mExit W"
  shows "\<exists>W'. (pool_step (Some (p, f)) True)\<^sup>*\<^sup>* (launchThreads (Some (p, f)) False s W) W' \<and>
    wMain W' = MReturned \<and> wHelpers W' = [HCall p]"
proof -
  let ?S = "\<lambda>sh r b c m h. W\<lparr>wShared := sh, mRunningCount := r, mLaunchSignals := [b], mCompleteSignal := c,
     wMain := m, wHelpers := [h]\<rparr>"
  let ?step = "pool_step (Some (p, f)) True"
  define c where "c = mCompleteSignal W"
  have l: "launchThreads (Some (p, f)) False s W = ?S s 1 False c (MSet 0) HWait"
    using assms(3,4) by (simp add: launchThreads_def c_def)
  have s1: "?step (?S s 1 False c (MSet 0) HWait) (?S s 1 True c (MSet 1) HWait)"
    by (rule pool_step.main) (simp add: main_step_def Signal_set_def)
  have s2: "?step (?S s 1 True c (MSet 1) HWait) (?S s 1 True c (MCall p) HWait)"
    by (rule pool_step.main) (simp add: main_step_def)
  have s3: "?step (?S s 1 True c (MCall p) HWait) (?S s1 1 True c MTest HWait)"
    by (rule pool_step.main) (simp add: main_step_def assms(1))
  have s4: "?step (?S s1 1 True c MTest HWait) (?S s1 1 False c MTest (HCall p))"
    by (rule pool_step.helper [of 0]) (simp_all add: helper_step_def set_helper_def Signal_wait_def)
  have s5: "?step (?S s1 1 False c MTest (HCall p)) (?S s2 1 False c MTest HDec)"
    using assms(2) by (intro pool_step.helper [of 0]) (simp_all add: helper_step_def set_helper_def)
  have s6: "?step (?S s2 1 False c MTest HDec) (?S s2 0 False c MTest HSet)"
    by (rule pool_step.helper [of 0]) (simp_all add: helper_step_def set_helper_def)
  have s7: "?step (?S s2 0 False c MTest HSet) (?S s2 0 False c MReturned HSet)"
    by (rule pool_step.main) (simp add: main_step_def)
  have s8: "?step (?S s2 0 False c MReturned HSet) (?S s2 0 False True MReturned HTop)"
    by (rule pool_step.helper [of 0]) (simp_all add: helper_step_def set_helper_def Signal_set_def)
  have s9: "?step (?S s2 0 False True MReturned HTop) (?S s2 0 False True MReturned HWait)"
    by (rule pool_step.helper [of 0]) (simp_all add: helper_step_def set_helper_def assms(5))
  have s10: "?step (?S s2 0 False True MReturned HWait) (?S s2 0 False True MReturned (HCall p))"
    by (rule pool_step.helper [of 0]) (simp_all add: helper_step_def set_helper_def Signal_wait_def)
  have "?step\<^sup>*\<^sup>* (launchThreads (Some (p, f)) False s W) (?S s2 0 False True MReturned (HCall p))"
    unfolding l
    by (rule converse_rtranclp_into_rtranclp [of ?step, OF s1], rule converse_rtranclp_into_rtranclp [of ?step, OF s2], rule converse_rtranclp_into_rtranclp [of ?step, OF s3], rule converse_rtranclp_into_rtranclp [of ?step, OF s4], rule converse_rtranclp_into_rtranclp [of ?step, OF s5],
      rule converse_rtranclp_into_rtranclp [of ?step, OF s6], rule converse_rtranclp_into_rtranclp [of ?step, OF s7], rule converse_rtranclp_into_rtranclp [of ?step, OF s8], rule converse_rtranclp_into_rtranclp [of ?step, OF s9], rule converse_rtranclp_into_rtranclp [of ?step, OF s10], rule rtranclp.rtrancl_refl)
  then show ?thesis
    by (intro exI [of _ "?S s2 0 False True MReturned (HCall p)"]) simp
qed

theorem spurious_wakeup_witness:
  "let cb = ((), \<lambda>i s p. (s, None)); W = \<lparr>wShared = (), mRunningCount = 0, mLaunchSignals = [False], mCompleteSignal = False,
     mExit = False, wMain = MReturned, wHelpers = [HWait]\<rparr>
   in \<exists>W'. (pool_step (Some cb) True)\<^sup>*\<^sup>* (launchThreads (Some cb) False () W) W' \<and>
    wMain W' = MReturned \<and> wHelpers W' = [HCall ()]"
  unfolding Let_def by (rule spurious_wakeup) simp_all

end
