(* ===== verification/Cpu_Slices.thy ===== *)
theory Cpu_Slices
  imports Cpu_Pool Rs_Utils "HOL-Library.Multiset"
begin

text \<open>
  The loop that all walkers of the CPU driver share: a thread takes the next slice with
  \<^verbatim>\<open>__sync_fetch_and_add(&mtls->mSliceNum, 1)\<close>, returns when the slice is past the end, and works on
  it otherwise (\<^verbatim>\<open>walk_1d_foreach\<close> and its relatives in \<^verbatim>\<open>cpu_ref/rsCpuCore.cpp\<close>,
  \<^verbatim>\<open>walk_tiled_gemm\<close> in \<^verbatim>\<open>cpu_ref/rsCpuIntrinsicBLAS.cpp\<close>). The loop is a callback of the pool; the
  locale \<open>slicer\<close> is the contract of the function that cuts a launch into slices.
\<close>

section \<open>The slice loop\<close>

text \<open>
  \<open>mSliceNum\<close> is the number of increments so far; a thread reads it modulo \<open>2 ^ 32\<close>. \<open>sDone\<close> logs the
  finished slices with the number of the thread.
\<close>

record 'w Slices =
  mSliceNum :: nat
  sDone :: "(nat \<times> 'w) list"

datatype 'w SlicePc = Fetch | Work 'w

definition slice_step :: "(u32 \<Rightarrow> 'w option) \<Rightarrow> nat \<Rightarrow> 'w Slices \<Rightarrow> 'w SlicePc \<Rightarrow> 'w Slices \<times> 'w SlicePc option" where
  "slice_step select idx s pc = (case pc of
     Fetch \<Rightarrow> (s\<lparr>mSliceNum := mSliceNum s + 1\<rparr>, map_option Work (select (of_nat (mSliceNum s))))
   | Work w \<Rightarrow> (s\<lparr>sDone := sDone s @ [(idx, w)]\<rparr>, Some Fetch))"

definition slice_loop :: "(u32 \<Rightarrow> 'w option) \<Rightarrow> ('w Slices, 'w SlicePc) Callback" where
  "slice_loop select = (Fetch, slice_step select)"

definition no_slices :: "'w Slices" where
  "no_slices = \<lparr>mSliceNum = 0, sDone = []\<rparr>"

section \<open>Every slice exactly once\<close>

text \<open>With \<open>T\<close> threads, \<open>n\<close> slices are cut and the next \<open>T\<close> requests are answered with the end.\<close>

definition slices_ok :: "(u32 \<Rightarrow> 'w option) \<Rightarrow> nat \<Rightarrow> nat \<Rightarrow> bool" where
  "slices_ok select n T \<longleftrightarrow> (\<forall>s<n + T. select (of_nat s) \<noteq> None \<longleftrightarrow> s < n)"

definition in_flight :: "'w SlicePc Thread \<Rightarrow> 'w multiset" where
  "in_flight t = (case t of Running (Work w) \<Rightarrow> {#w#} | _ \<Rightarrow> {#})"

definition slice_at :: "(u32 \<Rightarrow> 'w option) \<Rightarrow> nat \<Rightarrow> 'w" where
  "slice_at select s = the (select (of_nat s))"

definition flight :: "nat \<Rightarrow> (nat \<Rightarrow> 'w SlicePc Thread) \<Rightarrow> 'w multiset" where
  "flight T st = (\<Sum>i<T. in_flight (st i))"

definition first_slices :: "(u32 \<Rightarrow> 'w option) \<Rightarrow> nat \<Rightarrow> 'w multiset" where
  "first_slices select k = mset (map (slice_at select) [0..<k])"

definition num_returned :: "nat \<Rightarrow> (nat \<Rightarrow> 'p Thread) \<Rightarrow> nat" where
  "num_returned T st = (\<Sum>i<T. of_bool (st i = Returned))"

definition slice_inv :: "(u32 \<Rightarrow> 'w option) \<times> nat \<Rightarrow> nat \<Rightarrow> 'w Slices \<Rightarrow> (nat \<Rightarrow> 'w SlicePc Thread) \<Rightarrow> bool" where
  "slice_inv l T s st \<longleftrightarrow> slices_ok (fst l) (snd l) T \<and>
     mset (map snd (sDone s)) + flight T st = first_slices (fst l) (min (mSliceNum s) (snd l)) \<and>
     mSliceNum s \<le> snd l + num_returned T st \<and> (num_returned T st \<noteq> 0 \<longrightarrow> snd l \<le> mSliceNum s)"

lemma in_flight_simps [simp]:
  "in_flight NotStarted = {#}" "in_flight Returned = {#}" "in_flight (Running Fetch) = {#}"
  "in_flight (Running (Work w)) = {#w#}"
  by (simp_all add: in_flight_def)

lemma first_slices_Suc: "first_slices sel (Suc k) = add_mset (slice_at sel k) (first_slices sel k)"
  by (simp add: first_slices_def)

lemma flight_upd:
  fixes i :: nat
  assumes "i < T"
  shows "flight T (st(i := t)) + in_flight (st i) = flight T st + in_flight t"
  using sum_change [OF assms, of "\<lambda>j. in_flight ((st(i := t)) j)" "\<lambda>j. in_flight (st j)"] by (simp add: flight_def)

lemma returned_upd:
  fixes i :: nat
  assumes "i < T"
  shows "num_returned T (st(i := t)) + of_bool (st i = Returned) = num_returned T st + of_bool (t = Returned)"
  using sum_change [OF assms, of "\<lambda>j. of_bool ((st(i := t)) j = Returned) :: nat" "\<lambda>j. of_bool (st j = Returned)"]
  by (simp add: num_returned_def del: sum_of_bool_eq)

lemma returned_le: "num_returned T st \<le> T"
  using sum_bounded_above [of "{..<T}" "\<lambda>i. of_bool (st i = Returned) :: nat" 1]
  by (simp add: num_returned_def del: sum_of_bool_eq)

lemma slice_fetch:
  assumes inv: "slice_inv l T s st" and i: "i < T" "st i = Running Fetch"
  shows "(fst l (of_nat (mSliceNum s)) \<noteq> None) = (mSliceNum s < snd l)"
    and "slice_inv l T (s\<lparr>mSliceNum := mSliceNum s + 1\<rparr>) (st(i := after (map_option Work (fst l (of_nat (mSliceNum s))))))"
proof -
  have "num_returned T st < T"
    using returned_upd [OF i(1), of st Returned] returned_le [of T "st(i := Returned)"] i(2) by simp
  then have "mSliceNum s < snd l + T"
    using inv by (simp add: slice_inv_def)
  then show sel: "(fst l (of_nat (mSliceNum s)) \<noteq> None) = (mSliceNum s < snd l)"
    using inv by (simp add: slice_inv_def slices_ok_def)
  show "slice_inv l T (s\<lparr>mSliceNum := mSliceNum s + 1\<rparr>) (st(i := after (map_option Work (fst l (of_nat (mSliceNum s))))))"
  proof (cases "fst l (of_nat (mSliceNum s))")
    case None
    then show ?thesis
      using sel inv flight_upd [OF i(1), of st Returned] returned_upd [OF i(1), of st Returned] i(2)
      by (auto simp: slice_inv_def after_def)
  next
    case (Some w)
    then have "mSliceNum s < snd l" "w = slice_at (fst l) (mSliceNum s)"
      using sel by (auto simp: slice_at_def)
    then show ?thesis
      using Some inv flight_upd [OF i(1), of st "Running (Work w)"] returned_upd [OF i(1), of st "Running (Work w)"] i(2)
      by (auto simp: slice_inv_def after_def first_slices_Suc)
  qed
qed

lemma slice_work:
  assumes inv: "slice_inv l T s st" and i: "i < T" "st i = Running (Work w)"
  shows "slice_inv l T (s\<lparr>sDone := sDone s @ [(i, w)]\<rparr>) (st(i := Running Fetch))"
proof -
  have "flight T st = add_mset w (flight T (st(i := Running Fetch)))"
    using flight_upd [OF i(1), of st "Running Fetch"] i(2) by simp
  then show ?thesis
    using inv returned_upd [OF i(1), of st "Running Fetch"] i(2) by (simp add: slice_inv_def)
qed

definition pc_weight :: "'w SlicePc \<Rightarrow> nat" where
  "pc_weight pc = (case pc of Fetch \<Rightarrow> 1 | Work _ \<Rightarrow> 2)"

interpretation sliced: callback "\<lambda>l. slice_loop (fst l)" slice_inv "\<lambda>l s. 2 * (snd l - mSliceNum s)"
    "\<lambda>_. pc_weight"
proof
  fix l :: "(u32 \<Rightarrow> 'w option) \<times> nat" and T s st i
  assume inv: "slice_inv l T s st" and i: "i < T"
  show "st i = NotStarted \<Longrightarrow> slice_inv l T s (st(i := Running (fst (slice_loop (fst l)))))"
    using inv flight_upd [OF i, of st "Running Fetch"] returned_upd [OF i, of st "Running Fetch"]
    by (auto simp: slice_inv_def slice_loop_def)
  fix p s' q
  assume st: "st i = Running p" and step: "snd (slice_loop (fst l)) i s p = (s', q)"
  show "slice_inv l T s' (st(i := after q))"
    using slice_fetch(2) [OF inv i] slice_work [OF inv i] st step
    by (cases p) (auto simp: slice_loop_def slice_step_def after_def)
  show "2 * (snd l - mSliceNum s') + (case q of None \<Rightarrow> 0 | Some p \<Rightarrow> pc_weight p)
      < 2 * (snd l - mSliceNum s) + pc_weight p"
    using slice_fetch(1) [OF inv i] st step
    by (cases p; cases "fst l (of_nat (mSliceNum s))") (auto simp: slice_loop_def slice_step_def pc_weight_def)
qed

lemma slice_inv_start: "slices_ok sel n T \<Longrightarrow> slice_inv (sel, n) T no_slices (\<lambda>_. NotStarted)"
  by (simp add: slice_inv_def no_slices_def num_returned_def flight_def first_slices_def)

lemma slice_inv_end:
  assumes "slice_inv (sel, n) T s st" and "0 < T" and "st 0 = Returned" and "\<forall>i. st i = NotStarted \<or> st i = Returned"
  shows "mset (map snd (sDone s)) = first_slices sel n"
proof -
  have "in_flight (st i) = {#}" for i
    using assms(4) by (metis in_flight_simps(1,2))
  then have "flight T st = {#}"
    by (simp add: flight_def)
  moreover have "num_returned T st \<noteq> 0"
    using returned_upd [OF assms(2), of st NotStarted] assms(3) by simp
  ultimately show ?thesis
    using assms(1) by (simp add: slice_inv_def min_absorb2)
qed

text \<open>The loop on the pool: it comes to an end, and at the end every slice has been worked on once.\<close>

lemma slice_launch:
  assumes "pool_idle W" and "slices_ok sel n (getThreadCount W)"
  shows "\<nexists>f. f 0 = launchThreads (Some (slice_loop sel)) fast no_slices W \<and>
      (\<forall>k. pool_step (Some (slice_loop sel)) False (f k) (f (Suc k)))"
    and "(pool_step (Some (slice_loop sel)) False)\<^sup>*\<^sup>* (launchThreads (Some (slice_loop sel)) fast no_slices W) W' \<Longrightarrow>
      \<nexists>W''. pool_step (Some (slice_loop sel)) False W' W'' \<Longrightarrow> wMain W' = MReturned"
    and "(pool_step (Some (slice_loop sel)) False)\<^sup>*\<^sup>* (launchThreads (Some (slice_loop sel)) fast no_slices W) W' \<Longrightarrow>
      wMain W' = MReturned \<Longrightarrow>
      pool_idle W' \<and> mset (map snd (sDone (wShared W'))) = first_slices sel n"
proof -
  note start = slice_inv_start [OF assms(2)]
  show "\<nexists>f. f 0 = launchThreads (Some (slice_loop sel)) fast no_slices W \<and>
      (\<forall>k. pool_step (Some (slice_loop sel)) False (f k) (f (Suc k)))"
    using sliced.terminates [OF assms(1) start] by simp
  show "(pool_step (Some (slice_loop sel)) False)\<^sup>*\<^sup>* (launchThreads (Some (slice_loop sel)) fast no_slices W) W' \<Longrightarrow>
      \<nexists>W''. pool_step (Some (slice_loop sel)) False W' W'' \<Longrightarrow> wMain W' = MReturned"
    using sliced.stops_returned [OF _ assms(1) start, of fast W'] by simp
  assume "(pool_step (Some (slice_loop sel)) False)\<^sup>*\<^sup>* (launchThreads (Some (slice_loop sel)) fast no_slices W) W'"
    "wMain W' = MReturned"
  then obtain st where "pool_idle W'" "slice_inv (sel, n) (getThreadCount W) (wShared W') st" "st 0 = Returned"
      "\<forall>i. st i = NotStarted \<or> st i = Returned"
    using sliced.returned [OF _ assms(1) start, of fast W'] by auto
  then show "pool_idle W' \<and> mset (map snd (sDone (wShared W'))) = first_slices sel n"
    using slice_inv_end [of sel n "getThreadCount W" "wShared W'" st] by (simp add: getThreadCount_def)
qed

section \<open>The contract of a slicer\<close>

text \<open>
  A slicer cuts a launch \<open>l\<close> into \<open>num l\<close> slices; \<open>fit l T\<close> says that its arithmetic does not wrap for
  the requests of \<open>T\<close> threads.
\<close>

locale slicer =
  fixes sel :: "'l \<Rightarrow> u32 \<Rightarrow> 'w option" and num :: "'l \<Rightarrow> nat" and fit :: "'l \<Rightarrow> nat \<Rightarrow> bool"
  assumes cut: "fit l T \<Longrightarrow> s < num l + T \<Longrightarrow> (sel l (of_nat s) \<noteq> None) = (s < num l)"
begin

lemma cuts: "fit l T \<Longrightarrow> slices_ok (sel l) (num l) T"
  using cut by (auto simp: slices_ok_def)

lemma finite:
  assumes "pool_idle W" and "fit l (getThreadCount W)"
  shows "\<nexists>f. f 0 = launchThreads (Some (slice_loop (sel l))) fast no_slices W \<and>
    (\<forall>k. pool_step (Some (slice_loop (sel l))) False (f k) (f (Suc k)))"
  using slice_launch(1) [OF assms(1) cuts [OF assms(2)]] .

lemma reaches_end:
  assumes "(pool_step (Some (slice_loop (sel l))) False)\<^sup>*\<^sup>* (launchThreads (Some (slice_loop (sel l))) fast no_slices W) W'"
    and "pool_idle W" and "fit l (getThreadCount W)" and "\<nexists>W''. pool_step (Some (slice_loop (sel l))) False W' W''"
  shows "wMain W' = MReturned"
  using slice_launch(2) [OF assms(2) cuts [OF assms(3)] assms(1,4)] .

lemma all_done:
  assumes "(pool_step (Some (slice_loop (sel l))) False)\<^sup>*\<^sup>* (launchThreads (Some (slice_loop (sel l))) fast no_slices W) W'"
    and "pool_idle W" and "fit l (getThreadCount W)" and "wMain W' = MReturned"
  shows "pool_idle W'" and "mset (map snd (sDone (wShared W'))) = first_slices (sel l) (num l)"
  using slice_launch(3) [OF assms(2) cuts [OF assms(3)] assms(1,4)] by auto

end

section \<open>Ranges\<close>

text \<open>The slices of the one- and two-dimensional walkers: \<^verbatim>\<open>mSliceSize\<close> rows or cells each, the last one cut off.\<close>

definition range_slice :: "u32 \<times> u32 \<times> u32 \<Rightarrow> u32 \<Rightarrow> (u32 \<times> u32) option" where
  "range_slice = (\<lambda>(start, step, stop) slice.
     (let a = start + slice * step; b = rsMin (a + step) stop in if b \<le> a then None else Some (a, b)))"

definition range_count :: "u32 \<times> u32 \<times> u32 \<Rightarrow> nat" where
  "range_count = (\<lambda>(start, step, stop). (unat stop - unat start + (unat step - 1)) div unat step)"

definition range_fits :: "u32 \<times> u32 \<times> u32 \<Rightarrow> nat \<Rightarrow> bool" where
  "range_fits = (\<lambda>(start, step, stop) T. 0 < unat step \<and> unat start \<le> unat stop \<and>
     unat start + (range_count (start, step, stop) + T) * unat step < 2 ^ 32)"

lemma unat_min: "unat (min a b) = min (unat a) (unat b)"
  by (simp add: min_def word_le_nat_alt)

lemma upt_join: "a \<le> b \<Longrightarrow> b \<le> c \<Longrightarrow> [a..<b] @ [b..<c] = [a..<c]"
  by (metis le_Suc_ex upt_add_eq_append)

lemma ceil_div_less:
  fixes s n d :: nat
  assumes "0 < d"
  shows "s < (n + (d - 1)) div d \<longleftrightarrow> s * d < n"
proof -
  have "s < (n + (d - 1)) div d \<longleftrightarrow> Suc s * d \<le> n + (d - 1)"
    using assms by (simp add: less_eq_div_iff_mult_less_eq flip: Suc_le_eq)
  then show ?thesis
    using assms by auto
qed

lemma range_slice_nat:
  assumes "range_fits (start, step, stop) T" and "s < range_count (start, step, stop) + T"
  shows "unat (start + of_nat s * step) = unat start + s * unat step"
    and "unat (start + of_nat s * step + step) = unat start + (s + 1) * unat step"
proof -
  let ?n = "range_count (start, step, stop) + T"
  have sz: "0 < unat step" and b: "unat start + ?n * unat step < 2 ^ 32"
    using assms by (auto simp: range_fits_def)
  have le: "(s + 1) * unat step \<le> ?n * unat step"
    using assms(2) by (intro mult_le_mono1) simp
  have "s < (s + 1) * unat step"
    using sz by (cases "unat step") auto
  then have s: "s < 2 ^ 32"
    using le b by linarith
  have m: "unat (of_nat s * step) = s * unat step"
    using s le b by (simp add: unat_word_ariths unat_of_nat)
  show a: "unat (start + of_nat s * step) = unat start + s * unat step"
    using le b by (subst unat_add_bounded) (simp_all add: m)
  show "unat (start + of_nat s * step + step) = unat start + (s + 1) * unat step"
    using le b by (subst unat_add_bounded) (simp_all add: a)
qed

interpretation ranges: slicer range_slice range_count range_fits
proof
  fix l T s
  assume fit: "range_fits l T" and s: "s < range_count l + T"
  obtain start step stop where l: "l = (start, step, stop)"
    by (metis surj_pair)
  note n = range_slice_nat [OF fit [unfolded l] s [unfolded l]]
  have "range_slice l (of_nat s) \<noteq> None \<longleftrightarrow> unat start + s * unat step < unat stop"
    using fit by (auto simp: l range_slice_def Let_def unat_min word_le_nat_alt n range_fits_def)
  also have "\<dots> \<longleftrightarrow> s < range_count l"
    using fit ceil_div_less [of "unat step" s "unat stop - unat start"] by (auto simp: l range_fits_def range_count_def)
  finally show "(range_slice l (of_nat s) \<noteq> None) = (s < range_count l)" .
qed

text \<open>The slices, one after the other, are the whole range.\<close>

definition range_list :: "u32 \<times> u32 \<Rightarrow> nat list" where
  "range_list = (\<lambda>(a, b). [unat a..<unat b])"

lemma range_slice_some:
  assumes "range_fits (start, step, stop) T" and "s < range_count (start, step, stop)"
  shows "range_list (slice_at (range_slice (start, step, stop)) s) =
    [unat start + s * unat step..<min (unat start + (s + 1) * unat step) (unat stop)]"
proof -
  have n: "s < range_count (start, step, stop) + T"
    using assms(2) by simp
  note n' = range_slice_nat [OF assms(1) n]
  have "range_slice (start, step, stop) (of_nat s) \<noteq> None"
    using ranges.cut [OF assms(1) n] assms(2) by simp
  then show ?thesis
    by (auto simp: slice_at_def range_slice_def Let_def range_list_def unat_min word_le_nat_alt n' split: if_splits)
qed

lemma ranges_concat:
  assumes "range_fits (start, step, stop) T"
  shows "concat (map (\<lambda>s. range_list (slice_at (range_slice (start, step, stop)) s)) [0..<range_count (start, step, stop)]) =
    [unat start..<unat stop]"
proof -
  let ?n = "range_count (start, step, stop)"
  have st: "0 < unat step" "unat start \<le> unat stop"
    using assms by (auto simp: range_fits_def)
  have "concat (map (\<lambda>s. range_list (slice_at (range_slice (start, step, stop)) s)) [0..<k]) =
      [unat start..<min (unat start + k * unat step) (unat stop)]" if "k \<le> ?n" for k
    using that
  proof (induction k)
    case (Suc k)
    then have "k * unat step < unat stop - unat start"
      using ceil_div_less [OF st(1), of k "unat stop - unat start"] by (simp add: range_count_def)
    with Suc range_slice_some [OF assms, of k] st show ?case
      by (simp add: upt_join algebra_simps)
  qed (use st in simp)
  moreover have "\<not> ?n * unat step < unat stop - unat start"
    using ceil_div_less [OF st(1), of ?n "unat stop - unat start"] by (simp add: range_count_def)
  then have "min (unat start + ?n * unat step) (unat stop) = unat stop"
    by simp
  ultimately show ?thesis
    by (metis order_refl)
qed

section \<open>Outer dimensions\<close>

text \<open>\<^verbatim>\<open>RsLaunchDimensions\<close>\<close>

record RsLaunchDimensions =
  ldX :: u32
  ldY :: u32
  ldZ :: u32
  ldLod :: u32
  ldFace :: u32
  ldArray0 :: u32
  ldArray1 :: u32
  ldArray2 :: u32
  ldArray3 :: u32

text \<open>\<open>sliceInt\<close>, with the value it stores through its first argument.\<close>

definition sliceInt :: "u32 \<Rightarrow> u32 \<Rightarrow> u32 \<Rightarrow> u32 \<times> u32" where
  "sliceInt val start stop = (if start \<ge> stop then (start, val)
     else (let d = stop - start; n = val div d in (val - n * d + start, n)))"

definition SelectOuterSlice :: "RsLaunchDimensions \<Rightarrow> RsLaunchDimensions \<Rightarrow> RsLaunchDimensions \<Rightarrow> u32 \<Rightarrow> RsLaunchDimensions \<times> bool" where
  "SelectOuterSlice start stop current sliceNum =
     (let r = sliceNum;
          (z, r) = sliceInt r (ldZ start) (ldZ stop);
          (lod, r) = sliceInt r (ldLod start) (ldLod stop);
          (face, r) = sliceInt r (ldFace start) (ldFace stop);
          (a0, r) = sliceInt r (ldArray0 start) (ldArray0 stop);
          (a1, r) = sliceInt r (ldArray1 start) (ldArray1 stop);
          (a2, r) = sliceInt r (ldArray2 start) (ldArray2 stop);
          (a3, r) = sliceInt r (ldArray3 start) (ldArray3 stop)
      in (current\<lparr>ldZ := z, ldLod := lod, ldFace := face, ldArray0 := a0, ldArray1 := a1, ldArray2 := a2, ldArray3 := a3\<rparr>, r = 0))"

definition SelectZSlice :: "RsLaunchDimensions \<Rightarrow> RsLaunchDimensions \<Rightarrow> RsLaunchDimensions \<Rightarrow> u32 \<Rightarrow> RsLaunchDimensions \<times> bool" where
  "SelectZSlice start stop current sliceNum =
     (let (z, r) = sliceInt sliceNum (ldZ start) (ldZ stop) in (current\<lparr>ldZ := z\<rparr>, r = 0))"

text \<open>The number of values a dimension takes; one that is not present has one.\<close>

definition width :: "u32 \<Rightarrow> u32 \<Rightarrow> nat" where
  "width start stop = (if start \<ge> stop then 1 else unat (stop - start))"

definition outer_bounds :: "RsLaunchDimensions \<Rightarrow> RsLaunchDimensions \<Rightarrow> (u32 \<times> u32) list" where
  "outer_bounds start stop = [(ldZ start, ldZ stop), (ldLod start, ldLod stop), (ldFace start, ldFace stop),
     (ldArray0 start, ldArray0 stop), (ldArray1 start, ldArray1 stop), (ldArray2 start, ldArray2 stop), (ldArray3 start, ldArray3 stop)]"

definition outer_coords :: "RsLaunchDimensions \<Rightarrow> u32 list" where
  "outer_coords d = [ldZ d, ldLod d, ldFace d, ldArray0 d, ldArray1 d, ldArray2 d, ldArray3 d]"

primrec slice_digits :: "(u32 \<times> u32) list \<Rightarrow> u32 \<Rightarrow> u32 list \<times> u32" where
  "slice_digits [] r = ([], r)"
| "slice_digits (b # bs) r = (let (p, r) = sliceInt r (fst b) (snd b); (ps, r) = slice_digits bs r in (p # ps, r))"

definition num_coords :: "(u32 \<times> u32) list \<Rightarrow> nat" where
  "num_coords bs = (\<Prod>b\<leftarrow>bs. width (fst b) (snd b))"

lemma outer_digits:
  "outer_coords (fst (SelectOuterSlice start stop current n)) = fst (slice_digits (outer_bounds start stop) n)"
  "snd (SelectOuterSlice start stop current n) \<longleftrightarrow> snd (slice_digits (outer_bounds start stop) n) = 0"
  by (simp_all add: SelectOuterSlice_def outer_coords_def outer_bounds_def split: prod.splits)

lemma sliceInt_nat:
  "unat (snd (sliceInt v a b)) = unat v div width a b"
  "fst (sliceInt v a b) = a + of_nat (unat v mod width a b)"
proof -
  show "unat (snd (sliceInt v a b)) = unat v div width a b"
    by (simp add: sliceInt_def width_def unat_div Let_def)
  show "fst (sliceInt v a b) = a + of_nat (unat v mod width a b)"
    by (simp add: sliceInt_def width_def Let_def minus_div_mult_eq_mod flip: unat_mod)
qed

lemma width_pos [simp]: "0 < width a b"
proof -
  have "unat (b - a) = unat b - unat a" if "\<not> b \<le> a"
    using that by (intro unat_sub) (simp add: le_less_linear order_less_imp_le)
  then show ?thesis
    by (auto simp: width_def word_le_nat_alt)
qed

lemma num_coords_pos [simp]: "0 < num_coords bs"
  by (induction bs) (auto simp: num_coords_def)

lemma digits_rest: "unat (snd (slice_digits bs v)) = unat v div num_coords bs"
proof (induction bs arbitrary: v)
  case (Cons b bs)
  obtain p r ps r' where d: "sliceInt v (fst b) (snd b) = (p, r)" "slice_digits bs r = (ps, r')"
    by fastforce
  then have "unat r = unat v div width (fst b) (snd b)" "unat r' = unat r div num_coords bs"
    using sliceInt_nat(1) [of v "fst b" "snd b"] Cons [of r] by simp_all
  with d show ?case
    by (simp add: num_coords_def div_mult2_eq)
qed (simp add: num_coords_def)

text \<open>The slices enumerate the coordinates of the outer dimensions.\<close>

definition in_dim :: "u32 \<times> u32 \<Rightarrow> u32 \<Rightarrow> bool" where
  "in_dim b c \<longleftrightarrow> (if fst b \<ge> snd b then c = fst b else fst b \<le> c \<and> c < snd b)"

lemma in_dim_iff: "in_dim b c \<longleftrightarrow> (\<exists>k<width (fst b) (snd b). c = fst b + of_nat k)"
proof (cases "snd b \<le> fst b")
  case False
  then have w: "width (fst b) (snd b) = unat (snd b - fst b)" and le: "unat (snd b - fst b) = unat (snd b) - unat (fst b)"
    by (simp_all add: width_def unat_sub order_less_imp_le)
  have "unat (fst b + of_nat k) = unat (fst b) + k" if "k < unat (snd b) - unat (fst b)" for k
    using that unsigned_less [where ?'a = nat, of "snd b"] by (intro unat_add_numeral_bounded) simp
  moreover have "c = fst b + of_nat (unat c - unat (fst b))" if "fst b \<le> c"
    using that by (simp add: of_nat_unat_eq_self flip: unat_sub)
  moreover have "unat c - unat (fst b) < unat (snd b) - unat (fst b)" if "fst b \<le> c" "c < snd b"
    using that by (simp add: word_le_nat_alt word_less_nat_alt diff_less_mono)
  ultimately show ?thesis
    using False unfolding in_dim_def w le by (auto simp: word_le_nat_alt word_less_nat_alt)
qed (simp add: in_dim_def width_def)

lemma width_le: "width a b \<le> 2 ^ 32"
  using unsigned_less [where ?'a = nat, of "b - a"] by (simp add: width_def)

lemma digits_Cons:
  assumes "n < 2 ^ 32"
  shows "fst (slice_digits (b # bs) (of_nat n)) =
    (fst b + of_nat (n mod width (fst b) (snd b))) # fst (slice_digits bs (of_nat (n div width (fst b) (snd b))))"
proof -
  obtain p r where d: "sliceInt (of_nat n) (fst b) (snd b) = (p, r)"
    by fastforce
  have n: "unat (of_nat n :: u32) = n"
    using assms by (simp add: unat_of_nat)
  have "p = fst b + of_nat (n mod width (fst b) (snd b))" "unat r = n div width (fst b) (snd b)"
    using sliceInt_nat [of "of_nat n" "fst b" "snd b"] by (simp_all add: d n)
  then have "p = fst b + of_nat (n mod width (fst b) (snd b))" "r = of_nat (n div width (fst b) (snd b))"
    by (simp_all flip: \<open>unat r = n div width (fst b) (snd b)\<close>)
  then show ?thesis
    by (simp add: d split: prod.splits)
qed

lemma digits_bij:
  assumes "num_coords bs \<le> 2 ^ 32"
  shows "bij_betw (\<lambda>n. fst (slice_digits bs (of_nat n))) {..<num_coords bs} {cs. list_all2 in_dim bs cs}"
  using assms
proof (induction bs)
  case Nil
  then show ?case
    by (auto simp: num_coords_def bij_betw_def inj_on_def)
next
  case (Cons b bs)
  let ?w = "width (fst b) (snd b)" and ?m = "num_coords bs"
  have N: "num_coords (b # bs) = ?w * ?m"
    by (simp add: num_coords_def)
  have "?m \<le> ?w * ?m"
    using width_pos [of "fst b" "snd b"] by (cases ?w) simp_all
  then have le: "?m \<le> 2 ^ 32" "?w * ?m \<le> 2 ^ 32"
    using Cons.prems N by linarith+
  note IH = Cons.IH [OF le(1)]
  have D: "fst (slice_digits (b # bs) (of_nat n)) = (fst b + of_nat (n mod ?w)) # fst (slice_digits bs (of_nat (n div ?w)))"
    if "n < ?w * ?m" for n
    using that le(2) by (intro digits_Cons) simp
  have eq: "k = k'" if "fst b + of_nat k = fst b + of_nat k'" "k < ?w" "k' < ?w" for k k'
  proof -
    have "unat (of_nat k :: u32) = unat (of_nat k' :: u32)"
      using that(1) by simp
    moreover have "k < 2 ^ 32" "k' < 2 ^ 32"
      using that(2,3) width_le [of "fst b" "snd b"] by linarith+
    ultimately show ?thesis
      by (simp add: unat_of_nat)
  qed
  show ?case
    unfolding N bij_betw_def
  proof (intro conjI inj_onI set_eqI iffI)
    fix x y
    assume x: "x \<in> {..<?w * ?m}" and y: "y \<in> {..<?w * ?m}"
      and "fst (slice_digits (b # bs) (of_nat x)) = fst (slice_digits (b # bs) (of_nat y))"
    then have "x mod ?w = y mod ?w" "fst (slice_digits bs (of_nat (x div ?w))) = fst (slice_digits bs (of_nat (y div ?w)))"
      using D by (auto intro!: eq)
    moreover from this have "x div ?w = y div ?w"
      using IH x y by (auto simp: bij_betw_def inj_on_def less_mult_imp_div_less mult.commute)
    ultimately show "x = y"
      by (metis div_mult_mod_eq)
  next
    fix cs
    assume "cs \<in> (\<lambda>n. fst (slice_digits (b # bs) (of_nat n))) ` {..<?w * ?m}"
    then obtain n where n: "n < ?w * ?m" "cs = fst (slice_digits (b # bs) (of_nat n))"
      by auto
    have "fst (slice_digits bs (of_nat (n div ?w))) \<in> {cs. list_all2 in_dim bs cs}"
      using bij_betw_apply [OF IH, of "n div ?w"] n(1) by (simp add: less_mult_imp_div_less mult.commute)
    moreover have "in_dim b (fst b + of_nat (n mod ?w))"
      unfolding in_dim_iff by (intro exI [of _ "n mod ?w"]) simp
    ultimately show "cs \<in> {cs. list_all2 in_dim (b # bs) cs}"
      using n D by simp
  next
    fix cs
    assume "cs \<in> {cs. list_all2 in_dim (b # bs) cs}"
    then obtain c cs' where cs: "cs = c # cs'" "in_dim b c" "list_all2 in_dim bs cs'"
      by (auto simp: list_all2_Cons1)
    obtain k where k: "k < ?w" "c = fst b + of_nat k"
      using cs(2) by (auto simp: in_dim_iff)
    obtain m where m: "m < ?m" "cs' = fst (slice_digits bs (of_nat m))"
      using IH cs(3) by (auto simp: bij_betw_def)
    have "?w * Suc m \<le> ?w * ?m"
      using m(1) by (intro mult_le_mono2) simp
    then have lt: "k + ?w * m < ?w * ?m"
      using k(1) by simp
    moreover from this have "fst (slice_digits (b # bs) (of_nat (k + ?w * m))) = cs"
      using D [of "k + ?w * m"] k m cs(1) by simp
    ultimately show "cs \<in> (\<lambda>n. fst (slice_digits (b # bs) (of_nat n))) ` {..<?w * ?m}"
      by (intro image_eqI [of _ _ "k + ?w * m"]) simp_all
  qed
qed

text \<open>The slicer of the general walker, and the one over \<open>z\<close> only.\<close>

definition outer_slice :: "RsLaunchDimensions \<times> RsLaunchDimensions \<times> RsLaunchDimensions \<Rightarrow> u32 \<Rightarrow> RsLaunchDimensions option" where
  "outer_slice = (\<lambda>(start, stop, current) slice.
     (let (c, ok) = SelectOuterSlice start stop current slice in if ok then Some c else None))"

definition z_slice :: "RsLaunchDimensions \<times> RsLaunchDimensions \<times> RsLaunchDimensions \<Rightarrow> u32 \<Rightarrow> RsLaunchDimensions option" where
  "z_slice = (\<lambda>(start, stop, current) slice.
     (let (c, ok) = SelectZSlice start stop current slice in if ok then Some c else None))"

definition outer_count :: "RsLaunchDimensions \<times> RsLaunchDimensions \<times> RsLaunchDimensions \<Rightarrow> nat" where
  "outer_count = (\<lambda>(start, stop, current). num_coords (outer_bounds start stop))"

definition z_count :: "RsLaunchDimensions \<times> RsLaunchDimensions \<times> RsLaunchDimensions \<Rightarrow> nat" where
  "z_count = (\<lambda>(start, stop, current). width (ldZ start) (ldZ stop))"

interpretation outer: slicer outer_slice outer_count "\<lambda>l T. outer_count l + T \<le> 2 ^ 32"
proof
  fix l T s
  assume "outer_count l + T \<le> 2 ^ 32" and "s < outer_count l + T"
  then have "unat (of_nat s :: u32) = s"
    by (simp add: unat_of_nat)
  then show "(outer_slice l (of_nat s) \<noteq> None) = (s < outer_count l)"
    using outer_digits(2) [of "fst l" "fst (snd l)" "snd (snd l)" "of_nat s"]
      digits_rest [of "outer_bounds (fst l) (fst (snd l))" "of_nat s"]
      num_coords_pos [of "outer_bounds (fst l) (fst (snd l))"]
    by (auto simp: outer_slice_def outer_count_def unat_eq_0 div_eq_0_iff split: prod.splits simp flip: unat_eq_zero)
qed

interpretation depth: slicer z_slice z_count "\<lambda>l T. z_count l + T \<le> 2 ^ 32"
proof
  fix l T s
  assume "z_count l + T \<le> 2 ^ 32" and "s < z_count l + T"
  then have "unat (of_nat s :: u32) = s"
    by (simp add: unat_of_nat)
  then show "(z_slice l (of_nat s) \<noteq> None) = (s < z_count l)"
    using sliceInt_nat(1) [of "of_nat s" "ldZ (fst l)" "ldZ (fst (snd l))"] width_pos [of "ldZ (fst l)" "ldZ (fst (snd l))"]
    by (auto simp del: width_pos simp: z_slice_def z_count_def SelectZSlice_def unat_eq_0 div_eq_0_iff split: prod.splits simp flip: unat_eq_zero)
qed

end
