(* ===== verification/Cpu_ForEach.thy ===== *)
theory Cpu_ForEach
  imports Cpu_Slices Rs_Type
begin

text \<open>
  Kernel launches of the CPU driver: the preparation in \<^verbatim>\<open>cpu_ref/rsCpuScript.cpp\<close>
  (\<^verbatim>\<open>setUpMtlsDimensions\<close>, \<^verbatim>\<open>forEachMtlsSetup\<close>) and \<^verbatim>\<open>launchForEach\<close> with its three walkers in
  \<^verbatim>\<open>cpu_ref/rsCpuCore.cpp\<close>. A kernel is compiled outside the repository; the model records the calls
  it gets, and a call covers the cells of one row from \<open>kcX1\<close> up to \<open>kcX2\<close>, with the pointers advanced
  by the strides.
\<close>

section \<open>Launch structures\<close>

record RsScriptCall =
  scXStart :: u32
  scXEnd :: u32
  scYStart :: u32
  scYEnd :: u32
  scZStart :: u32
  scZEnd :: u32

text \<open>
  \<^verbatim>\<open>MTLaunchStructForEach\<close>, with the driver info it passes on. The lists \<open>mtAins\<close> and \<open>mtInStride\<close> are the
  entries in use of the arrays \<^verbatim>\<open>ains\<close>, \<^verbatim>\<open>inPtr\<close> and \<^verbatim>\<open>inStride\<close>, which have \<open>RS_KERNEL_INPUT_LIMIT\<close> entries.
\<close>

definition RS_KERNEL_INPUT_LIMIT :: nat where "RS_KERNEL_INPUT_LIMIT = 8"

record MTLaunchStructForEach =
  mtSliceSize :: u32
  mtIsThreadable :: bool
  mtStart :: RsLaunchDimensions
  mtEnd :: RsLaunchDimensions
  mtDim :: RsLaunchDimensions
  mtAins :: "Allocation option list"
  mtAout :: "Allocation option"
  mtInStride :: "u32 list"
  mtOutStride :: u32

definition zero_dims :: RsLaunchDimensions where
  "zero_dims = \<lparr>ldX = 0, ldY = 0, ldZ = 0, ldLod = 0, ldFace = 0, ldArray0 = 0, ldArray1 = 0, ldArray2 = 0, ldArray3 = 0\<rparr>"

section \<open>Preparing a launch\<close>

text \<open>The macro \<^verbatim>\<open>SET_UP_DIMENSION\<close>: the bounds of one dimension, or \<open>None\<close> for the error it reports.\<close>

definition SET_UP_DIMENSION :: "u32 \<Rightarrow> (u32 \<times> u32) option \<Rightarrow> (u32 \<times> u32) option" where
  "SET_UP_DIMENSION base sc = (case sc of None \<Rightarrow> Some (0, base)
     | Some (scStart, scEnd) \<Rightarrow> if scEnd = 0 then Some (0, base)
         else (let s = rsMin base scStart; e = rsMin base scEnd in if s \<ge> e then None else Some (s, e)))"

definition setUpMtlsDimensions :: "RsLaunchDimensions \<Rightarrow> RsScriptCall option \<Rightarrow> (RsLaunchDimensions \<times> RsLaunchDimensions) option" where
  "setUpMtlsDimensions baseDim sc = do {
     (x1, x2) \<leftarrow> SET_UP_DIMENSION (ldX baseDim) (map_option (\<lambda>c. (scXStart c, scXEnd c)) sc);
     (y1, y2) \<leftarrow> SET_UP_DIMENSION (ldY baseDim) (map_option (\<lambda>c. (scYStart c, scYEnd c)) sc);
     (z1, z2) \<leftarrow> SET_UP_DIMENSION (ldZ baseDim) (map_option (\<lambda>c. (scZStart c, scZEnd c)) sc);
     Some (zero_dims\<lparr>ldX := x1, ldY := y1, ldZ := z1\<rparr>, zero_dims\<lparr>ldX := x2, ldY := y2, ldZ := z2\<rparr>) }"

definition allocationLODIsNull :: "Allocation option \<Rightarrow> bool option" where
  "allocationLODIsNull alloc = (case alloc of None \<Rightarrow> Some False
     | Some a \<Rightarrow> (case dLod (aDrvState a) of [] \<Rightarrow> None | l # _ \<Rightarrow> Some (lMallocPtr l = 0)))"

definition hasSameDims :: "Allocation \<Rightarrow> Allocation \<Rightarrow> bool" where
  "hasSameDims this other = (let type0 = aType this; type1 = aType other in
     tCellCount type0 = tCellCount type1 \<and> tDimLOD type0 = tDimLOD type1 \<and> tFaces type0 = tFaces type1 \<and>
     tDimYuv type0 = tDimYuv type1 \<and> tDimX type0 = tDimX type1 \<and> tDimY type0 = tDimY type1 \<and> tDimZ type0 = tDimZ type1)"

primrec any_null :: "Allocation option list \<Rightarrow> bool option" where
  "any_null [] = Some False"
| "any_null (a # as) = do { b \<leftarrow> allocationLODIsNull a; if b then Some True else any_null as }"

text \<open>The loop that compares the inputs with the first one; a null input is dereferenced.\<close>

primrec all_same_dims :: "Allocation \<Rightarrow> Allocation option list \<Rightarrow> bool option" where
  "all_same_dims a0 [] = Some True"
| "all_same_dims a0 (a # as) = do { a \<leftarrow> a; if hasSameDims a0 a then all_same_dims a0 as else Some False }"

definition type_dims :: "Type \<Rightarrow> RsLaunchDimensions" where
  "type_dims t = zero_dims\<lparr>ldX := tDimX t, ldY := tDimY t, ldZ := tDimZ t\<rparr>"

definition stride_of :: "Allocation option \<Rightarrow> u32" where
  "stride_of a = (case a of None \<Rightarrow> 0 | Some a \<Rightarrow> ucast (getElementSizeBytes (aType a)))"

text \<open>
  \<open>forEachMtlsSetup\<close>; the second component is \<open>None\<close> when it reports an error and returns false. \<open>ains\<close> is
  \<open>None\<close> for a null array. Nothing checks the number of inputs against the size of the arrays of the
  launch structure, and copying more is undefined.
\<close>

definition forEachMtlsSetup :: "RsContext \<Rightarrow> bool \<Rightarrow> Allocation option list option \<Rightarrow> nat \<Rightarrow> Allocation option \<Rightarrow>
    RsScriptCall option \<Rightarrow> (RsContext \<times> MTLaunchStructForEach option) option" where
  "forEachMtlsSetup h mIsThreadable ains inLen aout sc =
     (let fail = Some (setError h RS_ERROR_BAD_SCRIPT, None) in
      if ains = None \<and> inLen \<noteq> 0 then fail else do {
        al \<leftarrow> (case ains of None \<Rightarrow> Some [] | Some l \<Rightarrow> if length l < inLen then None else Some (take inLen l));
        b \<leftarrow> any_null (rev al);
        if b then fail else do {
        b \<leftarrow> allocationLODIsNull aout;
        if b then fail else do {
        let in0 = (if inLen > 0 then al ! 0 else None);
        dim \<leftarrow> (case in0 of
            Some a0 \<Rightarrow> do { same \<leftarrow> all_same_dims a0 (rev (tl al)); Some (if same then Some (type_dims (aType a0)) else None) }
          | None \<Rightarrow> (case aout of Some out \<Rightarrow> Some (Some (type_dims (aType out)))
             | None \<Rightarrow> (case sc of Some c \<Rightarrow> Some (Some (zero_dims\<lparr>ldX := scXEnd c, ldY := scYEnd c\<rparr>)) | None \<Rightarrow> Some None)));
        (case dim of None \<Rightarrow> fail | Some dim \<Rightarrow>
          if (case (in0, aout) of (Some a0, Some out) \<Rightarrow> \<not> hasSameDims a0 out | _ \<Rightarrow> False) then fail
          else (case setUpMtlsDimensions dim sc of None \<Rightarrow> fail
            | Some (start, stop) \<Rightarrow> if RS_KERNEL_INPUT_LIMIT < inLen then None
              else Some (h, Some \<lparr>mtSliceSize = 1, mtIsThreadable = mIsThreadable, mtStart = start,
                mtEnd = stop\<lparr>ldX := rsMax 1 (ldX stop), ldY := rsMax 1 (ldY stop)\<rparr>, mtDim = dim, mtAins = al, mtAout = aout,
                mtInStride = map stride_of al, mtOutStride = stride_of aout\<rparr>))) }}})"

section \<open>Walking\<close>

text \<open>\<open>Allocation::getPointerUnchecked\<close>\<close>

definition getPointerUnchecked :: "Allocation \<Rightarrow> u32 \<Rightarrow> u32 \<Rightarrow> u32 \<Rightarrow> u32 \<Rightarrow> nat option" where
  "getPointerUnchecked a x y z lod = (if unat lod < length (dLod (aDrvState a))
     then (let l = dLod (aDrvState a) ! unat lod in
       Some (lMallocPtr l + unat (ucast x * getElementSizeBytes (aType a)) + unat (ucast y * lStride l) +
         unat (ucast z * lStride l * ucast (lDimY l))))
     else None)"

text \<open>A call of the kernel, with the driver info that \<open>FepPtrSetup\<close> has filled in.\<close>

record KernelCall =
  kcCurrent :: RsLaunchDimensions
  kcIn :: "nat option list"
  kcOut :: "nat option"
  kcX1 :: u32
  kcX2 :: u32

definition FepPtr :: "Allocation option \<Rightarrow> u32 \<Rightarrow> u32 \<Rightarrow> u32 \<Rightarrow> u32 \<Rightarrow> nat option" where
  "FepPtr a x y z lod = (case a of None \<Rightarrow> Some 0 | Some a \<Rightarrow> getPointerUnchecked a x y z lod)"

definition FepPtrSetup :: "MTLaunchStructForEach \<Rightarrow> RsLaunchDimensions \<Rightarrow> u32 \<Rightarrow> u32 \<Rightarrow> u32 \<Rightarrow> u32 \<Rightarrow> u32 \<Rightarrow> u32 \<Rightarrow> KernelCall" where
  "FepPtrSetup mtls current x y z lod x1 x2 = \<lparr>kcCurrent = current, kcIn = map (\<lambda>a. FepPtr a x y z lod) (mtAins mtls),
     kcOut = FepPtr (mtAout mtls) x y z lod, kcX1 = x1, kcX2 = x2\<rparr>"

definition rows :: "u32 \<times> u32 \<Rightarrow> u32 list" where
  "rows r = map of_nat (range_list r)"

text \<open>The rows of one slice of the outer dimensions, in \<open>walk_general_foreach\<close> and in the serial loop.\<close>

definition outer_rows :: "MTLaunchStructForEach \<Rightarrow> RsLaunchDimensions \<Rightarrow> KernelCall list" where
  "outer_rows mtls current = map (\<lambda>y. FepPtrSetup mtls (current\<lparr>ldY := y\<rparr>) (ldX (mtStart mtls)) y (ldZ current) (ldLod current)
     (ldX (mtStart mtls)) (ldX (mtEnd mtls))) (rows (ldY (mtStart mtls), ldY (mtEnd mtls)))"

definition walk_general_foreach :: "MTLaunchStructForEach \<Rightarrow> u32 \<Rightarrow> KernelCall list option" where
  "walk_general_foreach mtls n = map_option (outer_rows mtls) (outer_slice (mtStart mtls, mtEnd mtls, zero_dims) n)"

definition walk_2d_foreach :: "MTLaunchStructForEach \<Rightarrow> u32 \<Rightarrow> KernelCall list option" where
  "walk_2d_foreach mtls n = map_option (\<lambda>r. map (\<lambda>y. FepPtrSetup mtls (zero_dims\<lparr>ldY := y\<rparr>) (ldX (mtStart mtls)) y 0 0
     (ldX (mtStart mtls)) (ldX (mtEnd mtls))) (rows r)) (range_slice (ldY (mtStart mtls), mtSliceSize mtls, ldY (mtEnd mtls)) n)"

definition walk_1d_foreach :: "MTLaunchStructForEach \<Rightarrow> u32 \<Rightarrow> KernelCall list option" where
  "walk_1d_foreach mtls n = map_option (\<lambda>(xStart, xEnd). [FepPtrSetup mtls zero_dims xStart 0 0 0 xStart xEnd])
     (range_slice (ldX (mtStart mtls), mtSliceSize mtls, ldX (mtEnd mtls)) n)"

text \<open>The loop without threads; it does not end when the outer dimensions have \<open>2 ^ 32\<close> coordinates or more.\<close>

partial_function (option) serial_loop :: "MTLaunchStructForEach \<Rightarrow> u32 \<Rightarrow> KernelCall list option" where
  "serial_loop mtls n = (case outer_slice (mtStart mtls, mtEnd mtls, zero_dims) n of None \<Rightarrow> Some []
     | Some current \<Rightarrow> do { rest \<leftarrow> serial_loop mtls (n + 1); Some (outer_rows mtls current @ rest) })"

section \<open>Launching\<close>

datatype Walker = Serial | General | TwoD | OneD

definition outerDims :: "MTLaunchStructForEach \<Rightarrow> bool" where
  "outerDims mtls \<longleftrightarrow> ldZ (mtStart mtls) \<noteq> ldZ (mtEnd mtls) \<or> ldFace (mtStart mtls) \<noteq> ldFace (mtEnd mtls) \<or>
     ldLod (mtStart mtls) \<noteq> ldLod (mtEnd mtls) \<or> ldArray0 (mtStart mtls) \<noteq> ldArray0 (mtEnd mtls) \<or>
     ldArray1 (mtStart mtls) \<noteq> ldArray1 (mtEnd mtls) \<or> ldArray2 (mtStart mtls) \<noteq> ldArray2 (mtEnd mtls) \<or>
     ldArray3 (mtStart mtls) \<noteq> ldArray3 (mtEnd mtls)"

definition lod0_stride :: "Allocation \<Rightarrow> u64 option" where
  "lod0_stride a = (case dLod (aDrvState a) of [] \<Rightarrow> None | l # _ \<Rightarrow> Some (lStride l))"

text \<open>
  The bound of the slice size that limits the atomic operations, from the bytes per row or per cell
  \<open>unit\<close>; a division by 0 is undefined.
\<close>

definition chunk_size :: "(Allocation \<Rightarrow> u64 option) \<Rightarrow> MTLaunchStructForEach \<Rightarrow> u32 \<Rightarrow> u32 option" where
  "chunk_size unit mtls s1 = do {
     out \<leftarrow> (case mtAout mtls of None \<Rightarrow> Some 0 | Some a \<Rightarrow> unit a);
     if out \<noteq> 0 then Some (ucast (16 * 1024 div out))
     else (case mtAins mtls of Some a # _ \<Rightarrow> do { d \<leftarrow> unit a; if d = 0 then None else Some (ucast (16 * 1024 div d)) }
       | _ \<Rightarrow> Some s1) }"

definition slice_size :: "u32 \<Rightarrow> u32 \<Rightarrow> u32" where
  "slice_size s1 s2 = (let m = rsMin s1 s2 in if m < 1 then 1 else m)"

definition launchForEach :: "u32 \<Rightarrow> bool \<Rightarrow> MTLaunchStructForEach \<Rightarrow> (MTLaunchStructForEach \<times> Walker) option" where
  "launchForEach mCount mInKernel mtls = (if mCount \<ge> 1 \<and> mtIsThreadable mtls \<and> \<not> mInKernel
     then if outerDims mtls then Some (mtls\<lparr>mtSliceSize := 1\<rparr>, General)
     else if ldY (mtDim mtls) > 1 then do {
       let d = (mCount + 1) * 4;
       s1 \<leftarrow> (if d = 0 then None else Some (ldY (mtDim mtls) div d));
       s2 \<leftarrow> chunk_size lod0_stride mtls s1;
       Some (mtls\<lparr>mtSliceSize := slice_size s1 s2\<rparr>, TwoD) }
     else do {
       let d = (mCount + 1) * 4;
       s1 \<leftarrow> (if d = 0 then None else Some (ldX (mtDim mtls) div d));
       s2 \<leftarrow> chunk_size (\<lambda>a. Some (getElementSizeBytes (aType a))) mtls s1;
       Some (mtls\<lparr>mtSliceSize := slice_size s1 s2\<rparr>, OneD) }
     else Some (mtls, Serial))"

text \<open>The function each walker's loop cuts slices with.\<close>

definition walker_slice :: "Walker \<Rightarrow> MTLaunchStructForEach \<Rightarrow> u32 \<Rightarrow> KernelCall list option" where
  "walker_slice w mtls = (case w of General \<Rightarrow> walk_general_foreach mtls | TwoD \<Rightarrow> walk_2d_foreach mtls
     | OneD \<Rightarrow> walk_1d_foreach mtls | Serial \<Rightarrow> (\<lambda>_. None))"

definition forEach_fast :: "MTLaunchStructForEach \<Rightarrow> bool" where
  "forEach_fast mtls = launch_fast (ldY (mtDim mtls)) (ldX (mtEnd mtls)) (ldX (mtStart mtls)) (mtSliceSize mtls)"

text \<open>The cells a kernel call visits: coordinates and pointers.\<close>

record Cell =
  clX :: nat
  clCurrent :: RsLaunchDimensions
  clIn :: "nat option list"
  clOut :: "nat option"

definition cells :: "MTLaunchStructForEach \<Rightarrow> KernelCall \<Rightarrow> Cell list" where
  "cells mtls kc = map (\<lambda>x. \<lparr>clX = x, clCurrent = kcCurrent kc,
     clIn = map2 (\<lambda>p st. map_option (\<lambda>p. p + (x - unat (kcX1 kc)) * unat st) p) (kcIn kc) (mtInStride mtls),
     clOut = map_option (\<lambda>p. p + (x - unat (kcX1 kc)) * unat (mtOutStride mtls)) (kcOut kc)\<rparr>)
     (range_list (kcX1 kc, kcX2 kc))"

section \<open>What the preparation establishes\<close>

definition launch_ok :: "MTLaunchStructForEach \<Rightarrow> bool" where
  "launch_ok m \<longleftrightarrow>
     mtStart m = zero_dims\<lparr>ldX := ldX (mtStart m), ldY := ldY (mtStart m), ldZ := ldZ (mtStart m)\<rparr> \<and>
     mtEnd m = zero_dims\<lparr>ldX := ldX (mtEnd m), ldY := ldY (mtEnd m), ldZ := ldZ (mtEnd m)\<rparr> \<and>
     ldX (mtStart m) < ldX (mtEnd m) \<and> ldX (mtEnd m) \<le> max 1 (ldX (mtDim m)) \<and>
     ldY (mtStart m) < ldY (mtEnd m) \<and> ldY (mtEnd m) \<le> max 1 (ldY (mtDim m)) \<and>
     ldZ (mtEnd m) \<le> ldZ (mtDim m) \<and> (ldZ (mtStart m) = ldZ (mtEnd m) \<longrightarrow> ldZ (mtStart m) = 0) \<and>
     mtInStride m = map stride_of (mtAins m) \<and> mtOutStride m = stride_of (mtAout m)"

lemma set_up_ok:
  assumes "SET_UP_DIMENSION base sc = Some (a, b)"
  shows "b \<le> base" and "a < b \<or> a = 0 \<and> b = 0" and "a < max 1 b"
proof -
  show "b \<le> base" and ab: "a < b \<or> a = 0 \<and> b = 0"
    using assms by (auto simp: SET_UP_DIMENSION_def Let_def min_def word_gt_0 split: option.splits if_splits prod.splits)
  from ab show "a < max 1 b"
    by (auto simp: less_max_iff_disj)
qed

lemma setup_ok:
  assumes "forEachMtlsSetup h th ains inLen aout sc = Some (h', Some m)"
  shows "launch_ok m \<and> mtIsThreadable m = th"
proof -
  obtain al dim start stop where m: "m = \<lparr>mtSliceSize = 1, mtIsThreadable = th, mtStart = start,
      mtEnd = stop\<lparr>ldX := rsMax 1 (ldX stop), ldY := rsMax 1 (ldY stop)\<rparr>, mtDim = dim, mtAins = al, mtAout = aout,
      mtInStride = map stride_of al, mtOutStride = stride_of aout\<rparr>" and s: "setUpMtlsDimensions dim sc = Some (start, stop)"
    using assms by (auto simp: forEachMtlsSetup_def Let_def split: if_splits option.splits prod.splits)
  obtain x1 x2 y1 y2 z1 z2 where
      x: "SET_UP_DIMENSION (ldX dim) (map_option (\<lambda>c. (scXStart c, scXEnd c)) sc) = Some (x1, x2)"
      and y: "SET_UP_DIMENSION (ldY dim) (map_option (\<lambda>c. (scYStart c, scYEnd c)) sc) = Some (y1, y2)"
      and z: "SET_UP_DIMENSION (ldZ dim) (map_option (\<lambda>c. (scZStart c, scZEnd c)) sc) = Some (z1, z2)"
      and "start = zero_dims\<lparr>ldX := x1, ldY := y1, ldZ := z1\<rparr>" "stop = zero_dims\<lparr>ldX := x2, ldY := y2, ldZ := z2\<rparr>"
    using s by (auto simp: setUpMtlsDimensions_def)
  then show ?thesis
    using set_up_ok [OF x] set_up_ok [OF y] set_up_ok [OF z] m
    by (auto simp: launch_ok_def max.coboundedI2 max.commute)
qed

section \<open>The walkers visit the cells of the serial loop\<close>

definition walker_count :: "Walker \<times> MTLaunchStructForEach \<Rightarrow> nat" where
  "walker_count = (\<lambda>(w, m). case w of General \<Rightarrow> outer_count (mtStart m, mtEnd m, zero_dims)
     | TwoD \<Rightarrow> range_count (ldY (mtStart m), mtSliceSize m, ldY (mtEnd m))
     | OneD \<Rightarrow> range_count (ldX (mtStart m), mtSliceSize m, ldX (mtEnd m)) | Serial \<Rightarrow> 0)"

definition walker_fits :: "Walker \<times> MTLaunchStructForEach \<Rightarrow> nat \<Rightarrow> bool" where
  "walker_fits = (\<lambda>(w, m) T. case w of General \<Rightarrow> outer_count (mtStart m, mtEnd m, zero_dims) + T \<le> 2 ^ 32
     | TwoD \<Rightarrow> range_fits (ldY (mtStart m), mtSliceSize m, ldY (mtEnd m)) T
     | OneD \<Rightarrow> range_fits (ldX (mtStart m), mtSliceSize m, ldX (mtEnd m)) T | Serial \<Rightarrow> True)"

interpretation walkers: slicer "\<lambda>(w, m). walker_slice w m" walker_count walker_fits
proof
  fix l T s
  assume "walker_fits l T" and "s < walker_count l + T"
  then show "((case l of (w, m) \<Rightarrow> walker_slice w m) (of_nat s) \<noteq> None) = (s < walker_count l)"
    using outer.cut ranges.cut
    by (cases l; cases "fst l")
      (simp_all add: walker_fits_def walker_count_def walker_slice_def walk_general_foreach_def walk_2d_foreach_def walk_1d_foreach_def
        del: not_None_eq)
qed

lemma serial_loop_from:
  assumes "outer_count (mtStart m, mtEnd m, zero_dims) < 2 ^ 32" and "s \<le> outer_count (mtStart m, mtEnd m, zero_dims)"
  shows "serial_loop m (of_nat s) = Some (concat (map (\<lambda>s. outer_rows m (slice_at (outer_slice (mtStart m, mtEnd m, zero_dims)) s))
    [s..<outer_count (mtStart m, mtEnd m, zero_dims)]))"
  using assms(2)
proof (induction "outer_count (mtStart m, mtEnd m, zero_dims) - s" arbitrary: s)
  case 0
  then have "outer_slice (mtStart m, mtEnd m, zero_dims) (of_nat s) = None"
    using outer.cut [of "(mtStart m, mtEnd m, zero_dims)" 1 s] assms(1) by auto
  then show ?case
    using 0 by (simp add: serial_loop.simps)
next
  case (Suc k)
  then have s: "s < outer_count (mtStart m, mtEnd m, zero_dims)"
    by simp
  then obtain c where c: "outer_slice (mtStart m, mtEnd m, zero_dims) (of_nat s) = Some c"
    using outer.cut [of "(mtStart m, mtEnd m, zero_dims)" 1 s] assms(1) by auto
  have "serial_loop m (of_nat (Suc s)) = Some (concat (map (\<lambda>s. outer_rows m (slice_at (outer_slice (mtStart m, mtEnd m, zero_dims)) s))
      [Suc s..<outer_count (mtStart m, mtEnd m, zero_dims)]))"
    using Suc s by (intro Suc.hyps) auto
  with c s show ?case
    by (subst serial_loop.simps) (simp add: upt_conv_Cons slice_at_def add.commute)
qed

definition cells_of :: "MTLaunchStructForEach \<Rightarrow> KernelCall list \<Rightarrow> Cell list" where
  "cells_of m cs = concat (map (cells m) cs)"

lemma cells_of_append [simp]: "cells_of m (xs @ ys) = cells_of m xs @ cells_of m ys"
  by (simp add: cells_of_def)

lemma cells_of_concat: "cells_of m (concat xss) = concat (map (cells_of m) xss)"
  by (induction xss) (simp_all add: cells_of_def)

text \<open>Without outer dimensions there is one slice, at the origin.\<close>

lemma no_outer:
  assumes "launch_ok m" and "\<not> outerDims m"
  shows "outer_count (mtStart m, mtEnd m, zero_dims) = 1"
    and "slice_at (outer_slice (mtStart m, mtEnd m, zero_dims)) 0 = zero_dims"
proof -
  have z: "ldZ (mtStart m) = 0" "ldZ (mtEnd m) = 0"
    using assms by (auto simp: launch_ok_def outerDims_def)
  obtain x1 y1 x2 y2 where "mtStart m = zero_dims\<lparr>ldX := x1, ldY := y1, ldZ := 0\<rparr>"
      "mtEnd m = zero_dims\<lparr>ldX := x2, ldY := y2, ldZ := 0\<rparr>"
    using assms(1) z unfolding launch_ok_def by metis
  then show "outer_count (mtStart m, mtEnd m, zero_dims) = 1" "slice_at (outer_slice (mtStart m, mtEnd m, zero_dims)) 0 = zero_dims"
    by (simp_all add: outer_count_def num_coords_def outer_bounds_def width_def slice_at_def outer_slice_def SelectOuterSlice_def
        sliceInt_def zero_dims_def)
qed

lemma serial_no_outer:
  assumes "launch_ok m" and "\<not> outerDims m"
  shows "serial_loop m 0 = Some (outer_rows m zero_dims)"
  using serial_loop_from [of m 0] no_outer [OF assms] by simp

lemma walker_general:
  assumes "walker_fits (General, m) T" and "0 < T"
  shows "\<exists>cs. serial_loop m 0 = Some cs \<and>
    cs = concat (map (slice_at (walker_slice General m)) [0..<walker_count (General, m)])"
proof -
  have fit: "outer_count (mtStart m, mtEnd m, zero_dims) + T \<le> 2 ^ 32"
    using assms(1) by (simp add: walker_fits_def)
  have "slice_at (walker_slice General m) s = outer_rows m (slice_at (outer_slice (mtStart m, mtEnd m, zero_dims)) s)"
    if "s < outer_count (mtStart m, mtEnd m, zero_dims)" for s
    using outer.cut [OF fit, of s] that by (auto simp: slice_at_def walker_slice_def walk_general_foreach_def)
  then have "map (slice_at (walker_slice General m)) [0..<walker_count (General, m)] =
      map (\<lambda>s. outer_rows m (slice_at (outer_slice (mtStart m, mtEnd m, zero_dims)) s)) [0..<outer_count (mtStart m, mtEnd m, zero_dims)]"
    by (simp add: walker_count_def)
  then show ?thesis
    using serial_loop_from [of m 0] fit assms(2) by simp
qed

lemma walker_2d:
  assumes "walker_fits (TwoD, m) T" and "launch_ok m" and "\<not> outerDims m"
  shows "\<exists>cs. serial_loop m 0 = Some cs \<and>
    cs = concat (map (slice_at (walker_slice TwoD m)) [0..<walker_count (TwoD, m)])"
proof -
  let ?r = "(ldY (mtStart m), mtSliceSize m, ldY (mtEnd m))"
  let ?row = "\<lambda>y. FepPtrSetup m (zero_dims\<lparr>ldY := y\<rparr>) (ldX (mtStart m)) y 0 0 (ldX (mtStart m)) (ldX (mtEnd m))"
  have fit: "range_fits ?r T"
    using assms(1) by (simp add: walker_fits_def)
  have "slice_at (walker_slice TwoD m) s = map ?row (rows (slice_at (range_slice ?r) s))" if "s < range_count ?r" for s
    using ranges.cut [OF fit, of s] that by (auto simp: slice_at_def walker_slice_def walk_2d_foreach_def)
  then have "map (slice_at (walker_slice TwoD m)) [0..<walker_count (TwoD, m)] =
      map (\<lambda>s. map ?row (rows (slice_at (range_slice ?r) s))) [0..<range_count ?r]"
    by (intro map_cong) (simp_all add: walker_count_def)
  then have "concat (map (slice_at (walker_slice TwoD m)) [0..<walker_count (TwoD, m)]) =
      concat (map (\<lambda>s. map ?row (rows (slice_at (range_slice ?r) s))) [0..<range_count ?r])"
    by (rule arg_cong)
  also have "\<dots> = map (?row \<circ> of_nat) (concat (map (\<lambda>s. range_list (slice_at (range_slice ?r) s)) [0..<range_count ?r]))"
    by (simp add: map_concat rows_def comp_def)
  also have "\<dots> = outer_rows m zero_dims"
    using ranges_concat [OF fit] by (simp add: outer_rows_def rows_def range_list_def comp_def zero_dims_def)
  finally show ?thesis
    using serial_no_outer [OF assms(2,3)] by simp
qed

text \<open>
  In one dimension a slice starts in the middle of the row; its pointers are those the kernel reaches
  by advancing from the start of the row.
\<close>

definition sizes_ok :: "MTLaunchStructForEach \<Rightarrow> bool" where
  "sizes_ok m \<longleftrightarrow> (\<forall>a. Some a \<in> insert (mtAout m) (set (mtAins m)) \<longrightarrow> unat (getElementSizeBytes (aType a)) < 2 ^ 32)"

definition ptr_at :: "Allocation option \<Rightarrow> nat \<Rightarrow> nat option" where
  "ptr_at a x = (case a of None \<Rightarrow> Some 0
     | Some a \<Rightarrow> (case dLod (aDrvState a) of [] \<Rightarrow> None
        | l # _ \<Rightarrow> Some (lMallocPtr l + x * unat (getElementSizeBytes (aType a)))))"

lemma ptr_advance:
  assumes "unat x1 \<le> x" and "\<And>b. a = Some b \<Longrightarrow> unat (getElementSizeBytes (aType b)) < 2 ^ 32"
  shows "map_option (\<lambda>p. p + (x - unat x1) * unat (stride_of a)) (FepPtr a x1 0 0 0) = ptr_at a x"
proof (cases a)
  case (Some b)
  let ?es = "getElementSizeBytes (aType b)"
  have "unat x1 * unat ?es < 2 ^ 32 * 2 ^ 32"
    using assms(2) [OF Some] unsigned_less [where ?'a = nat, of x1] by (intro mult_strict_mono) auto
  then have m: "unat (ucast x1 * ?es) = unat x1 * unat ?es"
    using unsigned_less [where ?'a = nat, of x1] by (simp add: unat_word_ariths unsigned_ucast_eq take_bit_eq_mod)
  have s: "unat (ucast ?es :: u32) = unat ?es"
    using assms(2) [OF Some] by (simp add: unsigned_ucast_eq take_bit_eq_mod)
  have "unat x1 * unat ?es + (x - unat x1) * unat ?es = x * unat ?es"
    using assms(1) by (simp flip: distrib_right)
  then show ?thesis
    using Some m s by (auto simp: FepPtr_def ptr_at_def getPointerUnchecked_def stride_of_def Let_def split: list.splits)
qed (simp add: FepPtr_def ptr_at_def stride_of_def)

definition cell_at :: "MTLaunchStructForEach \<Rightarrow> nat \<Rightarrow> Cell" where
  "cell_at m x = \<lparr>clX = x, clCurrent = zero_dims, clIn = map (\<lambda>a. ptr_at a x) (mtAins m), clOut = ptr_at (mtAout m) x\<rparr>"

lemma cells_1d:
  assumes "launch_ok m" and "sizes_ok m"
  shows "cells m (FepPtrSetup m zero_dims a 0 0 0 a b) = map (cell_at m) (range_list (a, b))"
proof -
  have "map2 (\<lambda>p st. map_option (\<lambda>p. p + (x - unat a) * unat st) p) (map (\<lambda>al. FepPtr al a 0 0 0) (mtAins m)) (map stride_of (mtAins m)) =
      map (\<lambda>al. ptr_at al x) (mtAins m)" if "unat a \<le> x" for x
    unfolding map2_map_map using assms(2) that by (intro map_cong refl ptr_advance) (auto simp: sizes_ok_def)
  moreover have "map_option (\<lambda>p. p + (x - unat a) * unat (stride_of (mtAout m))) (FepPtr (mtAout m) a 0 0 0) = ptr_at (mtAout m) x"
    if "unat a \<le> x" for x
    using assms(2) that by (intro ptr_advance) (auto simp: sizes_ok_def)
  ultimately show ?thesis
    using assms(1) unfolding cells_def
    by (intro map_cong) (auto simp: range_list_def FepPtrSetup_def launch_ok_def cell_at_def)
qed

lemma walker_1d:
  assumes "walker_fits (OneD, m) T" and "launch_ok m" and "\<not> outerDims m" and "ldY (mtDim m) \<le> 1" and "sizes_ok m"
  shows "\<exists>cs. serial_loop m 0 = Some cs \<and>
    cells_of m cs = cells_of m (concat (map (slice_at (walker_slice OneD m)) [0..<walker_count (OneD, m)]))"
proof -
  let ?r = "(ldX (mtStart m), mtSliceSize m, ldX (mtEnd m))"
  have fit: "range_fits ?r T"
    using assms(1) by (simp add: walker_fits_def)
  have y: "ldY (mtStart m) < ldY (mtEnd m)" "ldY (mtEnd m) \<le> 1"
    using assms(2,4) by (auto simp: launch_ok_def)
  then have "unat (ldY (mtStart m)) = 0" "unat (ldY (mtEnd m)) = 1"
    by (auto simp: word_less_nat_alt word_le_nat_alt)
  then have "rows (ldY (mtStart m), ldY (mtEnd m)) = [0]"
    by (simp add: rows_def range_list_def)
  then have row: "outer_rows m zero_dims = [FepPtrSetup m zero_dims (ldX (mtStart m)) 0 0 0 (ldX (mtStart m)) (ldX (mtEnd m))]"
    by (simp add: outer_rows_def zero_dims_def)
  have "slice_at (walker_slice OneD m) s = (case slice_at (range_slice ?r) s of (a, b) \<Rightarrow> [FepPtrSetup m zero_dims a 0 0 0 a b])"
    if "s < range_count ?r" for s
    using ranges.cut [OF fit, of s] that by (auto simp: slice_at_def walker_slice_def walk_1d_foreach_def)
  then have "cells_of m (slice_at (walker_slice OneD m) s) = map (cell_at m) (range_list (slice_at (range_slice ?r) s))"
    if "s < range_count ?r" for s
    using that cells_1d [OF assms(2,5)] by (auto simp: cells_of_def split: prod.splits)
  then have "map (cells_of m \<circ> slice_at (walker_slice OneD m)) [0..<walker_count (OneD, m)] =
      map (\<lambda>s. map (cell_at m) (range_list (slice_at (range_slice ?r) s))) [0..<range_count ?r]"
    by (intro map_cong) (simp_all add: walker_count_def)
  then have "cells_of m (concat (map (slice_at (walker_slice OneD m)) [0..<walker_count (OneD, m)])) =
      map (cell_at m) (concat (map (\<lambda>s. range_list (slice_at (range_slice ?r) s)) [0..<range_count ?r]))"
    by (simp add: cells_of_concat map_concat comp_def)
  also have "\<dots> = map (cell_at m) (range_list (ldX (mtStart m), ldX (mtEnd m)))"
    using ranges_concat [OF fit] by (simp add: range_list_def)
  also have "\<dots> = cells_of m (outer_rows m zero_dims)"
    using cells_1d [OF assms(2,5)] by (simp add: row cells_of_def)
  finally show ?thesis
    using serial_no_outer [OF assms(2,3)] by simp
qed

section \<open>The arithmetic of the slices does not wrap\<close>

lemma slices_fit:
  assumes "a < b" and "b \<le> max 1 d" and "unat d < 2 ^ 31" and "unat mCount < 2 ^ 20"
  shows "range_fits (a, slice_size (d div ((mCount + 1) * 4)) s2, b) (unat mCount + 1)"
proof -
  define T where "T = unat mCount + 1"
  define z where "z = unat (slice_size (d div ((mCount + 1) * 4)) s2)"
  have "unat (mCount + 1) = T"
    using assms(4) by (simp add: T_def unat_word_ariths)
  then have "unat ((mCount + 1) * 4) = T * 4"
    using assms(4) by (simp add: T_def unat_word_ariths)
  then have "z \<le> max 1 (unat d div (T * 4))" and z: "1 \<le> z"
    by (auto simp: z_def slice_size_def Let_def unat_min unat_div word_less_nat_alt)
  define X where "X = T * (unat d div (T * 4))"
  have Tz: "T * z \<le> max T X"
    using \<open>z \<le> max 1 (unat d div (T * 4))\<close> unfolding X_def by (metis mult.right_neutral mult_le_mono2 nat_mult_max_right)
  have X: "4 * X \<le> unat d"
    using times_div_less_eq_dividend [of "T * 4" "unat d"] by (simp add: X_def ac_simps)
  have zT: "z \<le> T * z"
    by (simp add: T_def)
  let ?n = "(unat b - unat a + (z - 1)) div z"
  have n: "?n * z \<le> unat b - unat a + (z - 1)"
    by (rule div_times_less_eq_dividend)
  have ab: "unat a < unat b" "unat b \<le> max 1 (unat d)"
    using assms(1,2) by (auto simp: word_less_nat_alt word_le_nat_alt max_def split: if_splits)
  have "unat a + (?n + T) * z \<le> unat b + z + T * z"
    using n ab unfolding distrib_right by linarith
  also have "\<dots> \<le> max 1 (unat d) + 2 * max T X"
    using ab zT Tz by linarith
  also have "\<dots> < 2 ^ 32"
    using X assms(3,4) by (simp add: T_def max_def)
  finally show ?thesis
    using z ab unfolding range_fits_def range_count_def prod.case z_def [symmetric] T_def [symmetric] by simp
qed

lemma outer_fits:
  assumes "launch_ok m" and "unat (ldZ (mtDim m)) < 2 ^ 31"
  shows "outer_count (mtStart m, mtEnd m, zero_dims) \<le> 2 ^ 31"
proof -
  obtain x1 y1 z1 x2 y2 z2 where d: "mtStart m = zero_dims\<lparr>ldX := x1, ldY := y1, ldZ := z1\<rparr>"
      "mtEnd m = zero_dims\<lparr>ldX := x2, ldY := y2, ldZ := z2\<rparr>"
    using assms(1) unfolding launch_ok_def by metis
  then have "outer_count (mtStart m, mtEnd m, zero_dims) = width z1 z2"
    by (simp add: outer_count_def num_coords_def outer_bounds_def width_def [of 0] zero_dims_def)
  moreover have "unat z2 < 2 ^ 31"
    using assms d by (auto simp: launch_ok_def word_le_nat_alt)
  moreover have "width z1 z2 \<le> max 1 (unat z2)"
    by (auto simp: width_def unat_sub order_less_imp_le max_def)
  ultimately show ?thesis
    by (simp add: max_def split: if_splits)
qed

lemma mset_concat_cong:
  assumes "mset xs = mset ys"
  shows "mset (concat (map f xs)) = mset (concat (map f ys))"
proof -
  have "mset (concat (map f zs)) = (\<Sum>z\<in>#mset zs. mset (f z))" for zs
    by (induction zs) simp_all
  then show ?thesis
    using assms by simp
qed

text \<open>What \<open>launchForEach\<close> hands to the pool.\<close>

lemma launch_fits:
  assumes "launchForEach mCount False m = Some (m', w)" and "w \<noteq> Serial" and ok: "launch_ok m"
    and "unat (ldX (mtDim m)) < 2 ^ 31" and "unat (ldY (mtDim m)) < 2 ^ 31" and "unat (ldZ (mtDim m)) < 2 ^ 31"
    and "unat mCount < 2 ^ 20"
  shows "(\<exists>k. m' = m\<lparr>mtSliceSize := k\<rparr>) \<and> walker_fits (w, m') (unat mCount + 1) \<and>
    (w = TwoD \<or> w = OneD \<longrightarrow> \<not> outerDims m) \<and> (w = OneD \<longrightarrow> ldY (mtDim m) \<le> 1)"
proof -
  have y: "range_fits (ldY (mtStart m), slice_size (ldY (mtDim m) div ((mCount + 1) * 4)) s2, ldY (mtEnd m)) (unat mCount + 1)" for s2
    using ok assms(5,7) by (intro slices_fit) (auto simp: launch_ok_def)
  have x: "range_fits (ldX (mtStart m), slice_size (ldX (mtDim m) div ((mCount + 1) * 4)) s2, ldX (mtEnd m)) (unat mCount + 1)" for s2
    using ok assms(4,7) by (intro slices_fit) (auto simp: launch_ok_def)
  have z: "outer_count (mtStart m, mtEnd m, zero_dims) + (unat mCount + 1) \<le> 2 ^ 32"
    using outer_fits [OF ok assms(6)] assms(7) by simp
  show ?thesis
    using assms(1,2) x y z
    by (auto simp: launchForEach_def Let_def walker_fits_def not_less split: if_splits)
qed

lemma rows_size [simp]:
  "outer_rows (m\<lparr>mtSliceSize := k\<rparr>) c = outer_rows m c" "cells (m\<lparr>mtSliceSize := k\<rparr>) = cells m"
  by (simp_all add: outer_rows_def FepPtrSetup_def cells_def fun_eq_iff)

lemma serial_size:
  assumes "outer_count (mtStart m, mtEnd m, zero_dims) < 2 ^ 32"
  shows "serial_loop (m\<lparr>mtSliceSize := k\<rparr>) 0 = serial_loop m 0"
  using serial_loop_from [of m 0] serial_loop_from [of "m\<lparr>mtSliceSize := k\<rparr>" 0] assms by simp

lemma walker_serial:
  assumes "launchForEach mCount False m = Some (m', w)" and "w \<noteq> Serial" and ok: "launch_ok m" and "sizes_ok m"
    and "unat (ldX (mtDim m)) < 2 ^ 31" and "unat (ldY (mtDim m)) < 2 ^ 31" and "unat (ldZ (mtDim m)) < 2 ^ 31"
    and "unat mCount < 2 ^ 20"
  shows "\<exists>cs. serial_loop m 0 = Some cs \<and>
    cells_of m cs = cells_of m (concat (map (slice_at (walker_slice w m')) [0..<walker_count (w, m')]))"
proof -
  obtain k where m': "m' = m\<lparr>mtSliceSize := k\<rparr>" and fit: "walker_fits (w, m') (unat mCount + 1)"
      and o: "w = TwoD \<or> w = OneD \<Longrightarrow> \<not> outerDims m" "w = OneD \<Longrightarrow> ldY (mtDim m) \<le> 1"
    using launch_fits [OF assms(1-3,5-8)] by auto
  have ok': "launch_ok m'" "sizes_ok m'" "outerDims m' = outerDims m" "mtDim m' = mtDim m"
    using ok assms(4) by (simp_all add: m' launch_ok_def sizes_ok_def outerDims_def)
  have c: "cells_of m' = cells_of m"
    by (auto simp: m' cells_of_def fun_eq_iff)
  have "\<exists>cs. serial_loop m' 0 = Some cs \<and>
      cells_of m' cs = cells_of m' (concat (map (slice_at (walker_slice w m')) [0..<walker_count (w, m')]))"
    using walker_general [of m' "unat mCount + 1"] walker_2d [of m' "unat mCount + 1"] walker_1d [of m' "unat mCount + 1"]
      fit ok' o assms(2) by (cases w) auto
  then show ?thesis
    using serial_size [of m k] outer_fits [OF ok assms(7)] c by (simp add: m')
qed

section \<open>Properties\<close>

text \<open>A launch over two cells without allocations, and a pool with one helper.\<close>

definition demo_call :: RsScriptCall where
  "demo_call = \<lparr>scXStart = 0, scXEnd = 2, scYStart = 0, scYEnd = 0, scZStart = 0, scZEnd = 0\<rparr>"

definition demo_launch :: MTLaunchStructForEach where
  "demo_launch = \<lparr>mtSliceSize = 1, mtIsThreadable = True, mtStart = zero_dims, mtEnd = zero_dims\<lparr>ldX := 2, ldY := 1\<rparr>,
     mtDim = zero_dims\<lparr>ldX := 2\<rparr>, mtAins = [], mtAout = None, mtInStride = [], mtOutStride = 0\<rparr>"

definition demo_pool :: "('s, 'p) Workers" where
  "demo_pool = \<lparr>wShared = undefined, mRunningCount = 0, mLaunchSignals = [False], mCompleteSignal = False, mExit = False,
     wMain = MReturned, wHelpers = [HWait]\<rparr>"

lemma demo_setup: "forEachMtlsSetup (empty_context 1) True None 0 None (Some demo_call) = Some (empty_context 1, Some demo_launch)"
  by (simp add: forEachMtlsSetup_def allocationLODIsNull_def setUpMtlsDimensions_def SET_UP_DIMENSION_def demo_call_def
      demo_launch_def zero_dims_def stride_of_def Let_def)

lemma demo_launch_1d: "launchForEach 1 False demo_launch = Some (demo_launch, OneD)"
  by (simp add: launchForEach_def outerDims_def chunk_size_def slice_size_def demo_launch_def zero_dims_def Let_def)

lemma demo_sel:
  "unat (ldX (mtDim demo_launch)) < 2 ^ 31" "unat (ldY (mtDim demo_launch)) < 2 ^ 31" "unat (ldZ (mtDim demo_launch)) < 2 ^ 31"
  "sizes_ok demo_launch" "unat (1 :: u32) < 2 ^ 20"
  by (simp_all add: demo_launch_def zero_dims_def sizes_ok_def)

lemma demo_idle: "pool_idle demo_pool" "getThreadCount demo_pool = unat (1 :: u32) + 1"
  by (simp_all add: demo_pool_def pool_idle_def pool_inv_def num_busy_def busy_def pending_def getThreadCount_def)

text \<open>
  C6. Whatever the scheduling, when a parallel kernel launch returns, the kernel has visited exactly the
  cells of the serial loop, each once and with the same input and output pointers, and the pool is
  idle again. This holds for launches that \<open>forEachMtlsSetup\<close> has accepted without overrunning the launch
  structure, that is, with at most eight inputs, with dimensions below \<open>2 ^ 31\<close>, element sizes below
  \<open>2 ^ 32\<close> and fewer than \<open>2 ^ 20\<close> helpers, and when waits do not return without a signal.
\<close>

theorem forEach_parallel_is_serial:
  assumes "forEachMtlsSetup h th ains inLen aout sc = Some (h', Some m)" and "sizes_ok m"
    and "unat (ldX (mtDim m)) < 2 ^ 31" and "unat (ldY (mtDim m)) < 2 ^ 31" and "unat (ldZ (mtDim m)) < 2 ^ 31"
    and "launchForEach mCount False m = Some (m', w)" and "w \<noteq> Serial"
    and "pool_idle W" and "getThreadCount W = unat mCount + 1" and "unat mCount < 2 ^ 20"
    and "(pool_step (Some (slice_loop (walker_slice w m'))) False)\<^sup>*\<^sup>*
      (launchThreads (Some (slice_loop (walker_slice w m'))) (forEach_fast m') no_slices W) W'" and "wMain W' = MReturned"
  shows "pool_idle W' \<and> (\<exists>cs. serial_loop m 0 = Some cs \<and>
    mset (cells_of m (concat (map snd (sDone (wShared W'))))) = mset (cells_of m cs))"
proof -
  have ok: "launch_ok m"
    using setup_ok [OF assms(1)] by simp
  have "walker_fits (w, m') (getThreadCount W)"
    using launch_fits [OF assms(6,7) ok assms(3-5,10)] assms(9) by simp
  then have "pool_idle W'" "mset (map snd (sDone (wShared W'))) = first_slices (walker_slice w m') (walker_count (w, m'))"
    using walkers.all_done [of "(w, m')" "forEach_fast m'" W W'] assms(8,11,12) by auto
  moreover obtain cs where "serial_loop m 0 = Some cs"
      "cells_of m cs = cells_of m (concat (map (slice_at (walker_slice w m')) [0..<walker_count (w, m')]))"
    using walker_serial [OF assms(6,7) ok assms(2-5,10)] by blast
  ultimately show ?thesis
    unfolding first_slices_def cells_of_concat by (metis mset_concat_cong)
qed

theorem forEach_parallel_is_serial_witness:
  "\<exists>W'. (pool_step (Some (slice_loop (walker_slice OneD demo_launch))) False)\<^sup>*\<^sup>*
      (launchThreads (Some (slice_loop (walker_slice OneD demo_launch))) (forEach_fast demo_launch) no_slices demo_pool) W' \<and>
    mset (map clX (cells_of demo_launch (concat (map snd (sDone (wShared W')))))) = {#0, 1#}"
proof -
  have fit: "walker_fits (OneD, demo_launch) (getThreadCount (demo_pool :: (KernelCall list Slices, KernelCall list SlicePc) Workers))"
    using launch_fits [OF demo_launch_1d _ _ demo_sel(1-3,5)] setup_ok [OF demo_setup] by (simp add: demo_idle(2))
  obtain W' where run: "(pool_step (Some (slice_loop (walker_slice OneD demo_launch))) False)\<^sup>*\<^sup>*
      (launchThreads (Some (slice_loop (walker_slice OneD demo_launch))) (forEach_fast demo_launch) no_slices demo_pool) W'"
      "\<nexists>W''. pool_step (Some (slice_loop (walker_slice OneD demo_launch))) False W' W''"
    using reaches_stuck [OF walkers.finite [OF demo_idle(1) fit, unfolded prod.case]] by blast
  then have ret: "wMain W' = MReturned"
    using walkers.reaches_end [OF _ demo_idle(1) fit, unfolded prod.case] by blast
  have "serial_loop demo_launch 0 = Some (outer_rows demo_launch zero_dims)"
    using setup_ok [OF demo_setup] by (intro serial_no_outer) (simp_all add: outerDims_def demo_launch_def zero_dims_def)
  then have "mset (cells_of demo_launch (concat (map snd (sDone (wShared W'))))) = mset (cells_of demo_launch (outer_rows demo_launch zero_dims))"
    using forEach_parallel_is_serial [OF demo_setup demo_sel(4,1-3) demo_launch_1d _ demo_idle demo_sel(5) run(1) ret] by simp
  then have "mset (map clX (cells_of demo_launch (concat (map snd (sDone (wShared W')))))) =
      mset (map clX (cells_of demo_launch (outer_rows demo_launch zero_dims)))"
    by (metis mset_map)
  also have "\<dots> = {#0, 1#}"
    by (simp add: cells_of_def outer_rows_def rows_def range_list_def demo_launch_def zero_dims_def FepPtrSetup_def cells_def upt_rec)
  finally show ?thesis
    using run(1) by blast
qed

text \<open>
  C7. A parallel kernel launch always comes to an end: no scheduling of its threads runs forever, and
  when no thread can go on, \<open>launchThreads\<close> has returned. As above, \<open>forEachMtlsSetup\<close> has accepted the
  launch within its bound of eight inputs, the dimensions are below \<open>2 ^ 31\<close>, there are fewer than
  \<open>2 ^ 20\<close> helpers, and waits do not return without a signal.
\<close>

theorem forEach_returns:
  assumes "forEachMtlsSetup h th ains inLen aout sc = Some (h', Some m)"
    and "unat (ldX (mtDim m)) < 2 ^ 31" and "unat (ldY (mtDim m)) < 2 ^ 31" and "unat (ldZ (mtDim m)) < 2 ^ 31"
    and "launchForEach mCount False m = Some (m', w)" and "w \<noteq> Serial"
    and "pool_idle W" and "getThreadCount W = unat mCount + 1" and "unat mCount < 2 ^ 20"
  shows "(\<nexists>f. f 0 = launchThreads (Some (slice_loop (walker_slice w m'))) (forEach_fast m') no_slices W \<and>
      (\<forall>k. pool_step (Some (slice_loop (walker_slice w m'))) False (f k) (f (Suc k)))) \<and>
    (\<forall>W'. (pool_step (Some (slice_loop (walker_slice w m'))) False)\<^sup>*\<^sup>*
        (launchThreads (Some (slice_loop (walker_slice w m'))) (forEach_fast m') no_slices W) W' \<and>
      (\<nexists>W''. pool_step (Some (slice_loop (walker_slice w m'))) False W' W'') \<longrightarrow> wMain W' = MReturned)"
proof -
  have ok: "launch_ok m"
    using setup_ok [OF assms(1)] by simp
  have fit: "walker_fits (w, m') (getThreadCount W)"
    using launch_fits [OF assms(5,6) ok assms(2-4,9)] assms(8) by simp
  show ?thesis
    using walkers.finite [OF assms(7) fit] walkers.reaches_end [OF _ assms(7) fit] by auto
qed

theorem forEach_returns_witness:
  "\<exists>W'. (pool_step (Some (slice_loop (walker_slice OneD demo_launch))) False)\<^sup>*\<^sup>*
      (launchThreads (Some (slice_loop (walker_slice OneD demo_launch))) (forEach_fast demo_launch) no_slices demo_pool) W' \<and>
    wMain W' = MReturned"
proof -
  note r = forEach_returns [OF demo_setup demo_sel(1-3) demo_launch_1d Walker.distinct(6) demo_idle demo_sel(5)]
  show ?thesis
    using reaches_stuck [OF conjunct1 [OF r]] conjunct2 [OF r] by blast
qed

text \<open>
  C22. The slices that the general walker takes enumerate the outer dimensions: slice by slice it gets
  every combination of the coordinates that are present, and each exactly once.
\<close>

theorem outer_slices_enumerate:
  assumes "num_coords (outer_bounds start stop) \<le> 2 ^ 32"
  shows "bij_betw (\<lambda>n. outer_coords (fst (SelectOuterSlice start stop current (of_nat n))))
    {..<num_coords (outer_bounds start stop)} {cs. list_all2 in_dim (outer_bounds start stop) cs}"
  using digits_bij [OF assms] by (simp only: outer_digits(1))

theorem outer_slices_enumerate_witness:
  "bij_betw (\<lambda>n. outer_coords (fst (SelectOuterSlice zero_dims (zero_dims\<lparr>ldZ := 4, ldFace := 6\<rparr>) zero_dims (of_nat n))))
    {..<24} {cs. list_all2 in_dim [(0, 4), (0, 0), (0, 6), (0, 0), (0, 0), (0, 0), (0, 0)] cs}"
  using outer_slices_enumerate [of zero_dims "zero_dims\<lparr>ldZ := 4, ldFace := 6\<rparr>" zero_dims]
  by (simp add: num_coords_def outer_bounds_def width_def zero_dims_def)

text \<open>
  The launch structure has room for eight inputs, and nothing checks their number: with the same
  allocation as every input and as output, a launch is prepared for up to eight inputs, and the copy
  into the structure is undefined for more.
\<close>

theorem forEach_input_overrun:
  assumes "dLod (aDrvState a) = l # ls" and "lMallocPtr l \<noteq> 0" and "0 < n"
  shows "(n \<le> 8 \<longrightarrow> (\<exists>m. forEachMtlsSetup h th (Some (replicate n (Some a))) n (Some a) None = Some (h, Some m))) \<and>
    (8 < n \<longrightarrow> forEachMtlsSetup h th (Some (replicate n (Some a))) n (Some a) None = None)"
proof -
  have null: "allocationLODIsNull (Some a) = Some False"
    using assms(1,2) by (simp add: allocationLODIsNull_def)
  then have "any_null (replicate k (Some a)) = Some False" for k
    by (induction k) simp_all
  moreover have "all_same_dims a (replicate k (Some a)) = Some True" for k
    by (induction k) (simp_all add: hasSameDims_def)
  moreover have "tl (replicate n (Some a)) = replicate (n - 1) (Some a)"
    by (cases n) simp_all
  ultimately show ?thesis
    using null assms(3)
    by (auto simp: forEachMtlsSetup_def Let_def setUpMtlsDimensions_def SET_UP_DIMENSION_def RS_KERNEL_INPUT_LIMIT_def hasSameDims_def)
qed

end
