(* ===== verification/Spec2Isabelle.thy ===== *)
theory Spec2Isabelle
  imports Rs_Utils Rs_Stream Rs_Component Rs_ObjectBase Rs_Objects Rs_Element Rs_ElementCache Rs_Type
    Rs_ElementFile Rs_TypeCache Cpp_Element Cpp_Type Blas_Legal Cpu_ForEach
begin

text \<open>
  A verification of the core of RenderScript: the runtime library at the top of \<^verbatim>\<open>src/\<close>, the C++ client
  API of \<^verbatim>\<open>src/cpp/\<close> and the CPU driver of \<^verbatim>\<open>src/cpu_ref/\<close>.

  \<^bold>\<open>The program.\<close> An application describes its data with \<^emph>\<open>elements\<close> (the layout of a cell), \<^emph>\<open>types\<close> (the
  dimensions of an array of cells) and \<^emph>\<open>allocations\<close> (the memory). The client library keeps proxies of
  these objects and asks the runtime to create the real ones. In the runtime they are reference-counted
  objects on a list of the context; elements and types are shared through caches and can be written to
  and read from files. Kernels run over allocations: a launch is prepared, cut into slices and executed
  by a pool of threads. BLAS methods check their arguments on the client and send one command each.

  \<^bold>\<open>Conventions.\<close> A structure is a record, an enumeration a datatype, a machine integer a word of its width;
  C++ \<^verbatim>\<open>int\<close> arithmetic is over \<open>int\<close> with overflow made explicit. An operation whose behaviour is undefined
  (a null or freed pointer, an access outside a buffer, an over-wide shift, a signed overflow) gives
  \<open>None\<close>. \<open>rsAssert\<close> only logs and is left out. Pointers to objects are addresses, with 0 for null. The
  class of an object is its body in the object heap. Stateful code passes its state explicitly;
  concurrent code is a step relation over program counters.

  \<^bold>\<open>The theories.\<close>
  \<^item> \<^verbatim>\<open>Rs_Prelude\<close>: word types, rule collections, lemmas on options, words, lists and sums.
  \<^item> \<^verbatim>\<open>Rs_Utils\<close> (\<^verbatim>\<open>rsCppUtils.h\<close>): \<open>rsHigherPow2\<close>, \<open>rsRound\<close>, box filters and their neighbours, each with the
    range in which it is right and what it does outside.
  \<^item> \<^verbatim>\<open>Rs_Stream\<close> (\<^verbatim>\<open>rsStream.cpp\<close>): the growing output stream and the input stream. The locale
    \<open>stream_codec\<close> is the contract of a writer and its reader; every primitive is an interpretation, and
    sequences of values are read back in order.
  \<^item> \<^verbatim>\<open>Rs_Component\<close> (\<^verbatim>\<open>rsComponent.cpp\<close>): scalar cell descriptions, their widths and their serialization.
  \<^item> \<^verbatim>\<open>Rs_ObjectBase\<close> (\<^verbatim>\<open>rsObjectBase.cpp\<close>): counts, the doubly linked list, deletion and the clean-up scan,
    over the locale \<open>object_class\<close>, which asks of a class which references its destructor drops and what
    its \<open>preDestroy\<close> does to the caches. Under the invariant \<open>ref_inv\<close> (exact counts, live caches, readable
    bodies) every cascade of destructors is safe and keeps it.
  \<^item> \<^verbatim>\<open>Rs_Objects\<close> (\<^verbatim>\<open>rsElement.h\<close>, \<^verbatim>\<open>rsType.h\<close>, \<^verbatim>\<open>rsAllocation.h\<close>, \<^verbatim>\<open>rsAllocation.cpp\<close>): the data of the three
    classes, the references that their destructors drop, those in the cells of allocations included
    (\<open>Element::decRefs\<close>, \<open>Type::decRefs\<close>, \<open>Allocation::freeChildrenUnlocked\<close>), \<open>freeAllChildren\<close>, and the
    interpretation of \<open>object_class\<close> for them.
  \<^item> \<^verbatim>\<open>Rs_Element\<close>, \<^verbatim>\<open>Rs_ElementCache\<close>, \<^verbatim>\<open>Rs_ElementFile\<close> (\<^verbatim>\<open>rsElement.cpp\<close>): layout, the cache, creation and
    files. \<open>ctx_ok\<close> extends \<open>ref_inv\<close> by the well-formedness of every body; creation keeps it, equal requests
    share, and files round-trip at any nesting depth.
  \<^item> \<^verbatim>\<open>Rs_Type\<close>, \<^verbatim>\<open>Rs_TypeCache\<close> (\<^verbatim>\<open>rsType.cpp\<close>): mipmap levels, YUV planes, cell counts, the cache, files.
  \<^item> \<^verbatim>\<open>Cpp_Element\<close>, \<^verbatim>\<open>Cpp_Type\<close> (\<^verbatim>\<open>cpp/Element.cpp\<close>, \<^verbatim>\<open>cpp/Type.cpp\<close>): the client's proxies and builders on top
    of the runtime model; sizes, offsets and cell counts agree on both sides where they do.
  \<^item> \<^verbatim>\<open>Blas_Call\<close>, \<^verbatim>\<open>Blas_Validate\<close>, \<^verbatim>\<open>Blas_Api\<close>, \<^verbatim>\<open>Blas_Legal\<close> (\<^verbatim>\<open>cpp/ScriptIntrinsicBLAS.cpp\<close>): the command, the
    argument checks (each an interpretation of the locale \<open>validator\<close>), the 97 public methods, and the
    invariant of the commands that any sequence of calls sends.
  \<^item> \<^verbatim>\<open>Cpu_Pool\<close> (\<^verbatim>\<open>rsSignal.cpp\<close>, \<^verbatim>\<open>cpu_ref/rsCpuCore.cpp\<close>): the worker pool as an interleaving of atomic steps
    of the helpers and the owner. The locale \<open>callback\<close> is the contract of what a pool runs; inside it
    launches are shown to return, and to return with the callback's postcondition.
  \<^item> \<^verbatim>\<open>Cpu_Slices\<close>: the loop with \<^verbatim>\<open>__sync_fetch_and_add\<close> that all walkers share, an interpretation of
    \<open>callback\<close>; the locale \<open>slicer\<close> is the contract of the function that cuts slices, interpreted for ranges,
    for the outer dimensions and for depth.
  \<^item> \<^verbatim>\<open>Cpu_ForEach\<close> (\<^verbatim>\<open>cpu_ref/rsCpuScript.cpp\<close>, \<^verbatim>\<open>cpu_ref/rsCpuCore.cpp\<close>): preparation of a launch, the three
    walkers and the serial loop; the walkers are a further interpretation of \<open>slicer\<close>.

  \<^bold>\<open>Fuel and bounds.\<close> The fuel of \<open>decSysRef\<close> bounds the depth of the cascade of destructors; each level
  removes an object from the list, so the number of live objects is enough, and the safety theorems state
  that the call returns with that fuel. The runtime calls pass \<open>mNextAddr\<close>, which bounds the number of
  objects. \<open>zeroAll_loop\<close> needs at most quadratically many iterations and \<open>isValid_walk\<close> one per object, as
  their theorems say. \<open>Element_createFromStream\<close> recurses on a nesting depth, and the round trip holds for
  every depth at least that of the element. The loops \<open>serial_loop\<close> and \<open>grow_until\<close>, which may not end, are
  partial functions, and that they return is part of the theorems. Theorems about launches assume
  dimensions below \<open>2 ^ 31\<close> and fewer than \<open>2 ^ 20\<close> helpers, which keeps the 32-bit slice arithmetic
  from wrapping; a launch structure has room for eight inputs.

  \<^bold>\<open>Abstractions.\<close> Reference counts are integers, where the source has 32-bit counters that would wrap
  after \<open>2 ^ 31\<close> simultaneous references. The memory of an allocation is modelled as far as the runtime
  itself reads it, as the object pointers stored at its addresses; each allocation has its own memory,
  so allocations over shared memory (adapters, user pointers) are outside the model. The allocator of
  the driver returns a fresh address or null. Kernels are compiled outside the repository and are
  represented by the calls they get. Floating-point scalars are bit patterns. Mutexes make list updates
  atomic and are not part of the state. Wakeups without a signal are a parameter of the pool's steps.

  \<^bold>\<open>Not modelled.\<close> The OpenGL and SPIR-V drivers, HIDL and driver loading, the script compiler and loader, the
  socket transport, the generated API stubs, JNI, and the documentation tools are I/O or calls into
  systems outside the repository. Floating-point kernels have no semantics here. Scripts, script
  groups, reductions, the copies between allocations and the file container are within reach but not
  part of this development.
\<close>

end
